(* ===== verification/Prelude.thy ===== *)
theory Prelude
  imports "HOL-Library.State_Monad" "HOL-Library.Word"
begin

text \<open>
  What every component of the service shares: Go error values and \<open>errors.Is\<close>, the idioms of
  effectful Go code (early returns, wrapped errors, the deferred rollback) over the state monad,
  weakest preconditions for such code, and lemmas on the list operations that stand for SQL
  statements. The collection \<open>wp\<close> holds the weakest-precondition equations; every component
  adds those of its own primitives.
\<close>

named_theorems wp "weakest-precondition equations of effectful code"

section \<open>Go errors\<close>

text \<open>
  A Go \<open>error\<close> value. \<open>Err\<close> is a package-level sentinel (\<open>errors.New\<close>), identified by its
  text, which is unique in the program. \<open>Wrapf p e s\<close> is \<open>fmt.Errorf\<close> with a \<open>%w\<close> verb:
  \<open>p\<close> before and \<open>s\<close> after the wrapped error. The two struct errors carry a duration in
  nanoseconds. \<open>PgError\<close> is an error report of the database server (SQLSTATE and constraint
  name), \<open>ExtError\<close> any other failure of something outside the process.
\<close>

datatype gerror =
    Err string
  | Wrapf string gerror string
  | LockedError int
  | TooManyRequestsError int
  | PgError string string
  | ExtError string

abbreviation wrap :: "string \<Rightarrow> gerror \<Rightarrow> gerror" where
  "wrap p e \<equiv> Wrapf p e []"

text \<open>\<open>errors.Is\<close>: the error itself or anything it wraps is the target.\<close>

fun errors_is :: "gerror \<Rightarrow> gerror \<Rightarrow> bool" where
  "errors_is (Wrapf p e s) t \<longleftrightarrow> Wrapf p e s = t \<or> errors_is e t"
| "errors_is e t \<longleftrightarrow> e = t"

text \<open>\<open>errors.As\<close> for \<open>*pgconn.PgError\<close>: SQLSTATE and constraint name of the first one found.\<close>

fun as_pg_error :: "gerror \<Rightarrow> (string \<times> string) option" where
  "as_pg_error (PgError c n) = Some (c, n)"
| "as_pg_error (Wrapf p e s) = as_pg_error e"
| "as_pg_error _ = None"

fun as_locked :: "gerror \<Rightarrow> int option" where
  "as_locked (LockedError d) = Some d"
| "as_locked (Wrapf p e s) = as_locked e"
| "as_locked _ = None"

fun as_too_many :: "gerror \<Rightarrow> int option" where
  "as_too_many (TooManyRequestsError d) = Some d"
| "as_too_many (Wrapf p e s) = as_too_many e"
| "as_too_many _ = None"

type_synonym 'a res = "gerror + 'a"
type_synonym ('s, 'a) act = "('s, gerror + 'a) state"

fun is_ok :: "'e + 'a \<Rightarrow> bool" where
  "is_ok (Inl e) = False"
| "is_ok (Inr x) = True"

section \<open>The idioms of effectful Go code\<close>

abbreviation ret :: "'a \<Rightarrow> ('s, 'a) state" where
  "ret x \<equiv> State_Monad.return x"

abbreviation ok :: "'a \<Rightarrow> ('s, 'a) act" where
  "ok x \<equiv> State_Monad.return (Inr x)"

abbreviation fail :: "gerror \<Rightarrow> ('s, 'a) act" where
  "fail e \<equiv> State_Monad.return (Inl e)"

text \<open>
  \<open>x, err := m; if err != nil { return err }; k x\<close>, and the same with the error wrapped as
  \<open>fmt.Errorf("p: %w", err)\<close>.
\<close>

definition attempt :: "('s, 'a) act \<Rightarrow> ('a \<Rightarrow> ('s, 'b) act) \<Rightarrow> ('s, 'b) act" where
  "attempt m k = do { r \<leftarrow> m; case r of Inl e \<Rightarrow> fail e | Inr x \<Rightarrow> k x }"

definition check :: "string \<Rightarrow> ('s, 'a) act \<Rightarrow> ('a \<Rightarrow> ('s, 'b) act) \<Rightarrow> ('s, 'b) act" where
  "check p m k = do { r \<leftarrow> m; case r of Inl e \<Rightarrow> fail (wrap p e) | Inr x \<Rightarrow> k x }"

text \<open>
  The body of a function with \<open>defer func() { if !settled { _ = tx.Rollback(ctx) } }()\<close>
  returns the value of \<open>settled\<close> together with its result; \<open>deferred\<close> runs the deferred
  function. \<open>leave\<close> is a return statement, \<open>tcheck\<close> is \<open>check\<close> with an unsettled return.
\<close>

type_synonym ('s, 'a) body = "('s, bool \<times> (gerror + 'a)) state"

abbreviation leave :: "bool \<Rightarrow> gerror + 'a \<Rightarrow> ('s, 'a) body" where
  "leave settled r \<equiv> State_Monad.return (settled, r)"

definition tcheck :: "string \<Rightarrow> ('s, 'a) act \<Rightarrow> ('a \<Rightarrow> ('s, 'b) body) \<Rightarrow> ('s, 'b) body" where
  "tcheck p m k = do { r \<leftarrow> m; case r of Inl e \<Rightarrow> leave False (Inl (wrap p e)) | Inr x \<Rightarrow> k x }"

definition deferred :: "('s, unit) state \<Rightarrow> ('s, 'a) body \<Rightarrow> ('s, 'a) act" where
  "deferred rollback m = do {
     (settled, r) \<leftarrow> m;
     if settled then ret r else do { rollback; ret r } }"

section \<open>Weakest preconditions\<close>

text \<open>\<open>wp m Q s\<close>: running \<open>m\<close> from \<open>s\<close> ends with a result and a state that satisfy \<open>Q\<close>.\<close>

definition wp :: "('s, 'a) state \<Rightarrow> ('a \<Rightarrow> 's \<Rightarrow> bool) \<Rightarrow> 's \<Rightarrow> bool" where
  "wp m Q s \<longleftrightarrow> (case run_state m s of (x, s') \<Rightarrow> Q x s')"

lemma wpI: "(\<And>x s'. run_state m s = (x, s') \<Longrightarrow> Q x s') \<Longrightarrow> wp m Q s"
  by (simp add: wp_def split: prod.splits)

lemma wpD: "wp m Q s \<Longrightarrow> run_state m s = (x, s') \<Longrightarrow> Q x s'"
  by (simp add: wp_def)

lemma wp_run: "wp m Q s \<longleftrightarrow> Q (fst (run_state m s)) (snd (run_state m s))"
  by (simp add: wp_def split: prod.splits)

lemma wp_mono: "wp m P s \<Longrightarrow> (\<And>x s'. P x s' \<Longrightarrow> Q x s') \<Longrightarrow> wp m Q s"
  by (simp add: wp_run)

lemma wp_conj: "wp m P s \<Longrightarrow> wp m Q s \<Longrightarrow> wp m (\<lambda>x s'. P x s' \<and> Q x s') s"
  by (simp add: wp_run)

lemma wp_return [wp]: "wp (State_Monad.return x) Q = Q x"
  by (simp add: wp_run fun_eq_iff)

lemma wp_bind [wp]: "wp (State_Monad.bind m k) Q = wp m (\<lambda>x. wp (k x) Q)"
  by (simp add: wp_run fun_eq_iff split: prod.splits)

lemma wp_if [wp]: "wp (if b then m else n) Q = (if b then wp m Q else wp n Q)"
  by simp

lemma wp_case_sum [wp]:
  "wp (case r of Inl e \<Rightarrow> f e | Inr x \<Rightarrow> g x) Q
     = (case r of Inl e \<Rightarrow> wp (f e) Q | Inr x \<Rightarrow> wp (g x) Q)"
  by (cases r) simp_all

lemma wp_case_option [wp]:
  "wp (case r of None \<Rightarrow> m | Some x \<Rightarrow> g x) Q
     = (case r of None \<Rightarrow> wp m Q | Some x \<Rightarrow> wp (g x) Q)"
  by (cases r) simp_all

lemma wp_case_prod [wp]:
  "wp (case p of (x, y) \<Rightarrow> f x y) Q = (case p of (x, y) \<Rightarrow> wp (f x y) Q)"
  by (cases p) simp

lemma wp_State: "wp (State f) Q s \<longleftrightarrow> (case f s of (x, s') \<Rightarrow> Q x s')"
  by (simp add: wp_def)

lemma wp_attempt [wp]:
  "wp (attempt m k) Q = wp m (\<lambda>r. case r of Inl e \<Rightarrow> Q (Inl e) | Inr x \<Rightarrow> wp (k x) Q)"
  by (simp add: attempt_def wp cong: sum.case_cong)

lemma wp_check [wp]:
  "wp (check p m k) Q = wp m (\<lambda>r. case r of Inl e \<Rightarrow> Q (Inl (wrap p e)) | Inr x \<Rightarrow> wp (k x) Q)"
  by (simp add: check_def wp cong: sum.case_cong)

lemma wp_tcheck [wp]:
  "wp (tcheck p m k) Q
     = wp m (\<lambda>r. case r of Inl e \<Rightarrow> Q (False, Inl (wrap p e)) | Inr x \<Rightarrow> wp (k x) Q)"
  by (simp add: tcheck_def wp cong: sum.case_cong)

lemma wp_deferred [wp]:
  "wp (deferred rb m) Q
     = wp m (\<lambda>(settled, r). if settled then Q r else wp rb (\<lambda>_. Q r))"
  by (simp add: deferred_def wp cong: prod.case_cong if_cong)

text \<open>Case distinctions on a value the code inspects, for goals that are applied to the state.\<close>

lemma state_case_sumI:
  "(\<And>e. x = Inl e \<Longrightarrow> f e s) \<Longrightarrow> (\<And>a. x = Inr a \<Longrightarrow> g a s) \<Longrightarrow> (case x of Inl e \<Rightarrow> f e | Inr a \<Rightarrow> g a) s"
  by (cases x) simp_all

lemma state_case_optionI:
  "(x = None \<Longrightarrow> f s) \<Longrightarrow> (\<And>a. x = Some a \<Longrightarrow> g a s) \<Longrightarrow> (case x of None \<Rightarrow> f | Some a \<Rightarrow> g a) s"
  by (cases x) simp_all

lemmas state_cases = state_case_sumI state_case_optionI

section \<open>Table operations\<close>

text \<open>\<open>UPDATE t SET f WHERE p\<close> on a table held as the list of its rows.\<close>

definition update_where :: "('r \<Rightarrow> bool) \<Rightarrow> ('r \<Rightarrow> 'r) \<Rightarrow> 'r list \<Rightarrow> 'r list" where
  "update_where p f rows = map (\<lambda>r. if p r then f r else r) rows"

text \<open>\<open>SELECT ... WHERE p\<close> of at most one row (a lookup by a unique column).\<close>

definition select_one :: "('r \<Rightarrow> bool) \<Rightarrow> 'r list \<Rightarrow> 'r option" where
  "select_one p rows = find p rows"

lemma length_update_where [simp]: "length (update_where p f rows) = length rows"
  by (simp add: update_where_def)

lemma update_where_Nil [simp]: "update_where p f [] = []"
  by (simp add: update_where_def)

lemma update_where_Cons [simp]:
  "update_where p f (r # rows) = (if p r then f r else r) # update_where p f rows"
  by (simp add: update_where_def)

lemma update_where_append [simp]:
  "update_where p f (xs @ ys) = update_where p f xs @ update_where p f ys"
  by (simp add: update_where_def)

lemma nth_update_where [simp]:
  "i < length rows \<Longrightarrow> update_where p f rows ! i = (if p (rows ! i) then f (rows ! i) else rows ! i)"
  by (simp add: update_where_def)

lemma update_where_none: "\<forall>r \<in> set rows. \<not> p r \<Longrightarrow> update_where p f rows = rows"
  by (induction rows) auto

lemma set_update_where: "set (update_where p f rows) = f ` {r \<in> set rows. p r} \<union> {r \<in> set rows. \<not> p r}"
  by (induction rows) auto

lemma in_update_whereE:
  assumes "r \<in> set (update_where p f rows)"
  obtains r0 where "r0 \<in> set rows" and "r = (if p r0 then f r0 else r0)"
  using assms by (auto simp: update_where_def)

lemma map_update_where:
  assumes "\<And>r. g (f r) = g r"
  shows "map g (update_where p f rows) = map g rows"
  by (induction rows) (auto simp: assms)

lemma filter_update_where:
  assumes "\<And>r. q (f r) = q r" and "\<And>r. q r \<Longrightarrow> \<not> p r"
  shows "filter q (update_where p f rows) = filter q rows"
  by (induction rows) (auto simp: assms)

lemma select_one_None [simp]: "select_one p rows = None \<longleftrightarrow> (\<forall>r \<in> set rows. \<not> p r)"
  by (auto simp: select_one_def find_None_iff)

lemma select_one_SomeD: "select_one p rows = Some r \<Longrightarrow> r \<in> set rows \<and> p r"
  by (auto simp: select_one_def find_Some_iff)

lemma select_one_Nil [simp]: "select_one p [] = None"
  by (simp add: select_one_def)

lemma select_one_Cons [simp]:
  "select_one p (r # rows) = (if p r then Some r else select_one p rows)"
  by (simp add: select_one_def)

lemma select_one_append:
  "select_one p (xs @ ys) = (case select_one p xs of None \<Rightarrow> select_one p ys | Some r \<Rightarrow> Some r)"
  by (induction xs) auto

lemma select_one_update_where:
  assumes "\<And>r. q (f r) = q r"
  shows "select_one q (update_where p f rows)
           = map_option (\<lambda>r. if p r then f r else r) (select_one q rows)"
  by (induction rows) (auto simp: assms)

lemma select_one_update_key:
  assumes "\<And>r. k (f r) = k r"
  shows "select_one (\<lambda>r. k r = e) (update_where (\<lambda>r. k r = e) f rows) = map_option f (select_one (\<lambda>r. k r = e) rows)"
  by (induction rows) (auto simp: assms)

text \<open>With a unique key, the row a key selects is the only one that has it.\<close>

lemma distinct_map_unique:
  "distinct (map g rows) \<Longrightarrow> r \<in> set rows \<Longrightarrow> r' \<in> set rows \<Longrightarrow> g r = g r' \<Longrightarrow> r = r'"
  by (meson distinct_map inj_onD)

lemma select_one_unique:
  assumes "distinct (map g rows)" and "r \<in> set rows"
  shows "select_one (\<lambda>x. g x = g r) rows = Some r"
  using assms by (induction rows) (auto simp: image_iff)

end
