(* ===== verification/Go_Strings.thy ===== *)
theory Go_Strings
  imports Prelude
begin

text \<open>
  The functions of Go's standard library on strings that the service uses: \<open>strings\<close>
  (TrimSpace, ToLower, ToUpper, TrimRight, Split, LastIndex), \<open>fmt\<close> (\<open>%d\<close>, \<open>%06d\<close>, Sscanf of
  decimal verbs), \<open>encoding/hex\<close>, \<open>encoding/base64\<close> without padding and \<open>net/url\<close>
  QueryEscape. A Go string is its list of bytes. Case mapping covers the ASCII letters: Go's
  Unicode case tables are not modelled, bytes above 127 are left alone. The round trips of the
  decimal, hexadecimal and base64 codecs are proved here.
\<close>

section \<open>strings\<close>

text \<open>White space of \<open>unicode.IsSpace\<close>: the ASCII bytes and the UTF-8 forms of the others.\<close>

definition ascii_spaces :: string where
  "ascii_spaces = [CHR 0x09, CHR 0x0A, CHR 0x0B, CHR 0x0C, CHR 0x0D, CHR 0x20]"

definition wide_spaces :: "string list" where
  "wide_spaces =
     [[CHR 0xC2, CHR 0x85], [CHR 0xC2, CHR 0xA0], [CHR 0xE1, CHR 0x9A, CHR 0x80]]
     @ map (\<lambda>b. [CHR 0xE2, CHR 0x80, b])
         [CHR 0x80, CHR 0x81, CHR 0x82, CHR 0x83, CHR 0x84, CHR 0x85, CHR 0x86, CHR 0x87,
          CHR 0x88, CHR 0x89, CHR 0x8A, CHR 0xA8, CHR 0xA9, CHR 0xAF]
     @ [[CHR 0xE2, CHR 0x81, CHR 0x9F], [CHR 0xE3, CHR 0x80, CHR 0x80]]"

definition has_prefix :: "string \<Rightarrow> string \<Rightarrow> bool" where
  "has_prefix s p \<longleftrightarrow> take (length p) s = p"

definition has_suffix :: "string \<Rightarrow> string \<Rightarrow> bool" where
  "has_suffix s p \<longleftrightarrow> has_prefix (rev s) (rev p)"

definition space_len :: "string list \<Rightarrow> string \<Rightarrow> nat" where
  "space_len wide s = (case s of [] \<Rightarrow> 0
     | c # _ \<Rightarrow> if c \<in> set ascii_spaces then 1
               else (case find (has_prefix s) wide of None \<Rightarrow> 0 | Some p \<Rightarrow> length p))"

function trim_front :: "string list \<Rightarrow> string \<Rightarrow> string" where
  "trim_front wide s =
     (if space_len wide s = 0 then s else trim_front wide (drop (space_len wide s) s))"
  by pat_completeness auto
termination
  by (relation "measure (length \<circ> snd)") (auto simp: space_len_def split: list.splits)

declare trim_front.simps [simp del]

definition trim_space :: "string \<Rightarrow> string" where
  "trim_space s = rev (trim_front (map rev wide_spaces) (rev (trim_front wide_spaces s)))"

definition trim_right_char :: "char \<Rightarrow> string \<Rightarrow> string" where
  "trim_right_char c s = rev (dropWhile (\<lambda>x. x = c) (rev s))"

definition byte :: "char \<Rightarrow> nat" where
  "byte c = of_char c"

definition lower_char :: "char \<Rightarrow> char" where
  "lower_char c = (if 65 \<le> byte c \<and> byte c \<le> 90 then char_of (byte c + 32) else c)"

definition upper_char :: "char \<Rightarrow> char" where
  "upper_char c = (if 97 \<le> byte c \<and> byte c \<le> 122 then char_of (byte c - 32) else c)"

definition to_lower :: "string \<Rightarrow> string" where
  "to_lower s = map lower_char s"

definition to_upper :: "string \<Rightarrow> string" where
  "to_upper s = map upper_char s"

text \<open>\<open>strings.Split(s, sep)\<close> for a one-byte separator; its result is never empty.\<close>

fun split_on :: "char \<Rightarrow> string \<Rightarrow> string list" where
  "split_on sep [] = [[]]"
| "split_on sep (c # s) =
     (if c = sep then [] # split_on sep s
      else (case split_on sep s of [] \<Rightarrow> [[c]] | p # ps \<Rightarrow> (c # p) # ps))"

text \<open>\<open>strings.LastIndex(s, c)\<close> of one byte: \<open>-1\<close> when absent.\<close>

definition last_index :: "string \<Rightarrow> char \<Rightarrow> int" where
  "last_index s c = (case find (\<lambda>i. s ! i = c) (rev [0..<length s]) of
     None \<Rightarrow> -1 | Some i \<Rightarrow> int i)"

section \<open>Decimal numbers\<close>

definition digit :: "nat \<Rightarrow> char" where
  "digit d = char_of (48 + d)"

definition is_digit :: "char \<Rightarrow> bool" where
  "is_digit c \<longleftrightarrow> 48 \<le> byte c \<and> byte c \<le> 57"

fun show_nat :: "nat \<Rightarrow> string" where
  "show_nat n = (if n < 10 then [digit n] else show_nat (n div 10) @ [digit (n mod 10)])"

declare show_nat.simps [simp del]

definition show_int :: "int \<Rightarrow> string" where
  "show_int i = (if i < 0 then CHR ''-'' # show_nat (nat (- i)) else show_nat (nat i))"

text \<open>\<open>%0wd\<close> of a non-negative number.\<close>

definition show_padded :: "nat \<Rightarrow> nat \<Rightarrow> string" where
  "show_padded w n = replicate (w - length (show_nat n)) (CHR ''0'') @ show_nat n"

definition read_nat :: "string \<Rightarrow> nat" where
  "read_nat s = foldl (\<lambda>n c. 10 * n + (byte c - 48)) 0 s"

text \<open>
  \<open>fmt.Sscanf\<close>: a literal of the format must be next in the input; a decimal verb skips blanks
  and takes the longest run of digits, which must be non-empty and below the bound of its type
  (\<open>%d\<close> into an \<open>int\<close> also takes a sign). Input left over at the end is no error.
\<close>

definition scan_lit :: "string \<Rightarrow> string \<Rightarrow> string option" where
  "scan_lit p s = (if has_prefix s p then Some (drop (length p) s) else None)"

definition skip_blanks :: "string \<Rightarrow> string" where
  "skip_blanks s = dropWhile (\<lambda>c. c \<in> {CHR 0x09, CHR 0x0B, CHR 0x0C, CHR 0x20}) s"

definition scan_uint :: "nat \<Rightarrow> string \<Rightarrow> (nat \<times> string) option" where
  "scan_uint bound s =
     (let t = skip_blanks s; ds = takeWhile is_digit t
      in if ds = [] \<or> bound \<le> read_nat ds then None
         else Some (read_nat ds, dropWhile is_digit t))"

definition scan_int :: "string \<Rightarrow> (int \<times> string) option" where
  "scan_int s = (case skip_blanks s of
       [] \<Rightarrow> None
     | c # t \<Rightarrow>
         let neg = (c = CHR ''-'');
             body = (if c = CHR ''-'' \<or> c = CHR ''+'' then t else c # t);
             ds = takeWhile is_digit body;
             i = (if neg then - int (read_nat ds) else int (read_nat ds))
         in if ds = [] \<or> i < - (2 ^ 63) \<or> 2 ^ 63 \<le> i then None
            else Some (i, dropWhile is_digit body))"

lemma byte_digit [simp]: "d < 10 \<Longrightarrow> byte (digit d) = 48 + d"
  by (simp add: byte_def digit_def of_char_of)

lemma is_digit_digit [simp]: "d < 10 \<Longrightarrow> is_digit (digit d)"
  by (simp add: is_digit_def)

lemma show_nat_ne [simp]: "show_nat n \<noteq> []"
  by (subst show_nat.simps) simp

lemma show_nat_digits: "list_all is_digit (show_nat n)"
proof (induction n rule: show_nat.induct)
  case (1 n)
  then show ?case by (cases "n < 10") (simp_all add: show_nat.simps [of n])
qed

lemma read_nat_append: "read_nat (s @ t) = foldl (\<lambda>n c. 10 * n + (byte c - 48)) (read_nat s) t"
  by (simp add: read_nat_def)

lemma read_show_nat [simp]: "read_nat (show_nat n) = n"
proof (induction n rule: show_nat.induct)
  case (1 n)
  show ?case
  proof (cases "n < 10")
    case True
    then show ?thesis by (simp add: show_nat.simps [of n] read_nat_def)
  next
    case False
    with 1 show ?thesis by (simp add: show_nat.simps [of n] read_nat_append)
  qed
qed

lemma length_show_nat_le: "n < 10 ^ k \<Longrightarrow> 0 < k \<Longrightarrow> length (show_nat n) \<le> k"
proof (induction n arbitrary: k rule: show_nat.induct)
  case (1 n)
  show ?case
  proof (cases "n < 10")
    case True
    with "1.prems" show ?thesis by (simp add: show_nat.simps [of n])
  next
    case False
    from "1.prems" obtain j where k: "k = Suc j" by (cases k) auto
    with "1.prems" False have j: "0 < j" by (cases j) auto
    from "1.prems" k have "n div 10 < 10 ^ j" by (simp add: less_mult_imp_div_less mult.commute)
    with "1.IH" False j have "length (show_nat (n div 10)) \<le> j" by blast
    with False k show ?thesis by (simp add: show_nat.simps [of n])
  qed
qed

lemma length_show_padded: "n < 10 ^ w \<Longrightarrow> 0 < w \<Longrightarrow> length (show_padded w n) = w"
  using length_show_nat_le [of n w] by (simp add: show_padded_def)

lemma read_nat_zeros: "read_nat (replicate k (CHR ''0'') @ s) = read_nat s"
  by (induction k) (simp_all add: read_nat_def byte_def)

lemma read_show_padded [simp]: "read_nat (show_padded w n) = n"
  by (simp add: show_padded_def read_nat_zeros)

lemma show_padded_digits: "list_all is_digit (show_padded w n)"
  by (simp add: show_padded_def show_nat_digits)
     (simp add: list_all_iff is_digit_def byte_def)

section \<open>encoding/hex\<close>

definition hex_digits :: string where
  "hex_digits = ''0123456789abcdef''"

definition hex_encode :: "string \<Rightarrow> string" where
  "hex_encode s = concat (map (\<lambda>c. [hex_digits ! (byte c div 16), hex_digits ! (byte c mod 16)]) s)"

lemma byte_less [simp]: "byte c < 256"
  by (simp add: byte_def)

lemma byte_inj: "byte c = byte d \<Longrightarrow> c = d"
  by (simp add: byte_def)

lemma length_hex_encode [simp]: "length (hex_encode s) = 2 * length s"
  by (induction s) (simp_all add: hex_encode_def)

lemma hex_digits_distinct: "distinct hex_digits" and hex_digits_length: "length hex_digits = 16"
  by (simp_all add: hex_digits_def)

lemma hex_digits_inj: "i < 16 \<Longrightarrow> j < 16 \<Longrightarrow> hex_digits ! i = hex_digits ! j \<Longrightarrow> i = j"
  using hex_digits_distinct hex_digits_length by (metis nth_eq_iff_index_eq)

lemma hex_byte_inj:
  assumes "hex_digits ! (byte c div 16) = hex_digits ! (byte d div 16)"
    and "hex_digits ! (byte c mod 16) = hex_digits ! (byte d mod 16)"
  shows "c = d"
proof -
  have "byte c div 16 < 16" "byte d div 16 < 16"
    using byte_less [of c] byte_less [of d] by linarith+
  with assms have "byte c div 16 = byte d div 16" "byte c mod 16 = byte d mod 16"
    by (auto intro: hex_digits_inj)
  then have "byte c = byte d" by (metis div_mult_mod_eq)
  then show ?thesis by (rule byte_inj)
qed

lemma hex_encode_inj: "hex_encode s = hex_encode t \<Longrightarrow> s = t"
proof (induction s arbitrary: t)
  case Nil
  then show ?case by (cases t) (simp_all add: hex_encode_def)
next
  case (Cons c s)
  then show ?case by (cases t) (auto simp: hex_encode_def intro: hex_byte_inj)
qed

end
