(* ===== verification/Encodings.thy ===== *)
theory Encodings
  imports Go_Strings
begin

unbundle bit_operations_syntax

text \<open>
  The byte-level codecs of the standard library that the service uses: unpadded base64 in both
  alphabets (\<open>base64.RawStdEncoding\<close>, \<open>base64.RawURLEncoding\<close>), \<open>url.QueryEscape\<close>, SHA-256 and
  HMAC-SHA-256, with the decode-after-encode theorem of base64 and the sizes of the digests.
\<close>

section \<open>encoding/base64 without padding\<close>

definition b64_std :: string where
  "b64_std = ''ABCDEFGHIJKLMNOPQRSTUVWXYZabcdefghijklmnopqrstuvwxyz0123456789+/''"

definition b64_url :: string where
  "b64_url = ''ABCDEFGHIJKLMNOPQRSTUVWXYZabcdefghijklmnopqrstuvwxyz0123456789-_''"

fun sextets :: "nat list \<Rightarrow> nat list" where
  "sextets [] = []"
| "sextets [a] = [a div 4, (a mod 4) * 16]"
| "sextets [a, b] = [a div 4, (a mod 4) * 16 + b div 16, (b mod 16) * 4]"
| "sextets (a # b # c # r) =
     [a div 4, (a mod 4) * 16 + b div 16, (b mod 16) * 4 + c div 64, c mod 64] @ sextets r"

text \<open>The trailing bits of a short last group are dropped, as Go does outside strict mode.\<close>

fun octets :: "nat list \<Rightarrow> nat list option" where
  "octets [] = Some []"
| "octets [_] = None"
| "octets [p, q] = Some [p * 4 + q div 16]"
| "octets [p, q, r] = Some [p * 4 + q div 16, (q mod 16) * 16 + r div 4]"
| "octets (p # q # r # s # t) =
     map_option (\<lambda>u. [p * 4 + q div 16, (q mod 16) * 16 + r div 4, (r mod 4) * 64 + s] @ u) (octets t)"

definition b64_encode :: "string \<Rightarrow> string \<Rightarrow> string" where
  "b64_encode alphabet s = map (\<lambda>i. alphabet ! i) (sextets (map byte s))"

definition index_in :: "string \<Rightarrow> char \<Rightarrow> nat option" where
  "index_in alphabet c = find (\<lambda>i. alphabet ! i = c) [0..<length alphabet]"

text \<open>\<open>DecodeString\<close> skips carriage returns and line feeds.\<close>

definition b64_decode :: "string \<Rightarrow> string \<Rightarrow> string option" where
  "b64_decode alphabet s =
     (let ixs = map (index_in alphabet) (filter (\<lambda>c. c \<noteq> CHR 0x0A \<and> c \<noteq> CHR 0x0D) s)
      in if None \<in> set ixs then None
         else map_option (map char_of) (octets (map the ixs)))"

lemma sextets_less: "\<forall>a \<in> set as. a < 256 \<Longrightarrow> \<forall>i \<in> set (sextets as). i < 64"
  by (induction as rule: sextets.induct) (auto simp: less_mult_imp_div_less)

lemma group1: "(a::nat) div 4 * 4 + (a mod 4 * 16 + y) div 16 = a" if "y < 16" for y
proof -
  have "(a mod 4 * 16 + y) div 16 = a mod 4" using that by (simp add: div_mult_self3)
  then show ?thesis by simp
qed

lemma group2: "((x * 16 + (b::nat) div 16) mod 16) * 16 + (b mod 16 * 4 + z) div 4 = b"
  if "b < 256" "z < 4" for x z
proof -
  have "(b mod 16 * 4 + z) div 4 = b mod 16" using that by (simp add: div_mult_self3)
  moreover have "(x * 16 + b div 16) mod 16 = b div 16"
    using that by (simp add: less_mult_imp_div_less)
  ultimately show ?thesis by simp
qed

lemma group3: "((y * 4 + (c::nat) div 64) mod 4) * 64 + c mod 64 = c" if "c < 256" for y
proof -
  have "(y * 4 + c div 64) mod 4 = c div 64" using that by (simp add: less_mult_imp_div_less)
  then show ?thesis by simp
qed

lemma octets_sextets: "\<forall>a \<in> set as. a < 256 \<Longrightarrow> octets (sextets as) = Some as"
proof (induction as rule: sextets.induct)
  case (2 a)
  then show ?case using group1 [of 0 a] by simp
next
  case (3 a b)
  then show ?case using group1 [of "b div 16" a] group2 [of b 0 "a mod 4"]
    by (simp add: less_mult_imp_div_less)
next
  case (4 a b c r)
  then show ?case
    using group1 [of "b div 16" a] group2 [of b "c div 64" "a mod 4"] group3 [of c "b mod 16"]
    by (simp add: less_mult_imp_div_less)
qed simp

lemma index_in_nth:
  assumes "distinct alphabet" and "i < length alphabet"
  shows "index_in alphabet (alphabet ! i) = Some i"
proof -
  have "find (\<lambda>j. alphabet ! j = alphabet ! i) [0..<length alphabet] = Some i"
    unfolding find_Some_iff using assms
    by (intro exI [of _ i]) (auto simp: nth_eq_iff_index_eq)
  then show ?thesis by (simp add: index_in_def)
qed

text \<open>Decoding an encoded string gives the string back, for any alphabet without line breaks.\<close>

lemma b64_roundtrip:
  assumes "distinct alphabet" and "length alphabet = 64"
    and "CHR 0x0A \<notin> set alphabet" and "CHR 0x0D \<notin> set alphabet"
  shows "b64_decode alphabet (b64_encode alphabet s) = Some s"
proof -
  let ?is = "sextets (map byte s)"
  have lt: "\<forall>i \<in> set ?is. i < 64" by (rule sextets_less) auto
  then have "\<forall>c \<in> set (b64_encode alphabet s). c \<in> set alphabet"
    by (auto simp: b64_encode_def assms(2))
  then have f: "filter (\<lambda>c. c \<noteq> CHR 0x0A \<and> c \<noteq> CHR 0x0D) (b64_encode alphabet s)
      = b64_encode alphabet s"
    using assms(3,4) by (intro filter_True) auto
  have m: "map (index_in alphabet) (b64_encode alphabet s) = map Some ?is"
    using lt assms(1,2) by (simp add: b64_encode_def index_in_nth)
  have "map (char_of \<circ> byte) s = s" by (induction s) (simp_all add: byte_def)
  moreover have "octets ?is = Some (map byte s)" by (rule octets_sextets) auto
  ultimately show ?thesis
    unfolding b64_decode_def Let_def f m by (auto simp: comp_def)
qed

lemma b64_std_roundtrip [simp]: "b64_decode b64_std (b64_encode b64_std s) = Some s"
  by (rule b64_roundtrip) (simp_all add: b64_std_def)

lemma b64_url_roundtrip [simp]: "b64_decode b64_url (b64_encode b64_url s) = Some s"
  by (rule b64_roundtrip) (simp_all add: b64_url_def)

lemma b64_encode_inj: "b64_encode b64_url s = b64_encode b64_url t \<Longrightarrow> s = t"
  by (metis b64_url_roundtrip option.inject)

lemma b64_encode_chars: "length alphabet = 64 \<Longrightarrow> set (b64_encode alphabet s) \<subseteq> set alphabet"
  using sextets_less [of "map byte s"] by (auto simp: b64_encode_def)

lemma sextets_ne: "as \<noteq> [] \<Longrightarrow> sextets as \<noteq> []"
  by (cases as rule: sextets.cases) simp_all

lemma b64_encode_ne: "s \<noteq> [] \<Longrightarrow> b64_encode alphabet s \<noteq> []"
  by (simp add: b64_encode_def sextets_ne)

section \<open>url.QueryEscape\<close>

definition unreserved :: "char \<Rightarrow> bool" where
  "unreserved c \<longleftrightarrow> is_digit c \<or> (65 \<le> byte c \<and> byte c \<le> 90) \<or> (97 \<le> byte c \<and> byte c \<le> 122)
     \<or> c \<in> set ''-_.~''"

definition upper_hex :: string where
  "upper_hex = ''0123456789ABCDEF''"

definition query_escape :: "string \<Rightarrow> string" where
  "query_escape s = concat (map (\<lambda>c.
     if unreserved c then [c]
     else if c = CHR '' '' then ''+''
     else [CHR ''%'', upper_hex ! (byte c div 16), upper_hex ! (byte c mod 16)]) s)"

section \<open>crypto/sha256 and crypto/hmac\<close>

text \<open>FIPS 180-4, over 32-bit words; the digest is the list of its 32 bytes.\<close>

type_synonym u32 = "32 word"

definition sha_k :: "u32 list" where
  "sha_k =
    [1116352408, 1899447441, 3049323471, 3921009573, 961987163, 1508970993, 2453635748, 2870763221,
     3624381080, 310598401, 607225278, 1426881987, 1925078388, 2162078206, 2614888103, 3248222580,
     3835390401, 4022224774, 264347078, 604807628, 770255983, 1249150122, 1555081692, 1996064986,
     2554220882, 2821834349, 2952996808, 3210313671, 3336571891, 3584528711, 113926993, 338241895,
     666307205, 773529912, 1294757372, 1396182291, 1695183700, 1986661051, 2177026350, 2456956037,
     2730485921, 2820302411, 3259730800, 3345764771, 3516065817, 3600352804, 4094571909, 275423344,
     430227734, 506948616, 659060556, 883997877, 958139571, 1322822218, 1537002063, 1747873779,
     1955562222, 2024104815, 2227730452, 2361852424, 2428436474, 2756734187, 3204031479, 3329325298]"

definition sha_init :: "u32 list" where
  "sha_init =
    [1779033703, 3144134277, 1013904242, 2773480762, 1359893119, 2600822924, 528734635, 1541459225]"

definition word_byte :: "nat \<Rightarrow> 'a::len word \<Rightarrow> nat" where
  "word_byte i w = unat (drop_bit (8 * i) w AND 255)"

definition sha_pad :: "nat list \<Rightarrow> nat list" where
  "sha_pad s =
     s @ [128] @ replicate ((119 - length s mod 64) mod 64) 0
     @ map (\<lambda>i. word_byte i (word_of_nat (8 * length s) :: 64 word)) [7, 6, 5, 4, 3, 2, 1, 0]"

fun be_words :: "nat list \<Rightarrow> u32 list" where
  "be_words (a # b # c # d # r) =
     (push_bit 24 (word_of_nat a) OR push_bit 16 (word_of_nat b) OR push_bit 8 (word_of_nat c)
        OR word_of_nat d) # be_words r"
| "be_words _ = []"

definition small_sigma0 :: "u32 \<Rightarrow> u32" where
  "small_sigma0 x = word_rotr 7 x XOR word_rotr 18 x XOR drop_bit 3 x"

definition small_sigma1 :: "u32 \<Rightarrow> u32" where
  "small_sigma1 x = word_rotr 17 x XOR word_rotr 19 x XOR drop_bit 10 x"

definition big_sigma0 :: "u32 \<Rightarrow> u32" where
  "big_sigma0 x = word_rotr 2 x XOR word_rotr 13 x XOR word_rotr 22 x"

definition big_sigma1 :: "u32 \<Rightarrow> u32" where
  "big_sigma1 x = word_rotr 6 x XOR word_rotr 11 x XOR word_rotr 25 x"

text \<open>The message schedule, newest word first.\<close>

fun sha_extend :: "nat \<Rightarrow> u32 list \<Rightarrow> u32 list" where
  "sha_extend 0 ws = ws"
| "sha_extend (Suc n) ws =
     sha_extend n ((small_sigma1 (ws ! 1) + ws ! 6 + small_sigma0 (ws ! 14) + ws ! 15) # ws)"

fun sha_round :: "u32 list \<Rightarrow> u32 \<times> u32 \<Rightarrow> u32 list" where
  "sha_round [a, b, c, d, e, f, g, h] (k, w) =
     (let t1 = h + big_sigma1 e + ((e AND f) XOR (NOT e AND g)) + k + w;
          t2 = big_sigma0 a + ((a AND b) XOR (a AND c) XOR (b AND c))
      in [t1 + t2, a, b, c, d + t1, e, f, g])"
| "sha_round st _ = st"

definition sha_block :: "u32 list \<Rightarrow> u32 list \<Rightarrow> u32 list" where
  "sha_block st blk =
     map2 (+) st (foldl sha_round st (zip sha_k (rev (sha_extend 48 (rev blk)))))"

function sha_blocks :: "u32 list \<Rightarrow> u32 list \<Rightarrow> u32 list" where
  "sha_blocks st ws = (if ws = [] then st else sha_blocks (sha_block st (take 16 ws)) (drop 16 ws))"
  by pat_completeness auto
termination
  by (relation "measure (length \<circ> snd)") auto

declare sha_blocks.simps [simp del]

definition word_bytes :: "u32 \<Rightarrow> nat list" where
  "word_bytes w = map (\<lambda>i. word_byte i w) [3, 2, 1, 0]"

definition sha256 :: "string \<Rightarrow> string" where
  "sha256 s = map char_of (concat (map word_bytes (sha_blocks sha_init (be_words (sha_pad (map byte s))))))"

definition xor_bytes :: "nat \<Rightarrow> string \<Rightarrow> string" where
  "xor_bytes m s = map (\<lambda>c. char_of (byte c XOR m)) s"

text \<open>HMAC (RFC 2104) with a 64-byte block.\<close>

definition hmac_sha256 :: "string \<Rightarrow> string \<Rightarrow> string" where
  "hmac_sha256 key msg =
     (let k = (if 64 < length key then sha256 key else key);
          kb = k @ replicate (64 - length k) (CHR 0x00)
      in sha256 (xor_bytes 0x5c kb @ sha256 (xor_bytes 0x36 kb @ msg)))"

lemma length_sha_round [simp]: "length (sha_round st kw) = length st"
  by (cases kw; cases "(st, kw)" rule: sha_round.cases) (auto simp: Let_def)

lemma length_foldl_sha_round [simp]: "length (foldl sha_round st kws) = length st"
  by (induction kws arbitrary: st) auto

lemma length_sha_blocks [simp]: "length (sha_blocks st ws) = length st"
proof (induction st ws rule: sha_blocks.induct)
  case (1 st ws)
  then show ?case
    by (cases "ws = []") (simp_all add: sha_blocks.simps [of st ws] sha_blocks.simps [of st "[]"] sha_block_def)
qed

lemma length_sha256 [simp]: "length (sha256 s) = 32"
proof -
  have "length (concat (map word_bytes ws)) = 4 * length ws" for ws
    by (induction ws) (simp_all add: word_bytes_def)
  then show ?thesis by (simp add: sha256_def sha_init_def)
qed

lemma length_hmac_sha256 [simp]: "length (hmac_sha256 k m) = 32"
  by (simp add: hmac_sha256_def Let_def)

end
