(* ===== verification/Database.thy ===== *)
theory Database
  imports Encodings
begin

text \<open>
  The tables of schema \<open>seg\<close> (\<open>database/init/03-seg-tables.sql\<close>) that the Go statements read and
  write: one record per row, columns named after the source with a prefix per table, NULL as
  \<open>None\<close>, a table as the list of its rows in insertion order. Unique constraints and foreign
  keys are part of the insert functions, as SQLSTATE 23505 and 23503. The invariant \<open>db_ok\<close>
  (unique keys, referential integrity of sessions) holds the constraints; the component
  theories prove that every statement preserves it. Times are nanoseconds, ids are their text.
\<close>

section \<open>Rows\<close>

record user_row =
  u_id :: string
  u_name :: "string option"
  u_email :: "string option"
  u_password :: "string option"
  u_verified_at :: "int option"
  u_failed :: int
  u_locked_until :: "int option"
  u_status :: string
  u_created :: int
  u_updated :: int
  u_deleted :: "int option"

record refresh_row =
  rt_id :: string
  rt_user :: string
  rt_hash :: string
  rt_family :: string
  rt_device :: "string option"
  rt_user_agent :: "string option"
  rt_ip :: "string option"
  rt_expires :: int
  rt_revoked :: "int option"
  rt_created :: int
  rt_updated :: int

record user_token_row =
  ut_id :: string
  ut_user :: string
  ut_purpose :: string
  ut_hash :: string
  ut_target :: string
  ut_attempts :: int
  ut_expires :: int
  ut_used :: "int option"
  ut_created :: int
  ut_updated :: int

record signup_row =
  sr_id :: string
  sr_email :: string
  sr_name :: string
  sr_password :: string
  sr_hash :: string
  sr_attempts :: int
  sr_expires :: int
  sr_created :: int
  sr_updated :: int

record identity_row =
  ui_id :: string
  ui_user :: string
  ui_provider :: string
  ui_subject :: string
  ui_email :: "string option"
  ui_linked :: int
  ui_deleted :: "int option"

record role_row =
  ro_id :: string
  ro_name :: string
  ro_description :: "string option"
  ro_status :: string
  ro_deleted :: "int option"

record permission_row =
  pe_id :: string
  pe_code :: string
  pe_module :: string
  pe_name :: string
  pe_status :: string
  pe_deleted :: "int option"

record user_role_row =
  ur_user :: string
  ur_role :: string

record role_permission_row =
  rp_role :: string
  rp_permission :: string

text \<open>
  A metadata value (\<open>map[string]any\<close> on its way through JSON into a \<open>jsonb\<close> column), kept as the
  structure the JSON text denotes.
\<close>

datatype jval = JNull | JStr string | JInt int | JBool bool | JList "jval list"

record event_row =
  se_id :: string
  se_event :: string
  se_user :: "string option"
  se_actor :: "string option"
  se_email_hash :: "string option"
  se_ip :: "string option"
  se_country :: "string option"
  se_city :: "string option"
  se_user_agent :: "string option"
  se_metadata :: "(string \<times> jval) list"
  se_created :: int

text \<open>
  The ledger table exists only once it was created (\<open>None\<close> before); \<open>ddl\<close> is the list of SQL
  batches the server has executed.
\<close>

record db =
  tb_user :: "user_row list"
  tb_refresh_token :: "refresh_row list"
  tb_user_token :: "user_token_row list"
  tb_signup_request :: "signup_row list"
  tb_user_identity :: "identity_row list"
  tb_role :: "role_row list"
  tb_permission :: "permission_row list"
  tb_user_role :: "user_role_row list"
  tb_role_permission :: "role_permission_row list"
  tb_security_event :: "event_row list"
  tb_schema_migration :: "string list option"
  ddl :: "string list"

definition empty_db :: db where
  "empty_db = \<lparr>tb_user = [], tb_refresh_token = [], tb_user_token = [], tb_signup_request = [],
     tb_user_identity = [], tb_role = [], tb_permission = [], tb_user_role = [],
     tb_role_permission = [], tb_security_event = [], tb_schema_migration = None, ddl = []\<rparr>"

lemma empty_db_simps [simp]:
  "tb_user empty_db = []" "tb_refresh_token empty_db = []" "tb_user_token empty_db = []"
  "tb_signup_request empty_db = []" "tb_user_identity empty_db = []" "tb_role empty_db = []"
  "tb_permission empty_db = []" "tb_user_role empty_db = []" "tb_role_permission empty_db = []"
  "tb_security_event empty_db = []" "tb_schema_migration empty_db = None" "ddl empty_db = []"
  by (simp_all add: empty_db_def)

section \<open>Statements\<close>

text \<open>
  A statement is a function of the statement's \<open>now()\<close>, of the value \<open>gen_random_uuid()\<close>
  returns and of the database; it fails with a server error or gives a result and the new
  database.
\<close>

type_synonym 'a stmt = "int \<Rightarrow> string \<Rightarrow> db \<Rightarrow> gerror + 'a \<times> db"

definition unique_violation :: "string \<Rightarrow> gerror" where
  "unique_violation constraint = PgError ''23505'' constraint"

definition fk_violation :: "string \<Rightarrow> gerror" where
  "fk_violation constraint = PgError ''23503'' constraint"

text \<open>\<open>NULLIF(x, '')\<close> and \<open>COALESCE(x, '')\<close>.\<close>

definition nullif_empty :: "string \<Rightarrow> string option" where
  "nullif_empty s = (if s = [] then None else Some s)"

definition coalesce_empty :: "string option \<Rightarrow> string" where
  "coalesce_empty o' = (case o' of None \<Rightarrow> [] | Some s \<Rightarrow> s)"

lemma coalesce_nullif [simp]: "coalesce_empty (nullif_empty s) = s"
  by (simp add: coalesce_empty_def nullif_empty_def)

text \<open>\<open>tx_email = $1 AND dt_deleted_at IS NULL\<close>; NULL is equal to nothing.\<close>

definition owns_email :: "string \<Rightarrow> user_row \<Rightarrow> bool" where
  "owns_email email u \<longleftrightarrow> u_email u = Some email \<and> u_deleted u = None"

definition live_user :: "string \<Rightarrow> user_row \<Rightarrow> bool" where
  "live_user uid u \<longleftrightarrow> u_id u = uid \<and> u_deleted u = None"

text \<open>The partial unique index \<open>ux_tb_user_email_active\<close> on a new or changed address.\<close>

definition email_free :: "string option \<Rightarrow> user_row list \<Rightarrow> bool" where
  "email_free email users \<longleftrightarrow> (case email of None \<Rightarrow> True | Some e \<Rightarrow> \<not> list_ex (owns_email e) users)"

definition insert_user :: "user_row \<Rightarrow> db \<Rightarrow> gerror + db" where
  "insert_user u d =
     (if u_id u \<in> set (map u_id (tb_user d)) then Inl (unique_violation ''tb_user_pkey'')
      else if \<not> email_free (u_email u) (tb_user d)
        then Inl (unique_violation ''ux_tb_user_email_active'')
      else Inr (d\<lparr>tb_user := tb_user d @ [u]\<rparr>))"

definition insert_refresh :: "refresh_row \<Rightarrow> db \<Rightarrow> gerror + db" where
  "insert_refresh r d =
     (if rt_id r \<in> set (map rt_id (tb_refresh_token d))
        then Inl (unique_violation ''tb_refresh_token_pkey'')
      else if rt_hash r \<in> set (map rt_hash (tb_refresh_token d))
        then Inl (unique_violation ''tb_refresh_token_tx_token_hash_key'')
      else if rt_user r \<notin> set (map u_id (tb_user d))
        then Inl (fk_violation ''fk_tb_refresh_token_user'')
      else Inr (d\<lparr>tb_refresh_token := tb_refresh_token d @ [r]\<rparr>))"

definition insert_user_token :: "user_token_row \<Rightarrow> db \<Rightarrow> gerror + db" where
  "insert_user_token r d =
     (if ut_id r \<in> set (map ut_id (tb_user_token d))
        then Inl (unique_violation ''tb_user_token_pkey'')
      else if ut_hash r \<in> set (map ut_hash (tb_user_token d))
        then Inl (unique_violation ''tb_user_token_tx_code_hash_key'')
      else if ut_user r \<notin> set (map u_id (tb_user d))
        then Inl (fk_violation ''fk_tb_user_token_user'')
      else Inr (d\<lparr>tb_user_token := tb_user_token d @ [r]\<rparr>))"

definition insert_identity :: "identity_row \<Rightarrow> db \<Rightarrow> gerror + db" where
  "insert_identity r d =
     (if ui_id r \<in> set (map ui_id (tb_user_identity d))
        then Inl (unique_violation ''tb_user_identity_pkey'')
      else if list_ex (\<lambda>x. ui_provider x = ui_provider r \<and> ui_subject x = ui_subject r
                \<and> ui_deleted x = None) (tb_user_identity d)
        then Inl (unique_violation ''ux_tb_user_identity_provider_sub'')
      else if ui_user r \<notin> set (map u_id (tb_user d))
        then Inl (fk_violation ''fk_tb_user_identity_user'')
      else Inr (d\<lparr>tb_user_identity := tb_user_identity d @ [r]\<rparr>))"

text \<open>
  \<open>UPDATE seg.tb_refresh_token SET dt_revoked_at = now(), dt_updated_at = now() WHERE q AND
  dt_revoked_at IS NULL\<close>: the revocation every session-ending operation issues.
\<close>

definition revoke_where :: "(refresh_row \<Rightarrow> bool) \<Rightarrow> int \<Rightarrow> refresh_row list \<Rightarrow> refresh_row list" where
  "revoke_where q t = update_where (\<lambda>r. q r \<and> rt_revoked r = None)
     (\<lambda>r. r\<lparr>rt_revoked := Some t, rt_updated := t\<rparr>)"

section \<open>Frames\<close>

text \<open>
  \<open>db_changes T d d'\<close>: only the tables of \<open>T\<close> may differ, and the security log only grew. Every
  operation's effect is stated with it.
\<close>

datatype table = T_user | T_refresh_token | T_user_token | T_signup_request | T_user_identity | T_role
  | T_permission | T_user_role | T_role_permission | T_schema

fun same_table :: "table \<Rightarrow> db \<Rightarrow> db \<Rightarrow> bool" where
  "same_table T_user d d' \<longleftrightarrow> tb_user d' = tb_user d"
| "same_table T_refresh_token d d' \<longleftrightarrow> tb_refresh_token d' = tb_refresh_token d"
| "same_table T_user_token d d' \<longleftrightarrow> tb_user_token d' = tb_user_token d"
| "same_table T_signup_request d d' \<longleftrightarrow> tb_signup_request d' = tb_signup_request d"
| "same_table T_user_identity d d' \<longleftrightarrow> tb_user_identity d' = tb_user_identity d"
| "same_table T_role d d' \<longleftrightarrow> tb_role d' = tb_role d"
| "same_table T_permission d d' \<longleftrightarrow> tb_permission d' = tb_permission d"
| "same_table T_user_role d d' \<longleftrightarrow> tb_user_role d' = tb_user_role d"
| "same_table T_role_permission d d' \<longleftrightarrow> tb_role_permission d' = tb_role_permission d"
| "same_table T_schema d d' \<longleftrightarrow> tb_schema_migration d' = tb_schema_migration d \<and> ddl d' = ddl d"

definition log_grows :: "db \<Rightarrow> db \<Rightarrow> bool" where
  "log_grows d d' \<longleftrightarrow> (\<exists>es. tb_security_event d' = tb_security_event d @ es)"

definition db_changes :: "table set \<Rightarrow> db \<Rightarrow> db \<Rightarrow> bool" where
  "db_changes T d d' \<longleftrightarrow> (\<forall>t. t \<notin> T \<longrightarrow> same_table t d d') \<and> log_grows d d'"

lemma same_table_refl [simp]: "same_table t d d"
  by (cases t) auto

lemma same_table_trans: "same_table t d d' \<Longrightarrow> same_table t d' d'' \<Longrightarrow> same_table t d d''"
  by (cases t) auto

lemma log_grows_refl [simp]: "log_grows d d"
  by (simp add: log_grows_def)

lemma log_grows_trans: "log_grows d d' \<Longrightarrow> log_grows d' d'' \<Longrightarrow> log_grows d d''"
  by (auto simp: log_grows_def)

lemma db_changes_refl [simp]: "db_changes T d d"
  by (simp add: db_changes_def)

lemma db_changes_trans: "db_changes T d d' \<Longrightarrow> db_changes T d' d'' \<Longrightarrow> db_changes T d d''"
  unfolding db_changes_def by (blast intro: same_table_trans log_grows_trans)

lemma db_changes_mono: "db_changes T d d' \<Longrightarrow> T \<subseteq> U \<Longrightarrow> db_changes U d d'"
  unfolding db_changes_def by blast

lemma db_changesD: "db_changes T d d' \<Longrightarrow> t \<notin> T \<Longrightarrow> same_table t d d'"
  by (simp add: db_changes_def)

lemma db_changes_one:
  assumes "db_changes T d d'" and "t \<in> T" and "\<And>x. x \<noteq> t \<Longrightarrow> same_table x d' d''" and "log_grows d' d''"
  shows "db_changes T d d''"
proof -
  have "same_table x d d''" if "x \<notin> T" for x
    using db_changesD [OF assms(1) that] assms(2) assms(3) [of x] that by (blast intro: same_table_trans)
  moreover have "log_grows d d''" using assms(1,4) log_grows_trans by (auto simp: db_changes_def)
  ultimately show ?thesis by (simp add: db_changes_def)
qed

lemma same_table_update:
  "x \<noteq> T_user \<Longrightarrow> same_table x d (d\<lparr>tb_user := x1\<rparr>)"
  "x \<noteq> T_refresh_token \<Longrightarrow> same_table x d (d\<lparr>tb_refresh_token := x2\<rparr>)"
  "x \<noteq> T_user_token \<Longrightarrow> same_table x d (d\<lparr>tb_user_token := x3\<rparr>)"
  "x \<noteq> T_signup_request \<Longrightarrow> same_table x d (d\<lparr>tb_signup_request := x4\<rparr>)"
  "x \<noteq> T_user_identity \<Longrightarrow> same_table x d (d\<lparr>tb_user_identity := x5\<rparr>)"
  "x \<noteq> T_user_role \<Longrightarrow> same_table x d (d\<lparr>tb_user_role := x6\<rparr>)"
  by (cases x; simp)+

lemma db_changes_update [simp]:
  "db_changes T d d' \<Longrightarrow> T_user \<in> T \<Longrightarrow> db_changes T d (d'\<lparr>tb_user := x1\<rparr>)"
  "db_changes T d d' \<Longrightarrow> T_refresh_token \<in> T \<Longrightarrow> db_changes T d (d'\<lparr>tb_refresh_token := x2\<rparr>)"
  "db_changes T d d' \<Longrightarrow> T_user_token \<in> T \<Longrightarrow> db_changes T d (d'\<lparr>tb_user_token := x3\<rparr>)"
  "db_changes T d d' \<Longrightarrow> T_signup_request \<in> T \<Longrightarrow> db_changes T d (d'\<lparr>tb_signup_request := x4\<rparr>)"
  "db_changes T d d' \<Longrightarrow> T_user_identity \<in> T \<Longrightarrow> db_changes T d (d'\<lparr>tb_user_identity := x5\<rparr>)"
  "db_changes T d d' \<Longrightarrow> T_user_role \<in> T \<Longrightarrow> db_changes T d (d'\<lparr>tb_user_role := x6\<rparr>)"
  by (erule (1) db_changes_one; simp add: same_table_update log_grows_def)+

text \<open>The log may appear under the last update or below it.\<close>

lemma db_changes_log [simp]:
  assumes "db_changes T d d'" and "tb_security_event d' = es0"
  shows "db_changes T d (d'\<lparr>tb_security_event := es0 @ es\<rparr>)"
proof -
  have "same_table x d' (d'\<lparr>tb_security_event := es0 @ es\<rparr>)" for x by (cases x) simp_all
  moreover have "log_grows d' (d'\<lparr>tb_security_event := es0 @ es\<rparr>)" by (simp add: log_grows_def assms(2))
  ultimately show ?thesis
    using assms(1) unfolding db_changes_def by (blast intro: same_table_trans log_grows_trans)
qed

section \<open>The constraints as an invariant\<close>

definition live_emails :: "user_row list \<Rightarrow> string list" where
  "live_emails users = List.map_filter (\<lambda>u. if u_deleted u = None then u_email u else None) users"

definition db_ok :: "db \<Rightarrow> bool" where
  "db_ok d \<longleftrightarrow>
     distinct (map u_id (tb_user d)) \<and> distinct (live_emails (tb_user d)) \<and>
     distinct (map rt_id (tb_refresh_token d)) \<and> distinct (map rt_hash (tb_refresh_token d)) \<and>
     (\<forall>r \<in> set (tb_refresh_token d). rt_user r \<in> set (map u_id (tb_user d))) \<and>
     distinct (map ut_id (tb_user_token d)) \<and> distinct (map ut_hash (tb_user_token d)) \<and>
     (\<forall>r \<in> set (tb_user_token d). ut_user r \<in> set (map u_id (tb_user d))) \<and>
     distinct (map sr_email (tb_signup_request d))"

lemma live_emails_append [simp]: "live_emails (xs @ ys) = live_emails xs @ live_emails ys"
  by (simp add: live_emails_def map_filter_def)

lemma live_emails_Nil [simp]: "live_emails [] = []"
  by (simp add: live_emails_def map_filter_def)

lemma live_emails_Cons:
  "live_emails (u # us) = (case u_email u of None \<Rightarrow> live_emails us
     | Some e \<Rightarrow> if u_deleted u = None then e # live_emails us else live_emails us)"
  by (simp add: live_emails_def map_filter_def split: option.splits)

lemma set_live_emails: "e \<in> set (live_emails us) \<longleftrightarrow> list_ex (owns_email e) us"
  by (induction us) (auto simp: live_emails_Cons owns_email_def split: option.splits)

lemma db_ok_empty: "db_ok empty_db"
  by (simp add: db_ok_def empty_db_def)

text \<open>What an insert that succeeds has checked, and what it leaves.\<close>

lemma insert_user_Inr: "insert_user u d = Inr d' \<longleftrightarrow>
    u_id u \<notin> set (map u_id (tb_user d)) \<and> email_free (u_email u) (tb_user d)
    \<and> d' = d\<lparr>tb_user := tb_user d @ [u]\<rparr>"
  by (auto simp: insert_user_def)

lemma insert_refresh_Inr: "insert_refresh r d = Inr d' \<longleftrightarrow>
    rt_id r \<notin> set (map rt_id (tb_refresh_token d)) \<and> rt_hash r \<notin> set (map rt_hash (tb_refresh_token d))
    \<and> rt_user r \<in> set (map u_id (tb_user d)) \<and> d' = d\<lparr>tb_refresh_token := tb_refresh_token d @ [r]\<rparr>"
  by (simp add: insert_refresh_def eq_commute)

lemma insert_user_token_Inr: "insert_user_token r d = Inr d' \<longleftrightarrow>
    ut_id r \<notin> set (map ut_id (tb_user_token d)) \<and> ut_hash r \<notin> set (map ut_hash (tb_user_token d))
    \<and> ut_user r \<in> set (map u_id (tb_user d)) \<and> d' = d\<lparr>tb_user_token := tb_user_token d @ [r]\<rparr>"
  by (simp add: insert_user_token_def eq_commute)

lemma insert_identity_Inr: "insert_identity r d = Inr d' \<longleftrightarrow>
    ui_id r \<notin> set (map ui_id (tb_user_identity d)) \<and>
    \<not> list_ex (\<lambda>x. ui_provider x = ui_provider r \<and> ui_subject x = ui_subject r
          \<and> ui_deleted x = None) (tb_user_identity d) \<and>
    ui_user r \<in> set (map u_id (tb_user d)) \<and> d' = d\<lparr>tb_user_identity := tb_user_identity d @ [r]\<rparr>"
  by (simp add: insert_identity_def eq_commute)

lemma email_free_live: "email_free e users \<longleftrightarrow> (\<forall>x. e = Some x \<longrightarrow> x \<notin> set (live_emails users))"
  by (simp add: email_free_def set_live_emails split: option.splits)

lemma insert_user_ok: "insert_user u d = Inr d' \<Longrightarrow> db_ok d \<Longrightarrow> db_ok d'"
  by (simp add: insert_user_Inr db_ok_def email_free_live live_emails_Cons split: option.splits)

lemma insert_refresh_ok: "insert_refresh r d = Inr d' \<Longrightarrow> db_ok d \<Longrightarrow> db_ok d'"
  by (simp add: insert_refresh_Inr db_ok_def)

lemma insert_user_token_ok: "insert_user_token r d = Inr d' \<Longrightarrow> db_ok d \<Longrightarrow> db_ok d'"
  by (simp add: insert_user_token_Inr db_ok_def)

lemma insert_identity_ok: "insert_identity r d = Inr d' \<Longrightarrow> db_ok d \<Longrightarrow> db_ok d'"
  by (simp add: insert_identity_Inr db_ok_def)

lemma revoke_where_keys [simp]:
  "map rt_id (revoke_where q t rows) = map rt_id rows"
  "map rt_hash (revoke_where q t rows) = map rt_hash rows"
  "map rt_user (revoke_where q t rows) = map rt_user rows"
  "map rt_family (revoke_where q t rows) = map rt_family rows"
  by (simp_all add: revoke_where_def map_update_where)

lemma ball_users_cong:
  "map g xs = map g ys \<Longrightarrow> (\<forall>r \<in> set xs. g r \<in> U) \<longleftrightarrow> (\<forall>r \<in> set ys. g r \<in> U)"
  by (metis (no_types, lifting) imageE image_eqI list.set_map)

lemma length_revoke_where [simp]: "length (revoke_where q t rows) = length rows"
  by (simp add: revoke_where_def)

lemma revoke_where_ok: "db_ok d \<Longrightarrow> db_ok (d\<lparr>tb_refresh_token := revoke_where q t (tb_refresh_token d)\<rparr>)"
  by (simp add: db_ok_def ball_users_cong [OF revoke_where_keys(3)])

text \<open>After the revocation no selected row is live, and rows outside the selection are as before.\<close>

lemma revoke_whereE:
  assumes "r \<in> set (revoke_where q t rows)"
  obtains r0 where "r0 \<in> set rows"
    and "r = (if q r0 \<and> rt_revoked r0 = None then r0\<lparr>rt_revoked := Some t, rt_updated := t\<rparr> else r0)"
  using assms unfolding revoke_where_def by (rule in_update_whereE)

lemma filter_revoke_where:
  "(\<And>r t. p (r\<lparr>rt_revoked := Some t, rt_updated := t\<rparr>) = p r) \<Longrightarrow> (\<And>r. p r \<Longrightarrow> \<not> q r) \<Longrightarrow>
    filter p (revoke_where q t rows) = filter p rows"
  unfolding revoke_where_def by (rule filter_update_where) auto

text \<open>Updates of a user row that keep its id, address and deletion mark keep the invariant.\<close>

lemma update_user_ok:
  assumes "db_ok d"
    and "\<And>u. u_id (f u) = u_id u" "\<And>u. u_email (f u) = u_email u" "\<And>u. u_deleted (f u) = u_deleted u"
  shows "db_ok (d\<lparr>tb_user := update_where p f (tb_user d)\<rparr>)"
proof -
  have k: "map u_id (update_where p f us) = map u_id us" for us
    by (rule map_update_where) (simp add: assms)
  have "live_emails (update_where p f us) = live_emails us" for us
    by (induction us) (auto simp: live_emails_Cons assms split: option.splits)
  then show ?thesis using assms(1) k by (simp add: db_ok_def del: set_map)
qed

lemma update_user_token_ok:
  assumes "db_ok d"
    and "\<And>r. ut_id (f r) = ut_id r" "\<And>r. ut_hash (f r) = ut_hash r" "\<And>r. ut_user (f r) = ut_user r"
  shows "db_ok (d\<lparr>tb_user_token := update_where p f (tb_user_token d)\<rparr>)"
proof -
  have k: "map ut_id (update_where p f (tb_user_token d)) = map ut_id (tb_user_token d)"
    "map ut_hash (update_where p f (tb_user_token d)) = map ut_hash (tb_user_token d)"
    "map ut_user (update_where p f (tb_user_token d)) = map ut_user (tb_user_token d)"
    by (rule map_update_where, simp add: assms)+
  show ?thesis using assms(1) k(1,2) by (simp add: db_ok_def ball_users_cong [OF k(3)] del: set_map)
qed

end
