(* ===== verification/World.thy ===== *)
theory World
  imports Database
begin

text \<open>
  Everything outside the process, as the state the handlers run in: the committed database, the
  open transaction of the connection in use, the mail queue, whether the process holds a broker
  channel, the mail the SMTP server accepted, the clock, and oracles indexed by a
  step counter that every interaction advances. The oracles are arbitrary functions, so a
  theorem over all worlds holds for every schedule of failures, every passage of time and every
  value of the entropy source. An interaction can succeed (\<open>Done\<close>), fail without effect
  (\<open>Failed\<close>), or take effect while its acknowledgement is lost (\<open>LostAck\<close>): the caller then
  sees an error although the server did the work.

  Transactions follow the server: \<open>Begin\<close> takes the committed state, statements act on the
  transaction's copy with the transaction's \<open>now()\<close>, a failed statement aborts it, \<open>Commit\<close>
  publishes the copy, \<open>Rollback\<close> drops it. One request runs at a time; the row locks
  (\<open>FOR UPDATE\<close>) that serialise concurrent requests are not part of this model.
\<close>

datatype outcome = Done | Failed string | LostAck string

record tx =
  tx_db :: db
  tx_now :: int

record world =
  w_db :: db
  w_tx :: "tx option"
  w_mq :: "string list"
  w_channel :: bool
  w_sent :: "(string \<times> string \<times> string) list"
  w_clock :: int
  w_step :: nat
  w_fault :: "nat \<Rightarrow> outcome"
  w_tick :: "nat \<Rightarrow> nat"
  w_entropy :: "nat \<Rightarrow> nat \<Rightarrow> char"
  w_uuid :: "nat \<Rightarrow> string"

type_synonym 'a eff = "(world, 'a) state"
type_synonym 'a io = "(world, gerror + 'a) state"

section \<open>Primitives\<close>

definition stmt_now :: "world \<Rightarrow> int" where
  "stmt_now w = w_clock w + int (w_tick w (w_step w))"

definition tickd :: "world \<Rightarrow> world" where
  "tickd w = w\<lparr>w_clock := stmt_now w, w_step := Suc (w_step w)\<rparr>"

definition fresh_uuid :: "world \<Rightarrow> string" where
  "fresh_uuid w = w_uuid w (w_step w)"

definition fault_now :: "world \<Rightarrow> outcome" where
  "fault_now w = w_fault w (w_step w)"

fun lost :: "outcome \<Rightarrow> gerror \<Rightarrow> gerror" where
  "lost Done e = e"
| "lost (Failed m) e = ExtError m"
| "lost (LostAck m) e = ExtError m"

text \<open>\<open>time.Now()\<close>.\<close>

definition read_clock :: "int eff" where
  "read_clock = State (\<lambda>w. (stmt_now w, tickd w))"

text \<open>\<open>rand.Read\<close> of a buffer of \<open>n\<close> bytes.\<close>

definition rand_read :: "nat \<Rightarrow> string io" where
  "rand_read n = State (\<lambda>w. (case fault_now w of
       Done \<Rightarrow> Inr (map (w_entropy w (w_step w)) [0..<n])
     | Failed m \<Rightarrow> Inl (ExtError m)
     | LostAck m \<Rightarrow> Inl (ExtError m), tickd w))"

text \<open>One statement on the pool, committed by itself.\<close>

definition pool_exec :: "'a stmt \<Rightarrow> 'a io" where
  "pool_exec f = State (\<lambda>w. case f (stmt_now w) (fresh_uuid w) (w_db w) of
       Inl e \<Rightarrow> (Inl (lost (fault_now w) e), tickd w)
     | Inr (x, d) \<Rightarrow> (case fault_now w of
           Done \<Rightarrow> (Inr x, (tickd w)\<lparr>w_db := d\<rparr>)
         | Failed m \<Rightarrow> (Inl (ExtError m), tickd w)
         | LostAck m \<Rightarrow> (Inl (ExtError m), (tickd w)\<lparr>w_db := d\<rparr>)))"

text \<open>\<open>Pool.Begin\<close>, and the statements, commit and rollback of the transaction it opens.\<close>

definition pool_begin :: "unit io" where
  "pool_begin = State (\<lambda>w. case fault_now w of
       Done \<Rightarrow> (Inr (), (tickd w)\<lparr>w_tx := Some \<lparr>tx_db = w_db w, tx_now = stmt_now w\<rparr>\<rparr>)
     | Failed m \<Rightarrow> (Inl (ExtError m), tickd w)
     | LostAck m \<Rightarrow> (Inl (ExtError m), tickd w))"

definition tx_closed :: gerror where
  "tx_closed = ExtError ''tx is closed''"

definition tx_exec :: "'a stmt \<Rightarrow> 'a io" where
  "tx_exec f = State (\<lambda>w. case w_tx w of
       None \<Rightarrow> (Inl tx_closed, tickd w)
     | Some t \<Rightarrow> (case fault_now w of
           Done \<Rightarrow> (case f (tx_now t) (fresh_uuid w) (tx_db t) of
               Inl e \<Rightarrow> (Inl e, (tickd w)\<lparr>w_tx := None\<rparr>)
             | Inr (x, d) \<Rightarrow> (Inr x, (tickd w)\<lparr>w_tx := Some (t\<lparr>tx_db := d\<rparr>)\<rparr>))
         | Failed m \<Rightarrow> (Inl (ExtError m), (tickd w)\<lparr>w_tx := None\<rparr>)
         | LostAck m \<Rightarrow> (Inl (ExtError m), (tickd w)\<lparr>w_tx := None\<rparr>)))"

definition tx_commit :: "unit io" where
  "tx_commit = State (\<lambda>w. case w_tx w of
       None \<Rightarrow> (Inl tx_closed, tickd w)
     | Some t \<Rightarrow> (case fault_now w of
           Done \<Rightarrow> (Inr (), (tickd w)\<lparr>w_db := tx_db t, w_tx := None\<rparr>)
         | Failed m \<Rightarrow> (Inl (ExtError m), (tickd w)\<lparr>w_tx := None\<rparr>)
         | LostAck m \<Rightarrow> (Inl (ExtError m), (tickd w)\<lparr>w_db := tx_db t, w_tx := None\<rparr>)))"

definition tx_rollback :: "unit eff" where
  "tx_rollback = State (\<lambda>w. ((), (tickd w)\<lparr>w_tx := None\<rparr>))"

text \<open>A statement that cannot fail by itself, and a pure query.\<close>

definition update_stmt :: "(int \<Rightarrow> db \<Rightarrow> db) \<Rightarrow> unit stmt" where
  "update_stmt f = (\<lambda>t u d. Inr ((), f t d))"

definition query_stmt :: "(db \<Rightarrow> 'a) \<Rightarrow> 'a stmt" where
  "query_stmt f = (\<lambda>t u d. Inr (f d, d))"

definition insert_stmt :: "(int \<Rightarrow> string \<Rightarrow> db \<Rightarrow> gerror + db) \<Rightarrow> unit stmt" where
  "insert_stmt f = (\<lambda>t u d. map_sum id (Pair ()) (f t u d))"

section \<open>Reading worlds after a step\<close>

lemma tickd_simps [simp]:
  "w_db (tickd w) = w_db w" "w_tx (tickd w) = w_tx w" "w_mq (tickd w) = w_mq w"
  "w_clock (tickd w) = stmt_now w" "w_step (tickd w) = Suc (w_step w)"
  "w_fault (tickd w) = w_fault w" "w_tick (tickd w) = w_tick w"
  "w_entropy (tickd w) = w_entropy w" "w_uuid (tickd w) = w_uuid w"
  "w_channel (tickd w) = w_channel w" "w_sent (tickd w) = w_sent w"
  by (simp_all add: tickd_def)

lemma tickd_updates [simp]:
  "tickd (w\<lparr>w_db := d\<rparr>) = (tickd w)\<lparr>w_db := d\<rparr>"
  "tickd (w\<lparr>w_tx := t\<rparr>) = (tickd w)\<lparr>w_tx := t\<rparr>"
  "tickd (w\<lparr>w_mq := q\<rparr>) = (tickd w)\<lparr>w_mq := q\<rparr>"
  "tickd (w\<lparr>w_channel := b\<rparr>) = (tickd w)\<lparr>w_channel := b\<rparr>"
  "tickd (w\<lparr>w_sent := ms\<rparr>) = (tickd w)\<lparr>w_sent := ms\<rparr>"
  by (simp_all add: tickd_def stmt_now_def)

lemma now_updates [simp]:
  "stmt_now (w\<lparr>w_db := d\<rparr>) = stmt_now w" "stmt_now (w\<lparr>w_tx := t\<rparr>) = stmt_now w"
  "stmt_now (w\<lparr>w_mq := q\<rparr>) = stmt_now w"
  "fault_now (w\<lparr>w_db := d\<rparr>) = fault_now w" "fault_now (w\<lparr>w_tx := t\<rparr>) = fault_now w"
  "fault_now (w\<lparr>w_mq := q\<rparr>) = fault_now w"
  "fresh_uuid (w\<lparr>w_db := d\<rparr>) = fresh_uuid w" "fresh_uuid (w\<lparr>w_tx := t\<rparr>) = fresh_uuid w"
  "fresh_uuid (w\<lparr>w_mq := q\<rparr>) = fresh_uuid w"
  "stmt_now (w\<lparr>w_channel := b\<rparr>) = stmt_now w" "fault_now (w\<lparr>w_channel := b\<rparr>) = fault_now w"
  "stmt_now (w\<lparr>w_sent := ms\<rparr>) = stmt_now w" "fault_now (w\<lparr>w_sent := ms\<rparr>) = fault_now w"
  by (simp_all add: stmt_now_def fault_now_def fresh_uuid_def)

lemma stmt_now_ge [simp]: "w_clock w \<le> stmt_now w"
  by (simp add: stmt_now_def)

lemma stmt_now_tickd_ge [simp]: "stmt_now w \<le> stmt_now (tickd w)"
  by (simp add: stmt_now_def)

section \<open>Weakest preconditions of the primitives\<close>

lemma wp_read_clock [wp]: "wp read_clock Q w \<longleftrightarrow> Q (stmt_now w) (tickd w)"
  by (simp add: read_clock_def wp_State)

lemma wp_rand_read [wp]: "wp (rand_read n) Q w \<longleftrightarrow> (case fault_now w of
    Done \<Rightarrow> Q (Inr (map (w_entropy w (w_step w)) [0..<n])) (tickd w)
  | Failed m \<Rightarrow> Q (Inl (ExtError m)) (tickd w)
  | LostAck m \<Rightarrow> Q (Inl (ExtError m)) (tickd w))"
  by (simp add: rand_read_def wp_State split: outcome.splits)

lemma wp_pool_exec [wp]: "wp (pool_exec f) Q w \<longleftrightarrow>
   (case f (stmt_now w) (fresh_uuid w) (w_db w) of
      Inl e \<Rightarrow> Q (Inl (lost (fault_now w) e)) (tickd w)
    | Inr (x, d) \<Rightarrow> (case fault_now w of
          Done \<Rightarrow> Q (Inr x) ((tickd w)\<lparr>w_db := d\<rparr>)
        | Failed m \<Rightarrow> Q (Inl (ExtError m)) (tickd w)
        | LostAck m \<Rightarrow> Q (Inl (ExtError m)) ((tickd w)\<lparr>w_db := d\<rparr>)))"
  by (simp add: pool_exec_def wp_State split: outcome.splits sum.splits)

lemma wp_pool_begin [wp]: "wp pool_begin Q w \<longleftrightarrow> (case fault_now w of
    Done \<Rightarrow> Q (Inr ()) ((tickd w)\<lparr>w_tx := Some \<lparr>tx_db = w_db w, tx_now = stmt_now w\<rparr>\<rparr>)
  | Failed m \<Rightarrow> Q (Inl (ExtError m)) (tickd w)
  | LostAck m \<Rightarrow> Q (Inl (ExtError m)) (tickd w))"
  by (simp add: pool_begin_def wp_State split: outcome.splits)

lemma wp_tx_exec [wp]: "wp (tx_exec f) Q w \<longleftrightarrow> (case w_tx w of
    None \<Rightarrow> Q (Inl tx_closed) (tickd w)
  | Some t \<Rightarrow> (case fault_now w of
        Done \<Rightarrow> (case f (tx_now t) (fresh_uuid w) (tx_db t) of
            Inl e \<Rightarrow> Q (Inl e) ((tickd w)\<lparr>w_tx := None\<rparr>)
          | Inr (x, d) \<Rightarrow> Q (Inr x) ((tickd w)\<lparr>w_tx := Some (t\<lparr>tx_db := d\<rparr>)\<rparr>))
      | Failed m \<Rightarrow> Q (Inl (ExtError m)) ((tickd w)\<lparr>w_tx := None\<rparr>)
      | LostAck m \<Rightarrow> Q (Inl (ExtError m)) ((tickd w)\<lparr>w_tx := None\<rparr>)))"
  by (simp add: tx_exec_def wp_State split: outcome.splits sum.splits option.splits)

lemma wp_tx_commit [wp]: "wp tx_commit Q w \<longleftrightarrow> (case w_tx w of
    None \<Rightarrow> Q (Inl tx_closed) (tickd w)
  | Some t \<Rightarrow> (case fault_now w of
        Done \<Rightarrow> Q (Inr ()) ((tickd w)\<lparr>w_db := tx_db t, w_tx := None\<rparr>)
      | Failed m \<Rightarrow> Q (Inl (ExtError m)) ((tickd w)\<lparr>w_tx := None\<rparr>)
      | LostAck m \<Rightarrow> Q (Inl (ExtError m)) ((tickd w)\<lparr>w_db := tx_db t, w_tx := None\<rparr>)))"
  by (simp add: tx_commit_def wp_State split: outcome.splits option.splits)

lemma wp_tx_rollback [wp]: "wp tx_rollback Q w \<longleftrightarrow> Q () ((tickd w)\<lparr>w_tx := None\<rparr>)"
  by (simp add: tx_rollback_def wp_State)

lemma stmt_simps [simp]:
  "update_stmt f t u d = Inr ((), f t d)"
  "query_stmt g t u d = Inr (g d, d)"
  by (simp_all add: update_stmt_def query_stmt_def)

lemma insert_stmt_case [simp]:
  "insert_stmt f t u d = (case f t u d of Inl e \<Rightarrow> Inl e | Inr d' \<Rightarrow> Inr ((), d'))"
  by (simp add: insert_stmt_def split: sum.splits)

section \<open>Reliable worlds\<close>

text \<open>A world in which nothing outside fails.\<close>

definition reliable :: "world \<Rightarrow> bool" where
  "reliable w \<longleftrightarrow> (\<forall>n. w_fault w n = Done)"

lemma reliable_fault [simp]: "reliable w \<Longrightarrow> fault_now w = Done"
  by (simp add: reliable_def fault_now_def)

lemma reliable_step [simp]:
  "reliable (tickd w) = reliable w" "reliable (w\<lparr>w_db := d\<rparr>) = reliable w"
  "reliable (w\<lparr>w_tx := t\<rparr>) = reliable w" "reliable (w\<lparr>w_mq := q\<rparr>) = reliable w"
  "reliable (w\<lparr>w_channel := b\<rparr>) = reliable w" "reliable (w\<lparr>w_sent := ms\<rparr>) = reliable w"
  by (simp_all add: reliable_def)

section \<open>Rules that forget which oracle decided\<close>

text \<open>
  For safety the caller only needs that a step may fail or succeed. These introduction rules
  replace the oracle's value by a case for each outcome, with the world after the step known by
  its components; \<open>wp_steps\<close> collects them, and every component adds those of its statements.
\<close>

named_theorems wp_steps "introduction rules for the steps of effectful code"

definition same_oracles :: "world \<Rightarrow> world \<Rightarrow> bool" where
  "same_oracles w w' \<longleftrightarrow> w_fault w' = w_fault w \<and> w_tick w' = w_tick w \<and> w_entropy w' = w_entropy w
     \<and> w_uuid w' = w_uuid w \<and> w_clock w \<le> w_clock w'
     \<and> ((\<forall>n. w_tick w n = 0) \<longrightarrow> w_clock w' = w_clock w)"

lemma same_oracles_refl [simp]: "same_oracles w w"
  by (simp add: same_oracles_def)

lemma same_oracles_trans [trans]: "same_oracles w w' \<Longrightarrow> same_oracles w' w'' \<Longrightarrow> same_oracles w w''"
  by (auto simp: same_oracles_def)

lemma same_oracles_step [simp]:
  "same_oracles w (w'\<lparr>w_db := d\<rparr>) = same_oracles w w'"
  "same_oracles w (w'\<lparr>w_tx := t\<rparr>) = same_oracles w w'"
  "same_oracles w (w'\<lparr>w_mq := q\<rparr>) = same_oracles w w'"
  "same_oracles w (w'\<lparr>w_channel := b\<rparr>) = same_oracles w w'"
  "same_oracles w (w'\<lparr>w_sent := ms\<rparr>) = same_oracles w w'"
  by (simp_all add: same_oracles_def)

lemma same_oracles_tickd [intro]: "same_oracles w w' \<Longrightarrow> same_oracles w (tickd w')"
  using stmt_now_ge [of w'] by (auto simp: same_oracles_def stmt_now_def simp del: stmt_now_ge)

lemma same_oracles_clock: "same_oracles w w' \<Longrightarrow> w_clock w \<le> w_clock w'"
  by (simp add: same_oracles_def)

text \<open>
  \<open>moves w d t q w'\<close>: since the world \<open>w\<close> in which the operation started, the committed
  database has become \<open>d\<close>, the open transaction \<open>t\<close> and the queue \<open>q\<close>. The rules are elimination
  rules on this fact, so that a proof steps through the code with \<open>erule wp_steps\<close>.
\<close>

definition moves :: "world \<Rightarrow> db \<Rightarrow> tx option \<Rightarrow> string list \<Rightarrow> world \<Rightarrow> bool" where
  "moves w d t q w' \<longleftrightarrow> w_db w' = d \<and> w_tx w' = t \<and> w_mq w' = q \<and> same_oracles w w'"

lemma movesD:
  assumes "moves w d t q w'"
  shows "w_db w' = d" "w_tx w' = t" "w_mq w' = q" "same_oracles w w'" "w_clock w \<le> w_clock w'"
  using assms by (simp_all add: moves_def same_oracles_def)

lemma moves_refl: "moves w (w_db w) (w_tx w) (w_mq w) w"
  by (simp add: moves_def)

lemma moves_tickd: "moves w d t q w' \<Longrightarrow> moves w d t q (tickd w')"
  by (auto simp: moves_def same_oracles_tickd)

lemma moves_updates:
  "moves w d t q w' \<Longrightarrow> moves w d' t q (w'\<lparr>w_db := d'\<rparr>)"
  "moves w d t q w' \<Longrightarrow> moves w d t' q (w'\<lparr>w_tx := t'\<rparr>)"
  "moves w d t q w' \<Longrightarrow> moves w d t q' (w'\<lparr>w_mq := q'\<rparr>)"
  by (auto simp: moves_def)

lemma moves_both: "moves w d t q w' \<Longrightarrow> moves w d' t' q (w'\<lparr>w_db := d', w_tx := t'\<rparr>)"
  by (auto simp: moves_def)

lemma moves_other [simp]:
  "moves w d t q (w'\<lparr>w_channel := b\<rparr>) = moves w d t q w'" "moves w d t q (w'\<lparr>w_sent := ms\<rparr>) = moves w d t q w'"
  by (simp_all add: moves_def)

lemmas moves_db = moves_updates(1) [OF moves_tickd]
lemmas moves_tx = moves_updates(2) [OF moves_tickd]
lemmas moves_mq = moves_updates(3) [OF moves_tickd]
lemmas moves_db_tx = moves_both [OF moves_tickd]

text \<open>To start: name the world the operation begins in.\<close>

lemma wp_start: "(\<And>w'. moves w (w_db w) (w_tx w) (w_mq w) w' \<Longrightarrow> w_clock w \<le> w_clock w' \<Longrightarrow> wp m Q w') \<Longrightarrow> wp m Q w"
  by (simp add: moves_refl)

lemma wp_start_idle:
  assumes "w_tx w = None"
    and "\<And>w'. moves w (w_db w) None (w_mq w) w' \<Longrightarrow> w_clock w \<le> w_clock w' \<Longrightarrow> wp m Q w'"
  shows "wp m Q w"
  using assms(2) [of w] moves_refl [of w] by (simp add: assms(1))

lemma moves_oracles: "moves w0 d t q w \<Longrightarrow> w_uuid w = w_uuid w0 \<and> w_entropy w = w_entropy w0"
  by (simp add: moves_def same_oracles_def)

lemma moves_reliable: "moves w0 d t q w \<Longrightarrow> fault_now w \<noteq> Done \<Longrightarrow> \<not> reliable w0"
  by (auto simp: moves_def same_oracles_def reliable_def fault_now_def)

lemma read_clock_step [wp_steps]:
  assumes "moves w0 d t q w"
    and "\<And>w'. moves w0 d t q w' \<Longrightarrow> w_clock w \<le> w_clock w' \<Longrightarrow> Q (w_clock w') w'"
  shows "wp read_clock Q w"
  using assms(2) [OF moves_tickd [OF assms(1)]] by (simp add: wp)

lemma rand_read_step [wp_steps]:
  assumes "moves w0 d t q w"
    and "\<And>e w'. \<not> reliable w0 \<Longrightarrow> moves w0 d t q w' \<Longrightarrow> w_clock w \<le> w_clock w' \<Longrightarrow> Q (Inl e) w'"
    and "\<And>k w'. moves w0 d t q w' \<Longrightarrow> w_clock w \<le> w_clock w' \<Longrightarrow>
           Q (Inr (map (w_entropy w0 k) [0..<n])) w'"
  shows "wp (rand_read n) Q w"
  using assms(2) [OF moves_reliable [OF assms(1)] moves_tickd [OF assms(1)]]
    assms(3) [OF moves_tickd [OF assms(1)]] moves_oracles [OF assms(1)]
  by (auto simp: wp split: outcome.splits)

lemma pool_exec_step [wp_steps]:
  assumes "moves w0 d t q w"
    and "\<And>m w'. \<not> reliable w0 \<Longrightarrow> moves w0 d t q w' \<Longrightarrow> w_clock w \<le> w_clock w' \<Longrightarrow> Q (Inl (ExtError m)) w'"
    and "\<And>k e w'. f (w_clock w') (w_uuid w0 k) d = Inl e \<Longrightarrow> moves w0 d t q w' \<Longrightarrow>
           w_clock w \<le> w_clock w' \<Longrightarrow> Q (Inl e) w'"
    and "\<And>k x d' w'. f (w_clock w') (w_uuid w0 k) d = Inr (x, d') \<Longrightarrow> moves w0 d' t q w' \<Longrightarrow>
           w_clock w \<le> w_clock w' \<Longrightarrow> Q (Inr x) w'"
    and "\<And>k x d' m w'. \<not> reliable w0 \<Longrightarrow> f (w_clock w') (w_uuid w0 k) d = Inr (x, d') \<Longrightarrow>
           moves w0 d' t q w' \<Longrightarrow> w_clock w \<le> w_clock w' \<Longrightarrow> Q (Inl (ExtError m)) w'"
  shows "wp (pool_exec f) Q w"
proof -
  have d: "w_db w = d" "w_uuid w = w_uuid w0"
    using movesD(1) [OF assms(1)] moves_oracles [OF assms(1)] by auto
  note m = moves_db [OF assms(1)] and r = moves_reliable [OF assms(1)]
  show ?thesis
    using assms(2) [OF r moves_tickd [OF assms(1)]] assms(3) [OF _ moves_tickd [OF assms(1)]]
      assms(4) [where w' = "(tickd w)\<lparr>w_db := d'\<rparr>" for d', OF _ m]
      assms(5) [where w' = "(tickd w)\<lparr>w_db := d'\<rparr>" for d', OF r _ m]
    by (cases "fault_now w") (auto simp: wp d fresh_uuid_def split: sum.splits)
qed

lemma pool_begin_step [wp_steps]:
  assumes "moves w0 d t q w"
    and "\<And>m w'. \<not> reliable w0 \<Longrightarrow> moves w0 d t q w' \<Longrightarrow> w_clock w \<le> w_clock w' \<Longrightarrow> Q (Inl (ExtError m)) w'"
    and "\<And>w'. moves w0 d (Some \<lparr>tx_db = d, tx_now = w_clock w'\<rparr>) q w' \<Longrightarrow> w_clock w \<le> w_clock w' \<Longrightarrow> Q (Inr ()) w'"
  shows "wp pool_begin Q w"
  using assms(2) [OF moves_reliable [OF assms(1)] moves_tickd [OF assms(1)]] movesD(1) [OF assms(1)]
    assms(3) [of "(tickd w)\<lparr>w_tx := Some \<lparr>tx_db = d, tx_now = stmt_now w\<rparr>\<rparr>"]
    moves_tx [OF assms(1), of "Some \<lparr>tx_db = d, tx_now = stmt_now w\<rparr>"]
  by (auto simp: wp split: outcome.splits)

lemma tx_exec_step [wp_steps]:
  assumes "moves w0 d (Some \<lparr>tx_db = d1, tx_now = t\<rparr>) q w"
    and "\<And>m w'. \<not> reliable w0 \<Longrightarrow> moves w0 d None q w' \<Longrightarrow> w_clock w \<le> w_clock w' \<Longrightarrow> Q (Inl (ExtError m)) w'"
    and "\<And>k e w'. f t (w_uuid w0 k) d1 = Inl e \<Longrightarrow> moves w0 d None q w' \<Longrightarrow>
           w_clock w \<le> w_clock w' \<Longrightarrow> Q (Inl e) w'"
    and "\<And>k x d2 w'. f t (w_uuid w0 k) d1 = Inr (x, d2) \<Longrightarrow> moves w0 d (Some \<lparr>tx_db = d2, tx_now = t\<rparr>) q w' \<Longrightarrow>
           w_clock w \<le> w_clock w' \<Longrightarrow> Q (Inr x) w'"
  shows "wp (tx_exec f) Q w"
  using assms(2) [OF moves_reliable [OF assms(1)] moves_tx [OF assms(1)]] movesD(2) [OF assms(1)]
    assms(3,4) [OF _ moves_tx [OF assms(1)]] moves_oracles [OF assms(1)]
  by (auto simp: wp fresh_uuid_def split: outcome.splits sum.splits)

lemma tx_commit_step [wp_steps]:
  assumes "moves w0 d (Some \<lparr>tx_db = d1, tx_now = t\<rparr>) q w"
    and "\<And>m w'. \<not> reliable w0 \<Longrightarrow> moves w0 d None q w' \<Longrightarrow> w_clock w \<le> w_clock w' \<Longrightarrow> Q (Inl (ExtError m)) w'"
    and "\<And>w'. moves w0 d1 None q w' \<Longrightarrow> w_clock w \<le> w_clock w' \<Longrightarrow> Q (Inr ()) w'"
    and "\<And>m w'. \<not> reliable w0 \<Longrightarrow> moves w0 d1 None q w' \<Longrightarrow> w_clock w \<le> w_clock w' \<Longrightarrow> Q (Inl (ExtError m)) w'"
  shows "wp tx_commit Q w"
  using assms(2) [OF moves_reliable [OF assms(1)] moves_tx [OF assms(1)]] movesD(2) [OF assms(1)]
    assms(3) [OF moves_db_tx [OF assms(1)]] assms(4) [OF moves_reliable [OF assms(1)] moves_db_tx [OF assms(1)]]
  by (auto simp: wp split: outcome.splits)

lemma tx_rollback_step [wp_steps]:
  assumes "moves w0 d t q w" and "\<And>w'. moves w0 d None q w' \<Longrightarrow> w_clock w \<le> w_clock w' \<Longrightarrow> Q () w'"
  shows "wp tx_rollback Q w"
  using assms(2) [OF moves_tx [OF assms(1)]] by (simp add: wp)

text \<open>The equations of composite code alone, which leave the primitives to \<open>wp_steps\<close>.\<close>

lemmas wp_code = wp_return wp_bind wp_if wp_case_sum wp_case_option wp_case_prod
  wp_attempt wp_check wp_tcheck wp_deferred

section \<open>A concrete world\<close>

text \<open>A reliable world over a given database: the clock stands still, ids are numbered.\<close>

definition calm :: "db \<Rightarrow> world" where
  "calm d = \<lparr>w_db = d, w_tx = None, w_mq = [], w_channel = False, w_sent = [], w_clock = 0, w_step = 0, w_fault = \<lambda>n. Done,
     w_tick = \<lambda>n. 0, w_entropy = \<lambda>n i. CHR 0x07, w_uuid = \<lambda>n. show_nat n\<rparr>"

lemma calm_simps [simp]:
  "w_db (calm d) = d" "w_tx (calm d) = None" "w_mq (calm d) = []" "w_clock (calm d) = 0"
  "w_step (calm d) = 0" "w_fault (calm d) = (\<lambda>n. Done)" "w_tick (calm d) = (\<lambda>n. 0)"
  "w_entropy (calm d) = (\<lambda>n i. CHR 0x07)" "w_uuid (calm d) = show_nat" "reliable (calm d)"
  by (simp_all add: calm_def reliable_def fun_eq_iff)

lemma calm_clock: "same_oracles (calm d) w' \<Longrightarrow> w_clock w' = 0"
  by (simp add: same_oracles_def)

text \<open>The case splits of an effectful step, and the evaluation of a run.\<close>

lemmas step_splits = outcome.splits sum.splits option.splits prod.splits if_splits

end
