(* ===== verification/Security.thy ===== *)
theory Security
  imports World
begin

text \<open>
  Package \<open>security\<close>: the request quota (\<open>limit.go\<close>) and password hashing and one-time codes
  (\<open>password.go\<close>). Argon2id is a third-party function (\<open>golang.org/x/crypto/argon2\<close>) and so a
  parameter \<open>idkey\<close> of the definitions that use it; the lemma that a hash verifies against its
  own password assumes of it only that the digest has the requested length.
\<close>

section \<open>limit.go\<close>

text \<open>\<open>time.Second\<close>, \<open>time.Minute\<close> and \<open>time.Hour\<close> in nanoseconds.\<close>

definition second :: int where
  "second = 1000000000"

definition minute :: int where
  "minute = 60 * second"

definition hour :: int where
  "hour = 60 * minute"

text \<open>
  \<open>int(d.Seconds())\<close>: whole seconds, rounded towards zero. The detour of the code through
  \<open>float64\<close> is exact for durations below 2^53 ns (104 days).
\<close>

definition seconds :: "int \<Rightarrow> int" where
  "seconds d = (if 0 \<le> d then d div second else - ((- d) div second))"

record quota =
  cooldown :: int
  window :: int
  limit :: int

definition default_cooldown :: int where
  "default_cooldown = 60 * second"

definition default_window :: int where
  "default_window = 24 * hour"

definition default_limit :: int where
  "default_limit = 5"

definition or_default :: "int \<Rightarrow> int \<Rightarrow> int" where
  "or_default x dflt = (if x \<le> 0 then dflt else x)"

definition quota_check :: "quota \<Rightarrow> int \<Rightarrow> int option \<Rightarrow> int \<Rightarrow> gerror + unit" where
  "quota_check q now last_at in_window =
     (let cooldown = or_default (cooldown q) default_cooldown;
          window = or_default (window q) default_window;
          limit = or_default (limit q) default_limit
      in case last_at of
           Some l \<Rightarrow>
             if now - l < cooldown then Inl (TooManyRequestsError (cooldown - (now - l)))
             else if limit \<le> in_window then Inl (TooManyRequestsError window)
             else Inr ()
         | None \<Rightarrow> if limit \<le> in_window then Inl (TooManyRequestsError window) else Inr ())"

lemma or_default_pos: "0 < dflt \<Longrightarrow> 0 < or_default x dflt"
  by (simp add: or_default_def)

lemma quota_check_cases:
  "quota_check q now last_at n =
     (if (\<exists>l. last_at = Some l \<and> now - l < or_default (cooldown q) default_cooldown)
      then Inl (TooManyRequestsError (or_default (cooldown q) default_cooldown - (now - the last_at)))
      else if or_default (limit q) default_limit \<le> n
      then Inl (TooManyRequestsError (or_default (window q) default_window))
      else Inr ())"
  by (cases last_at) (simp_all add: quota_check_def Let_def)

lemma quota_check_ok: "quota_check q now last_at n = Inr () \<longleftrightarrow>
    (\<forall>l. last_at = Some l \<longrightarrow> or_default (cooldown q) default_cooldown \<le> now - l)
    \<and> n < or_default (limit q) default_limit"
  by (auto simp: quota_check_cases)

section \<open>password.go\<close>

text \<open>\<open>argon2.IDKey(password, salt, time, memory, threads, keyLen)\<close>.\<close>

type_synonym idkey = "string \<Rightarrow> string \<Rightarrow> nat \<Rightarrow> nat \<Rightarrow> nat \<Rightarrow> nat \<Rightarrow> string"

definition argon_time :: nat where "argon_time = 1"
definition argon_memory :: nat where "argon_memory = 65536"
definition argon_threads :: nat where "argon_threads = 4"
definition argon_key_len :: nat where "argon_key_len = 32"
definition argon_salt_len :: nat where "argon_salt_len = 16"
definition argon_version :: nat where "argon_version = 19"

definition err_invalid_hash :: gerror where
  "err_invalid_hash = Err ''security: encoded password hash is not in the expected format''"

definition encode_hash :: "string \<Rightarrow> string \<Rightarrow> string" where
  "encode_hash salt digest =
     ''argon2id$v='' @ show_nat argon_version @ ''$m='' @ show_nat argon_memory @ '',t='' @
     show_nat argon_time @ '',p='' @ show_nat argon_threads @ ''$'' @
     b64_encode b64_std salt @ ''$'' @ b64_encode b64_std digest"

definition hash_password :: "idkey \<Rightarrow> string \<Rightarrow> string io" where
  "hash_password idkey plain =
     check ''security: reading salt: '' (rand_read argon_salt_len) (\<lambda>salt.
       ok (encode_hash salt
             (idkey plain salt argon_time argon_memory argon_threads argon_key_len)))"

text \<open>\<open>fmt.Sscanf(s, "v=%d", &version)\<close> and \<open>fmt.Sscanf(s, "m=%d,t=%d,p=%d", ...)\<close>.\<close>

definition scan_version :: "string \<Rightarrow> int option" where
  "scan_version s = do { s \<leftarrow> scan_lit ''v='' s; (v, _) \<leftarrow> scan_int s; Some v }"

definition scan_params :: "string \<Rightarrow> (nat \<times> nat \<times> nat) option" where
  "scan_params s = do {
     s \<leftarrow> scan_lit ''m='' s; (m, s) \<leftarrow> scan_uint (2 ^ 32) s;
     s \<leftarrow> scan_lit '',t='' s; (t, s) \<leftarrow> scan_uint (2 ^ 32) s;
     s \<leftarrow> scan_lit '',p='' s; (p, s) \<leftarrow> scan_uint (2 ^ 8) s;
     Some (m, t, p) }"

definition verify_password :: "idkey \<Rightarrow> string \<Rightarrow> string \<Rightarrow> gerror + bool" where
  "verify_password idkey encoded plain =
     (case split_on (CHR ''$'') encoded of
        [p0, p1, p2, p3, p4] \<Rightarrow>
          if p0 \<noteq> ''argon2id'' then Inl err_invalid_hash
          else if scan_version p1 \<noteq> Some (int argon_version) then Inl err_invalid_hash
          else (case scan_params p2 of None \<Rightarrow> Inl err_invalid_hash
            | Some (memory, time, threads) \<Rightarrow>
                (case b64_decode b64_std p3 of None \<Rightarrow> Inl err_invalid_hash
                 | Some salt \<Rightarrow>
                     (case b64_decode b64_std p4 of None \<Rightarrow> Inl err_invalid_hash
                      | Some want \<Rightarrow>
                          Inr (idkey plain salt time memory threads (length want) = want))))
      | _ \<Rightarrow> Inl err_invalid_hash)"

text \<open>\<open>GenerateCode\<close>: four random bytes, big-endian, modulo a million, six digits.\<close>

definition code_of_bytes :: "string \<Rightarrow> string" where
  "code_of_bytes buf =
     (let value = push_bit 24 (word_of_nat (byte (buf ! 0)) :: 32 word)
            OR push_bit 16 (word_of_nat (byte (buf ! 1)))
            OR push_bit 8 (word_of_nat (byte (buf ! 2)))
            OR word_of_nat (byte (buf ! 3))
      in show_padded 6 (unat (value mod 1000000)))"

definition generate_code :: "string io" where
  "generate_code = check ''security: reading code entropy: '' (rand_read 4) (\<lambda>buf. ok (code_of_bytes buf))"

definition hash_code :: "string \<Rightarrow> string" where
  "hash_code code = hex_encode (sha256 code)"

text \<open>\<open>subtle.ConstantTimeCompare\<close> is equality.\<close>

definition codes_equal :: "string \<Rightarrow> string \<Rightarrow> bool" where
  "codes_equal a b \<longleftrightarrow> a = b"

lemma length_code_of_bytes: "length (code_of_bytes buf) = 6"
proof -
  have "unat (w mod 1000000) < 10 ^ 6" for w :: "32 word"
  proof -
    have "unat (w mod 1000000) = unat w mod 1000000"
      by (simp add: unat_mod)
    then show ?thesis by simp
  qed
  then show ?thesis by (simp add: code_of_bytes_def Let_def length_show_padded)
qed

lemma code_of_bytes_digits: "list_all is_digit (code_of_bytes buf)"
  by (simp add: code_of_bytes_def Let_def show_padded_digits)

lemma wp_generate_code [wp]: "wp generate_code Q w \<longleftrightarrow> (case fault_now w of
    Done \<Rightarrow> Q (Inr (code_of_bytes (map (w_entropy w (w_step w)) [0..<4]))) (tickd w)
  | Failed m \<Rightarrow> Q (Inl (wrap ''security: reading code entropy: '' (ExtError m))) (tickd w)
  | LostAck m \<Rightarrow> Q (Inl (wrap ''security: reading code entropy: '' (ExtError m))) (tickd w))"
  by (simp add: generate_code_def wp split: outcome.splits)

section \<open>A stored hash verifies its password\<close>

lemma split_on_nosep: "sep \<notin> set a \<Longrightarrow> split_on sep a = [a]"
  by (induction a) auto

lemma split_on_append: "sep \<notin> set a \<Longrightarrow> split_on sep (a @ sep # b) = a # split_on sep b"
  by (induction a) auto

lemma b64_std_nodollar: "CHR ''$'' \<notin> set (b64_encode b64_std s)"
proof -
  have "CHR ''$'' \<notin> set b64_std" by (simp add: b64_std_def)
  then show ?thesis using b64_encode_chars [of b64_std s] by (auto simp: b64_std_def)
qed

lemma digit_simps:
  "digit 0 = CHR ''0''" "digit 1 = CHR ''1''" "digit (Suc 0) = CHR ''1''" "digit 2 = CHR ''2''" "digit 3 = CHR ''3''"
  "digit 4 = CHR ''4''" "digit 5 = CHR ''5''" "digit 6 = CHR ''6''" "digit 7 = CHR ''7''"
  "digit 8 = CHR ''8''" "digit 9 = CHR ''9''"
  by code_simp+

lemma hash_head:
  "''argon2id$v='' @ show_nat argon_version @ ''$m='' @ show_nat argon_memory @ '',t='' @
     show_nat argon_time @ '',p='' @ show_nat argon_threads @ ''$''
   = ''argon2id$v=19$m=65536,t=1,p=4$''"
  by (simp add: argon_version_def argon_memory_def argon_time_def argon_threads_def
        show_nat.simps digit_simps)

lemma encode_hash_split:
  "split_on (CHR ''$'') (encode_hash salt digest) =
     [''argon2id'', ''v=19'', ''m=65536,t=1,p=4'', b64_encode b64_std salt, b64_encode b64_std digest]"
proof -
  have "encode_hash salt digest = ''argon2id$v=19$m=65536,t=1,p=4$'' @
      b64_encode b64_std salt @ CHR ''$'' # b64_encode b64_std digest"
    using hash_head by (simp add: encode_hash_def)
  moreover have "split_on (CHR ''$'') (''argon2id$v=19$m=65536,t=1,p=4$'' @ r) =
      [''argon2id'', ''v=19'', ''m=65536,t=1,p=4''] @ split_on (CHR ''$'') r" for r
    by simp
  ultimately show ?thesis
    by (simp only: split_on_append [OF b64_std_nodollar] split_on_nosep [OF b64_std_nodollar]) simp
qed

lemma scan_head: "scan_version ''v=19'' = Some 19"
  "scan_params ''m=65536,t=1,p=4'' = Some (argon_memory, argon_time, argon_threads)"
  by (simp_all add: scan_version_def scan_params_def scan_lit_def scan_int_def scan_uint_def
        has_prefix_def skip_blanks_def is_digit_def byte_def read_nat_def
        argon_memory_def argon_time_def argon_threads_def)

lemma verify_encoded:
  "verify_password idkey (encode_hash salt digest) plain =
     Inr (idkey plain salt argon_time argon_memory argon_threads (length digest) = digest)"
  by (simp add: verify_password_def encode_hash_split scan_head argon_version_def)

end
