(* ===== verification/Audit_Log.thy ===== *)
theory Audit_Log
  imports Security
begin

text \<open>
  Package \<open>audit\<close>: the append-only security log. \<open>pg_record\<close> is \<open>Postgres.Record\<close>, \<open>best_effort\<close>
  the \<open>record\<close> method every service has around its recorder. The locale \<open>audit_recorder\<close> is the
  interface \<open>audit.Recorder\<close> with the law its callers rely on: recording touches nothing but the
  log, and only by appending.
\<close>

section \<open>Events\<close>

record audit_event =
  ev_name :: string
  ev_user :: string
  ev_actor :: string
  ev_email :: string
  ev_ip :: string
  ev_user_agent :: string
  ev_metadata :: "(string \<times> jval) list"

definition event :: "string \<Rightarrow> audit_event" where
  "event name = \<lparr>ev_name = name, ev_user = [], ev_actor = [], ev_email = [], ev_ip = [],
     ev_user_agent = [], ev_metadata = []\<rparr>"

type_synonym recorder = "audit_event \<Rightarrow> unit io"

definition event_signup_verified :: string where "event_signup_verified = ''auth.signup.verified''"
definition event_signup_code_rejected :: string where "event_signup_code_rejected = ''auth.signup.code_rejected''"
definition event_session_created :: string where "event_session_created = ''auth.session.created''"
definition event_login_succeeded :: string where "event_login_succeeded = ''auth.login.succeeded''"
definition event_login_failed :: string where "event_login_failed = ''auth.login.failed''"
definition event_login_locked :: string where "event_login_locked = ''auth.login.locked''"
definition event_roles_changed :: string where "event_roles_changed = ''rbac.roles.changed''"
definition event_user_updated :: string where "event_user_updated = ''admin.user.updated''"
definition event_password_reset_requested :: string where "event_password_reset_requested = ''auth.password.reset_requested''"
definition event_password_reset :: string where "event_password_reset = ''auth.password.reset''"
definition event_password_reset_failed :: string where "event_password_reset_failed = ''auth.password.reset_failed''"
definition event_password_changed :: string where "event_password_changed = ''auth.password.changed''"
definition event_password_change_failed :: string where "event_password_change_failed = ''auth.password.change_failed''"
definition event_email_change_requested :: string where "event_email_change_requested = ''auth.email.change_requested''"
definition event_email_changed :: string where "event_email_changed = ''auth.email.changed''"
definition event_email_change_failed :: string where "event_email_change_failed = ''auth.email.change_failed''"
definition event_social_login :: string where "event_social_login = ''auth.social.login''"
definition event_social_login_failed :: string where "event_social_login_failed = ''auth.social.login_failed''"
definition event_social_account_created :: string where "event_social_account_created = ''auth.social.account_created''"

section \<open>The recorder\<close>

text \<open>The HMAC key is derived from the server secret, never the secret itself.\<close>

definition audit_subkey :: "string \<Rightarrow> string" where
  "audit_subkey secret = hmac_sha256 secret ''melia/audit/email/v1''"

definition audit_normalize :: "string \<Rightarrow> string" where
  "audit_normalize email = map lower_char
     (filter (\<lambda>c. c \<noteq> CHR '' '' \<and> c \<noteq> CHR 0x09 \<and> c \<noteq> CHR 0x0A) email)"

definition email_hash :: "string \<Rightarrow> string \<Rightarrow> string" where
  "email_hash subkey email = hex_encode (hmac_sha256 subkey (audit_normalize email))"

definition event_row_of :: "string \<Rightarrow> audit_event \<Rightarrow> int \<Rightarrow> string \<Rightarrow> event_row" where
  "event_row_of subkey e t uuid =
     \<lparr>se_id = uuid, se_event = ev_name e, se_user = nullif_empty (ev_user e),
      se_actor = nullif_empty (ev_actor e),
      se_email_hash = (if ev_email e \<noteq> [] then Some (email_hash subkey (ev_email e)) else None),
      se_ip = nullif_empty (ev_ip e), se_country = None, se_city = None, se_user_agent = nullif_empty (ev_user_agent e),
      se_metadata = ev_metadata e, se_created = t\<rparr>"

definition insert_event :: "event_row \<Rightarrow> db \<Rightarrow> gerror + db" where
  "insert_event r d =
     (if (se_id r, se_created r) \<in> set (map (\<lambda>x. (se_id x, se_created x)) (tb_security_event d))
      then Inl (unique_violation ''pk_tb_security_event'')
      else Inr (d\<lparr>tb_security_event := tb_security_event d @ [r]\<rparr>))"

definition pg_record :: "string \<Rightarrow> recorder" where
  "pg_record subkey e =
     check (''audit: inserting event '' @ ev_name e @ '': '')
       (pool_exec (insert_stmt (\<lambda>t uuid d. insert_event (event_row_of subkey e t uuid) d))) ok"

text \<open>
  \<open>record\<close> of every service: nothing without a recorder, and an error of the recorder is only
  logged. The log output itself is not modelled.
\<close>

definition best_effort :: "recorder option \<Rightarrow> audit_event \<Rightarrow> unit eff" where
  "best_effort auditor e = (case auditor of
       None \<Rightarrow> ret ()
     | Some rec \<Rightarrow> do { _ \<leftarrow> rec e; ret () })"

section \<open>The interface audit.Recorder\<close>

text \<open>
  What a step that only writes the log leaves alone: every other table, the open transaction,
  the queue and the oracles; time does not run backwards.
\<close>

definition only_audit :: "world \<Rightarrow> world \<Rightarrow> bool" where
  "only_audit w w' \<longleftrightarrow> same_oracles w w' \<and> w_tx w' = w_tx w \<and> w_mq w' = w_mq w \<and>
     (\<exists>es. w_db w' = (w_db w)\<lparr>tb_security_event := tb_security_event (w_db w) @ es\<rparr>)"

lemma only_audit_refl: "only_audit w w"
proof -
  have "w_db w = (w_db w)\<lparr>tb_security_event := tb_security_event (w_db w) @ []\<rparr>" by simp
  then show ?thesis unfolding only_audit_def by (metis same_oracles_refl)
qed

lemma only_audit_tables:
  assumes "only_audit w w'"
  shows "tb_user (w_db w') = tb_user (w_db w)"
    "tb_refresh_token (w_db w') = tb_refresh_token (w_db w)"
    "tb_user_token (w_db w') = tb_user_token (w_db w)"
    "tb_signup_request (w_db w') = tb_signup_request (w_db w)"
    "tb_user_identity (w_db w') = tb_user_identity (w_db w)"
    "tb_role (w_db w') = tb_role (w_db w)"
    "tb_permission (w_db w') = tb_permission (w_db w)"
    "tb_user_role (w_db w') = tb_user_role (w_db w)"
    "tb_role_permission (w_db w') = tb_role_permission (w_db w)"
    "w_tx w' = w_tx w" "w_mq w' = w_mq w" "same_oracles w w'"
    "reliable w' = reliable w"
    "db_ok (w_db w') = db_ok (w_db w)"
    "take (length (tb_security_event (w_db w))) (tb_security_event (w_db w')) = tb_security_event (w_db w)"
  using assms by (auto simp: only_audit_def reliable_def same_oracles_def db_ok_def)

lemma only_audit_moves:
  assumes "moves w0 d t q w" and "only_audit w w'"
  shows "\<exists>es. moves w0 (d\<lparr>tb_security_event := tb_security_event d @ es\<rparr>) t q w'"
  using assms same_oracles_trans [of w0 w w'] by (auto simp: moves_def only_audit_def)

locale audit_recorder =
  fixes rec :: recorder
  assumes record_frame: "wp (rec e) (\<lambda>_ w'. only_audit w w') w"

text \<open>A service's recorder is optional: the clients rely on this contract of the field.\<close>

locale auditing =
  fixes auditor :: "recorder option"
  assumes auditor_frame: "wp (best_effort auditor e) (\<lambda>_ w'. only_audit w w') w"
begin

text \<open>The rule the callers use: what follows an audit write holds in every world it can leave.\<close>

lemma best_effort_step:
  assumes "moves w0 d t q w"
    and "\<And>es w'. moves w0 (d\<lparr>tb_security_event := tb_security_event d @ es\<rparr>) t q w' \<Longrightarrow>
           w_clock w \<le> w_clock w' \<Longrightarrow> Q () w'"
  shows "wp (best_effort auditor e) Q w"
  by (rule wp_mono [OF auditor_frame])
    (metis (full_types) assms only_audit_moves only_audit_tables(12) same_oracles_clock old.unit.exhaust)

end

sublocale audit_recorder \<subseteq> auditing "Some rec"
  by unfold_locales (simp add: best_effort_def wp record_frame)

interpretation no_audit: auditing None
  by unfold_locales (simp add: best_effort_def wp only_audit_refl)

lemma pg_record_frame: "wp (pg_record subkey e) (\<lambda>_ w'. only_audit w w') w"
proof -
  have "\<exists>es. d = d\<lparr>tb_security_event := tb_security_event d @ es\<rparr>" for d :: db
    by (rule exI [of _ "[]"]) simp
  then show ?thesis
    by (auto simp: pg_record_def wp only_audit_def insert_event_def split: step_splits)
qed

interpretation pg_audit: audit_recorder "pg_record subkey" for subkey
  by unfold_locales (rule pg_record_frame)

text \<open>The stored row never holds the address, only its keyed digest.\<close>

lemma event_row_email: "se_email_hash (event_row_of k e t u)
    = (if ev_email e = [] then None else Some (hex_encode (hmac_sha256 k (audit_normalize (ev_email e)))))"
  by (simp add: event_row_of_def email_hash_def)

end
