(* ===== verification/Session.thy ===== *)
theory Session
  imports Audit_Log
begin

text \<open>
  Package \<open>session\<close>: access tokens and rotating refresh tokens (\<open>session.go\<close>, \<open>refresh.go\<close>) and
  their PostgreSQL stores (\<open>postgres.go\<close>, \<open>refresh_postgres.go\<close>). The JWT library is a
  third-party package and a parameter. The theory proves what one refresh, logout or issuance
  does to the token table under every failure; \<open>Session_Safety\<close> lifts it to runs.
\<close>

section \<open>session.go\<close>

definition err_invalid_token :: gerror where
  "err_invalid_token = Err ''session: token is not valid''"

definition err_missing_sub :: gerror where
  "err_missing_sub = Err ''session: token has no subject''"

record session_config =
  sc_secret :: string
  sc_access_ttl :: int
  sc_refresh_ttl :: int
  sc_issuer :: string

record tokens =
  access_token :: string
  expires_in :: int
  refresh_token :: string
  refresh_expires_in :: int

record refresh_record =
  rr_user :: string
  rr_hash :: string
  rr_family :: string
  rr_device :: string
  rr_user_agent :: string
  rr_ip :: string
  rr_expires :: int

record session_meta =
  m_device :: string
  m_user_agent :: string
  m_ip :: string

record claims =
  cl_sub :: string
  cl_iss :: string
  cl_iat :: int
  cl_exp :: int
  cl_jti :: string

text \<open>
  The operations of \<open>github.com/golang-jwt/jwt/v5\<close> the package calls: \<open>NewNumericDate\<close>,
  \<open>NewWithClaims(SigningMethodHS256, claims).SignedString(secret)\<close> and \<open>ParseWithClaims\<close> with
  a key function of the token's algorithm, the accepted algorithms and the time; a parse error is
  its text.
\<close>

record jwt_lib =
  jwt_date :: "int \<Rightarrow> int"
  jwt_sign :: "string \<Rightarrow> claims \<Rightarrow> gerror + string"
  jwt_parse :: "(string \<Rightarrow> gerror + string) \<Rightarrow> string list \<Rightarrow> int \<Rightarrow> string \<Rightarrow> string + bool \<times> claims"

definition hash_refresh_token :: "string \<Rightarrow> string" where
  "hash_refresh_token token = hex_encode (sha256 token)"

definition new_refresh_token :: "(string \<times> string) io" where
  "new_refresh_token =
     check ''session: reading refresh entropy: '' (rand_read 32) (\<lambda>raw.
       let token = b64_encode b64_url raw in ok (token, hash_refresh_token token))"

definition new_id :: "string io" where
  "new_id = check ''session: reading id entropy: '' (rand_read 16) (\<lambda>raw. ok (hex_encode raw))"

definition sign_access :: "jwt_lib \<Rightarrow> session_config \<Rightarrow> string \<Rightarrow> int \<Rightarrow> string io" where
  "sign_access J cfg uid now =
     attempt new_id (\<lambda>jti.
       case jwt_sign J (sc_secret cfg)
              \<lparr>cl_sub = uid, cl_iss = sc_issuer cfg, cl_iat = jwt_date J now,
               cl_exp = jwt_date J (now + sc_access_ttl cfg), cl_jti = jti\<rparr> of
         Inl e \<Rightarrow> fail (wrap ''session: signing access token: '' e)
       | Inr tok \<Rightarrow> ok tok)"

definition make_tokens :: "session_config \<Rightarrow> string \<Rightarrow> string \<Rightarrow> tokens" where
  "make_tokens cfg access refresh =
     \<lparr>access_token = access, expires_in = seconds (sc_access_ttl cfg),
      refresh_token = refresh, refresh_expires_in = seconds (sc_refresh_ttl cfg)\<rparr>"

text \<open>\<open>Issuer.Issue\<close>, over the interface \<open>RefreshStore\<close> (one operation).\<close>

type_synonym refresh_store = "refresh_record \<Rightarrow> unit io"

definition issue :: "jwt_lib \<Rightarrow> session_config \<Rightarrow> refresh_store \<Rightarrow> string \<Rightarrow> session_meta \<Rightarrow> tokens io" where
  "issue J cfg store uid meta =
     (if uid = [] then fail err_missing_sub
      else attempt new_refresh_token (\<lambda>(token, hash).
        attempt new_id (\<lambda>family. do {
          now \<leftarrow> read_clock;
          check ''session: storing refresh token: ''
            (store \<lparr>rr_user = uid, rr_hash = hash, rr_family = family, rr_device = m_device meta,
                    rr_user_agent = m_user_agent meta, rr_ip = m_ip meta,
                    rr_expires = now + sc_refresh_ttl cfg\<rparr>)
            (\<lambda>_. attempt (sign_access J cfg uid now) (\<lambda>access. ok (make_tokens cfg access token)))
        })))"

text \<open>\<open>Issuer.Parse\<close>: the algorithm is pinned, the time is the issuer's clock.\<close>

definition key_func :: "session_config \<Rightarrow> string \<Rightarrow> gerror + string" where
  "key_func cfg alg =
     (if alg \<noteq> ''HS256'' then Inl (Wrapf [] err_invalid_token ('': unexpected signing method '' @ alg))
      else Inr (sc_secret cfg))"

definition parse_token :: "jwt_lib \<Rightarrow> session_config \<Rightarrow> int \<Rightarrow> string \<Rightarrow> gerror + claims" where
  "parse_token J cfg now raw =
     (case jwt_parse J (key_func cfg) [''HS256''] now raw of
        Inl text \<Rightarrow> Inl (Wrapf [] err_invalid_token ('': '' @ text))
      | Inr (valid, cl) \<Rightarrow>
          if \<not> valid then Inl err_invalid_token
          else if cl_sub cl = [] then Inl err_missing_sub
          else Inr cl)"

section \<open>postgres.go\<close>

definition refresh_row_of :: "refresh_record \<Rightarrow> int \<Rightarrow> string \<Rightarrow> refresh_row" where
  "refresh_row_of r t uuid =
     \<lparr>rt_id = uuid, rt_user = rr_user r, rt_hash = rr_hash r, rt_family = rr_family r,
      rt_device = nullif_empty (rr_device r), rt_user_agent = nullif_empty (rr_user_agent r),
      rt_ip = nullif_empty (rr_ip r), rt_expires = rr_expires r, rt_revoked = None,
      rt_created = t, rt_updated = t\<rparr>"

definition pg_store_refresh_token :: refresh_store where
  "pg_store_refresh_token r =
     check ''inserting tb_refresh_token: ''
       (pool_exec (insert_stmt (\<lambda>t u d. insert_refresh (refresh_row_of r t u) d))) ok"

section \<open>refresh.go\<close>

definition err_invalid_refresh :: gerror where
  "err_invalid_refresh = Err ''session: refresh token is invalid or expired''"

definition err_refresh_reused :: gerror where
  "err_refresh_reused = Err ''session: refresh token was already used''"

definition err_no_token :: gerror where
  "err_no_token = Err ''session: refresh token not found''"

record token_row =
  tr_user :: string
  tr_family :: string
  tr_device :: string
  tr_user_agent :: string
  tr_ip :: string
  tr_expires :: int
  tr_revoked :: "int option"

text \<open>The interfaces \<open>RotateTx\<close> and \<open>RotateStore\<close>: a value of the interface is its operations.\<close>

record rotate_tx =
  rtx_token :: "token_row io"
  rtx_revoke :: "unit io"
  rtx_revoke_family :: "unit io"
  rtx_insert :: "refresh_record \<Rightarrow> unit io"
  rtx_commit :: "unit io"
  rtx_rollback :: "unit eff"

type_synonym rotate_store = "string \<Rightarrow> rotate_tx io"

definition refresh :: "jwt_lib \<Rightarrow> session_config \<Rightarrow> rotate_store \<Rightarrow> string \<Rightarrow> session_meta \<Rightarrow> tokens io" where
  "refresh J cfg begin_rotate presented meta =
     (if presented = [] then fail err_invalid_refresh
      else do {
        b \<leftarrow> begin_rotate (hash_refresh_token presented);
        case b of
          Inl e \<Rightarrow> if errors_is e err_no_token then fail err_invalid_refresh
                    else fail (wrap ''session: opening rotation: '' e)
        | Inr tx \<Rightarrow> deferred (rtx_rollback tx) (do {
            r \<leftarrow> rtx_token tx;
            case r of
              Inl e \<Rightarrow> if errors_is e err_no_token then leave False (Inl err_invalid_refresh)
                        else leave False (Inl (wrap ''session: reading refresh token: '' e))
            | Inr row \<Rightarrow> do {
                now \<leftarrow> read_clock;
                if tr_revoked row \<noteq> None then
                  tcheck ''session: revoking family: '' (rtx_revoke_family tx) (\<lambda>_.
                  tcheck ''session: committing family revocation: '' (rtx_commit tx) (\<lambda>_.
                  leave True (Inl err_refresh_reused)))
                else if \<not> now < tr_expires row then leave False (Inl err_invalid_refresh)
                else
                  tcheck ''session: revoking presented token: '' (rtx_revoke tx) (\<lambda>_. do {
                  n \<leftarrow> new_refresh_token;
                  case n of
                    Inl e \<Rightarrow> leave False (Inl e)
                  | Inr (new_token, new_hash) \<Rightarrow>
                      tcheck ''session: storing rotated token: ''
                        (rtx_insert tx \<lparr>rr_user = tr_user row, rr_hash = new_hash,
                           rr_family = tr_family row, rr_device = tr_device row,
                           rr_user_agent = tr_user_agent row, rr_ip = m_ip meta,
                           rr_expires = now + sc_refresh_ttl cfg\<rparr>) (\<lambda>_.
                      tcheck ''session: committing rotation: '' (rtx_commit tx) (\<lambda>_. do {
                        a \<leftarrow> sign_access J cfg (tr_user row) now;
                        case a of
                          Inl e \<Rightarrow> leave True (Inl e)
                        | Inr access \<Rightarrow> leave True (Inr (make_tokens cfg access new_token))
                      }))
                  })
              }
          })
      })"

definition logout :: "rotate_store \<Rightarrow> string \<Rightarrow> unit io" where
  "logout begin_rotate presented =
     (if presented = [] then ok ()
      else do {
        b \<leftarrow> begin_rotate (hash_refresh_token presented);
        case b of
          Inl e \<Rightarrow> if errors_is e err_no_token then ok ()
                    else fail (wrap ''session: opening logout: '' e)
        | Inr tx \<Rightarrow> deferred (rtx_rollback tx) (do {
            r \<leftarrow> rtx_token tx;
            case r of
              Inl e \<Rightarrow> if errors_is e err_no_token then leave False (Inr ())
                        else leave False (Inl (wrap ''session: reading refresh token: '' e))
            | Inr _ \<Rightarrow>
                tcheck ''session: revoking family: '' (rtx_revoke_family tx) (\<lambda>_.
                tcheck ''session: committing logout: '' (rtx_commit tx) (\<lambda>_.
                leave True (Inr ())))
          })
      })"

section \<open>refresh_postgres.go\<close>

definition token_row_of :: "refresh_row \<Rightarrow> token_row" where
  "token_row_of r =
     \<lparr>tr_user = rt_user r, tr_family = rt_family r, tr_device = coalesce_empty (rt_device r),
      tr_user_agent = coalesce_empty (rt_user_agent r), tr_ip = coalesce_empty (rt_ip r),
      tr_expires = rt_expires r, tr_revoked = rt_revoked r\<rparr>"

definition row_by_hash :: "string \<Rightarrow> refresh_row list \<Rightarrow> refresh_row option" where
  "row_by_hash h rows = select_one (\<lambda>r. rt_hash r = h) rows"

definition pg_rotate_token :: "string \<Rightarrow> token_row io" where
  "pg_rotate_token h = do {
     r \<leftarrow> tx_exec (query_stmt (\<lambda>d. row_by_hash h (tb_refresh_token d)));
     case r of
       Inl e \<Rightarrow> fail (wrap ''selecting refresh token: '' e)
     | Inr None \<Rightarrow> fail err_no_token
     | Inr (Some row) \<Rightarrow> ok (token_row_of row) }"

definition pg_rotate_revoke :: "string \<Rightarrow> unit io" where
  "pg_rotate_revoke h = check ''revoking refresh token: '' (tx_exec (update_stmt (\<lambda>t d.
     d\<lparr>tb_refresh_token := revoke_where (\<lambda>r. rt_hash r = h) t (tb_refresh_token d)\<rparr>))) ok"

text \<open>The rows of the family the hash belongs to; no row when the hash is unknown.\<close>

definition in_family_of :: "string \<Rightarrow> refresh_row list \<Rightarrow> refresh_row \<Rightarrow> bool" where
  "in_family_of h rows r \<longleftrightarrow> (case row_by_hash h rows of
     None \<Rightarrow> False | Some x \<Rightarrow> rt_family r = rt_family x)"

definition pg_rotate_revoke_family :: "string \<Rightarrow> unit io" where
  "pg_rotate_revoke_family h = check ''revoking token family: '' (tx_exec (update_stmt (\<lambda>t d.
     d\<lparr>tb_refresh_token := revoke_where (in_family_of h (tb_refresh_token d)) t (tb_refresh_token d)\<rparr>))) ok"

definition pg_rotate_insert :: "refresh_record \<Rightarrow> unit io" where
  "pg_rotate_insert r = check ''inserting rotated token: ''
     (tx_exec (insert_stmt (\<lambda>t u d. insert_refresh (refresh_row_of r t u) d))) ok"

definition pg_rotate_tx :: "string \<Rightarrow> rotate_tx" where
  "pg_rotate_tx h = \<lparr>rtx_token = pg_rotate_token h, rtx_revoke = pg_rotate_revoke h,
     rtx_revoke_family = pg_rotate_revoke_family h, rtx_insert = pg_rotate_insert,
     rtx_commit = tx_commit, rtx_rollback = tx_rollback\<rparr>"

definition pg_begin_rotate :: rotate_store where
  "pg_begin_rotate h = check ''beginning transaction: '' pool_begin (\<lambda>_. ok (pg_rotate_tx h))"

lemma pg_rotate_tx_simps [simp]:
  "rtx_token (pg_rotate_tx h) = pg_rotate_token h"
  "rtx_revoke (pg_rotate_tx h) = pg_rotate_revoke h"
  "rtx_revoke_family (pg_rotate_tx h) = pg_rotate_revoke_family h"
  "rtx_insert (pg_rotate_tx h) = pg_rotate_insert"
  "rtx_commit (pg_rotate_tx h) = tx_commit"
  "rtx_rollback (pg_rotate_tx h) = tx_rollback"
  by (simp_all add: pg_rotate_tx_def)

lemmas session_pg_defs = pg_begin_rotate_def pg_rotate_token_def pg_rotate_revoke_def
  pg_rotate_revoke_family_def pg_rotate_insert_def pg_store_refresh_token_def

lemmas session_defs = refresh_def logout_def issue_def sign_access_def new_id_def
  new_refresh_token_def session_pg_defs

section \<open>What one operation does to the token table\<close>

text \<open>The steps of the stores, without their oracles.\<close>

lemma err_no_token_is [simp]:
  "errors_is err_no_token err_no_token" "ExtError m \<noteq> err_no_token" "Wrapf p e x \<noteq> err_no_token"
  by (simp_all add: err_no_token_def)

lemma pg_begin_step [wp_steps]:
  assumes "moves w0 d t q w"
    and "\<And>m w'. \<not> reliable w0 \<Longrightarrow> moves w0 d t q w' \<Longrightarrow> w_clock w \<le> w_clock w' \<Longrightarrow>
           Q (Inl (wrap ''beginning transaction: '' (ExtError m))) w'"
    and "\<And>w'. moves w0 d (Some \<lparr>tx_db = d, tx_now = w_clock w'\<rparr>) q w' \<Longrightarrow> w_clock w \<le> w_clock w' \<Longrightarrow>
           Q (Inr (pg_rotate_tx h)) w'"
  shows "wp (pg_begin_rotate h) Q w"
  unfolding pg_begin_rotate_def wp_code by (rule pool_begin_step [OF assms(1)]) (auto intro: assms)

lemma pg_token_step [wp_steps]:
  assumes "moves w0 d (Some \<lparr>tx_db = d1, tx_now = t\<rparr>) q w"
    and "\<And>m w'. \<not> reliable w0 \<Longrightarrow> moves w0 d None q w' \<Longrightarrow> w_clock w \<le> w_clock w' \<Longrightarrow>
           Q (Inl (wrap ''selecting refresh token: '' (ExtError m))) w'"
    and "\<And>w'. row_by_hash h (tb_refresh_token d1) = None \<Longrightarrow>
           moves w0 d (Some \<lparr>tx_db = d1, tx_now = t\<rparr>) q w' \<Longrightarrow> w_clock w \<le> w_clock w' \<Longrightarrow>
           Q (Inl err_no_token) w'"
    and "\<And>row w'. row_by_hash h (tb_refresh_token d1) = Some row \<Longrightarrow>
           moves w0 d (Some \<lparr>tx_db = d1, tx_now = t\<rparr>) q w' \<Longrightarrow> w_clock w \<le> w_clock w' \<Longrightarrow>
           Q (Inr (token_row_of row)) w'"
  shows "wp (pg_rotate_token h) Q w"
  unfolding pg_rotate_token_def wp_code
  by (rule tx_exec_step [OF assms(1)]) (auto intro: assms split: option.splits)

lemma pg_revoke_step [wp_steps]:
  assumes "moves w0 d (Some \<lparr>tx_db = d1, tx_now = t\<rparr>) q w"
    and "\<And>p e w'. \<not> reliable w0 \<Longrightarrow> moves w0 d None q w' \<Longrightarrow> w_clock w \<le> w_clock w' \<Longrightarrow> Q (Inl (wrap p e)) w'"
    and "\<And>w'. moves w0 d (Some \<lparr>tx_db =
             d1\<lparr>tb_refresh_token := revoke_where (\<lambda>r. rt_hash r = h) t (tb_refresh_token d1)\<rparr>, tx_now = t\<rparr>)
             q w' \<Longrightarrow> w_clock w \<le> w_clock w' \<Longrightarrow> Q (Inr ()) w'"
  shows "wp (pg_rotate_revoke h) Q w"
  unfolding pg_rotate_revoke_def wp_code
  by (rule tx_exec_step [OF assms(1)]) (auto intro: assms)

lemma pg_revoke_family_step [wp_steps]:
  assumes "moves w0 d (Some \<lparr>tx_db = d1, tx_now = t\<rparr>) q w"
    and "\<And>p e w'. \<not> reliable w0 \<Longrightarrow> moves w0 d None q w' \<Longrightarrow> w_clock w \<le> w_clock w' \<Longrightarrow> Q (Inl (wrap p e)) w'"
    and "\<And>w'. moves w0 d (Some \<lparr>tx_db = d1\<lparr>tb_refresh_token :=
             revoke_where (in_family_of h (tb_refresh_token d1)) t (tb_refresh_token d1)\<rparr>, tx_now = t\<rparr>)
             q w' \<Longrightarrow> w_clock w \<le> w_clock w' \<Longrightarrow> Q (Inr ()) w'"
  shows "wp (pg_rotate_revoke_family h) Q w"
  unfolding pg_rotate_revoke_family_def wp_code
  by (rule tx_exec_step [OF assms(1)]) (auto intro: assms)

lemma pg_insert_step [wp_steps]:
  assumes "moves w0 d (Some \<lparr>tx_db = d1, tx_now = t\<rparr>) q w"
    and "\<And>p e w'. \<not> reliable w0 \<Longrightarrow> moves w0 d None q w' \<Longrightarrow> w_clock w \<le> w_clock w' \<Longrightarrow> Q (Inl (wrap p e)) w'"
    and "\<And>p e k w'. insert_refresh (refresh_row_of r t (w_uuid w0 k)) d1 = Inl e \<Longrightarrow> moves w0 d None q w' \<Longrightarrow>
           w_clock w \<le> w_clock w' \<Longrightarrow> Q (Inl (wrap p e)) w'"
    and "\<And>k d2 w'. insert_refresh (refresh_row_of r t (w_uuid w0 k)) d1 = Inr d2 \<Longrightarrow>
           moves w0 d (Some \<lparr>tx_db = d2, tx_now = t\<rparr>) q w' \<Longrightarrow> w_clock w \<le> w_clock w' \<Longrightarrow> Q (Inr ()) w'"
  shows "wp (pg_rotate_insert r) Q w"
  unfolding pg_rotate_insert_def wp_code
  by (rule tx_exec_step [OF assms(1)]) (auto intro: assms split: sum.splits)

lemma pg_store_step [wp_steps]:
  assumes "moves w0 d t q w"
    and "\<And>p e w'. \<not> reliable w0 \<Longrightarrow> moves w0 d t q w' \<Longrightarrow> w_clock w \<le> w_clock w' \<Longrightarrow> Q (Inl (wrap p e)) w'"
    and "\<And>p e k w'. insert_refresh (refresh_row_of r (w_clock w') (w_uuid w0 k)) d = Inl e \<Longrightarrow> moves w0 d t q w' \<Longrightarrow>
           w_clock w \<le> w_clock w' \<Longrightarrow> Q (Inl (wrap p e)) w'"
    and "\<And>k d' w'. insert_refresh (refresh_row_of r (w_clock w') (w_uuid w0 k)) d = Inr d' \<Longrightarrow>
           moves w0 d' t q w' \<Longrightarrow> w_clock w \<le> w_clock w' \<Longrightarrow> Q (Inr ()) w'"
    and "\<And>p k d' e w'. \<not> reliable w0 \<Longrightarrow> insert_refresh (refresh_row_of r (w_clock w') (w_uuid w0 k)) d = Inr d' \<Longrightarrow>
           moves w0 d' t q w' \<Longrightarrow> w_clock w \<le> w_clock w' \<Longrightarrow> Q (Inl (wrap p e)) w'"
  shows "wp (pg_store_refresh_token r) Q w"
  unfolding pg_store_refresh_token_def wp_code
  by (rule pool_exec_step [OF assms(1)]) (auto intro: assms split: sum.splits)

lemma new_refresh_step [wp_steps]:
  assumes "moves w0 d t q w"
    and "\<And>p e w'. \<not> reliable w0 \<Longrightarrow> moves w0 d t q w' \<Longrightarrow> w_clock w \<le> w_clock w' \<Longrightarrow> Q (Inl (wrap p e)) w'"
    and "\<And>k tok w'. tok = b64_encode b64_url (map (w_entropy w0 k) [0..<32]) \<Longrightarrow> moves w0 d t q w' \<Longrightarrow>
           w_clock w \<le> w_clock w' \<Longrightarrow> Q (Inr (tok, hash_refresh_token tok)) w'"
  shows "wp new_refresh_token Q w"
  unfolding new_refresh_token_def wp_code Let_def
  by (rule rand_read_step [OF assms(1)]) (auto intro!: assms)

lemma new_id_step [wp_steps]:
  assumes "moves w0 d t q w"
    and "\<And>p e w'. \<not> reliable w0 \<Longrightarrow> moves w0 d t q w' \<Longrightarrow> w_clock w \<le> w_clock w' \<Longrightarrow> Q (Inl (wrap p e)) w'"
    and "\<And>x w'. length x = 32 \<Longrightarrow> moves w0 d t q w' \<Longrightarrow> w_clock w \<le> w_clock w' \<Longrightarrow> Q (Inr x) w'"
  shows "wp new_id Q w"
  unfolding new_id_def wp_code by (rule rand_read_step [OF assms(1)]) (auto intro!: assms)

lemma sign_access_step [wp_steps]:
  assumes "moves w0 d t q w"
    and "\<And>p e w'. \<not> reliable w0 \<Longrightarrow> moves w0 d t q w' \<Longrightarrow> w_clock w \<le> w_clock w' \<Longrightarrow> Q (Inl (wrap p e)) w'"
    and "\<And>p e c w'. jwt_sign J (sc_secret cfg) c = Inl e \<Longrightarrow> moves w0 d t q w' \<Longrightarrow> w_clock w \<le> w_clock w' \<Longrightarrow>
           Q (Inl (wrap p e)) w'"
    and "\<And>jti tok w'. jwt_sign J (sc_secret cfg) \<lparr>cl_sub = uid, cl_iss = sc_issuer cfg,
            cl_iat = jwt_date J now, cl_exp = jwt_date J (now + sc_access_ttl cfg), cl_jti = jti\<rparr> = Inr tok \<Longrightarrow>
           length jti = 32 \<Longrightarrow> moves w0 d t q w' \<Longrightarrow> w_clock w \<le> w_clock w' \<Longrightarrow> Q (Inr tok) w'"
  shows "wp (sign_access J cfg uid now) Q w"
  unfolding sign_access_def wp_code
  by (rule new_id_step [OF assms(1)]) (auto simp: assms(2,4) intro: assms(3) split: sum.splits)

section \<open>The specification of the operations\<close>

text \<open>
  What a caller and the token table can see of one operation: \<open>rows\<close> before, the result, \<open>rows'\<close>
  after, for an operation that runs between the times \<open>t0\<close> and \<open>t1\<close>. A refused refresh changes
  nothing; a reused token revokes its family; a rotation replaces the presented row by one live
  row of the same user and family. An error never hides a partial rotation: it comes from one of
  the same three transitions.
\<close>

inductive refresh_spec :: "int \<Rightarrow> string \<Rightarrow> int \<Rightarrow> int \<Rightarrow> refresh_row list \<Rightarrow> gerror + tokens \<Rightarrow> refresh_row list \<Rightarrow> bool"
  for ttl :: int and h :: string and t0 :: int and t1 :: int and rows :: "refresh_row list"
where
  refused: "e \<noteq> err_refresh_reused \<Longrightarrow> refresh_spec ttl h t0 t1 rows (Inl e) rows"
| reused: "row_by_hash h rows = Some x \<Longrightarrow> rt_revoked x \<noteq> None \<Longrightarrow> t0 \<le> t \<Longrightarrow> t \<le> t1 \<Longrightarrow>
    refresh_spec ttl h t0 t1 rows (Inl e) (revoke_where (in_family_of h rows) t rows)"
| rotated: "row_by_hash h rows = Some x \<Longrightarrow> rt_revoked x = None \<Longrightarrow> now < rt_expires x \<Longrightarrow>
    t0 \<le> t \<Longrightarrow> t \<le> now \<Longrightarrow> now \<le> t1 \<Longrightarrow>
    rt_user n = rt_user x \<Longrightarrow> rt_family n = rt_family x \<Longrightarrow> rt_revoked n = None \<Longrightarrow>
    rt_expires n = now + ttl \<Longrightarrow>
    rt_hash n \<notin> set (map rt_hash rows) \<Longrightarrow> rt_id n \<notin> set (map rt_id rows) \<Longrightarrow>
    r \<noteq> Inl err_refresh_reused \<Longrightarrow>
    (\<And>toks. r = Inr toks \<Longrightarrow> rt_hash n = hash_refresh_token (refresh_token toks)) \<Longrightarrow>
    refresh_spec ttl h t0 t1 rows r (revoke_where (\<lambda>r. rt_hash r = h) t rows @ [n])"

inductive_cases refresh_specE: "refresh_spec ttl h t0 t1 rows r rows'"

text \<open>The rest of the world: no other table, no message, no transaction left open.\<close>

definition only_tokens :: "world \<Rightarrow> refresh_row list \<Rightarrow> world \<Rightarrow> bool" where
  "only_tokens w rows w' \<longleftrightarrow> w_db w' = (w_db w)\<lparr>tb_refresh_token := rows\<rparr> \<and> w_mq w' = w_mq w \<and>
     w_tx w' = w_tx w \<and> same_oracles w w'"

definition refresh_post :: "session_config \<Rightarrow> string \<Rightarrow> world \<Rightarrow> gerror + tokens \<Rightarrow> world \<Rightarrow> bool" where
  "refresh_post cfg h w r w' \<longleftrightarrow> (\<exists>rows'. only_tokens w rows' w' \<and>
     refresh_spec (sc_refresh_ttl cfg) h (w_clock w) (w_clock w') (tb_refresh_token (w_db w)) r rows')"

lemma not_reused [simp]: "wrap p e \<noteq> err_refresh_reused" "err_invalid_refresh \<noteq> err_refresh_reused"
  by (simp_all add: err_refresh_reused_def err_invalid_refresh_def)

lemma refresh_post_refused:
  "e \<noteq> err_refresh_reused \<Longrightarrow> moves w (w_db w) (w_tx w) (w_mq w) w' \<Longrightarrow> refresh_post cfg h w (Inl e) w'"
  unfolding refresh_post_def only_tokens_def
  by (rule exI [of _ "tb_refresh_token (w_db w)"]) (auto intro: refresh_spec.refused dest: movesD)

lemma refresh_post_reused:
  assumes "moves w ((w_db w)\<lparr>tb_refresh_token :=
             revoke_where (in_family_of h (tb_refresh_token (w_db w))) t (tb_refresh_token (w_db w))\<rparr>)
             (w_tx w) (w_mq w) w'"
    and "row_by_hash h (tb_refresh_token (w_db w)) = Some x" and "rt_revoked x = Some y"
    and "w_clock w \<le> t" and "t \<le> w_clock w'"
  shows "refresh_post cfg h w (Inl e) w'"
  unfolding refresh_post_def only_tokens_def
  using movesD [OF assms(1)] refresh_spec.reused [OF assms(2) _ assms(4,5)] assms(3) by auto

lemma refresh_post_rotated:
  assumes "moves w d' None (w_mq w) w'" and idle: "w_tx w = None"
    and "insert_refresh (refresh_row_of \<lparr>rr_user = rt_user x, rr_hash = hash_refresh_token tok,
            rr_family = rt_family x, rr_device = dev, rr_user_agent = ua, rr_ip = ip,
            rr_expires = now + sc_refresh_ttl cfg\<rparr> t u) ((w_db w)\<lparr>tb_refresh_token :=
             revoke_where (\<lambda>r. rt_hash r = h) t (tb_refresh_token (w_db w))\<rparr>) = Inr d'"
    and "row_by_hash h (tb_refresh_token (w_db w)) = Some x" and "rt_revoked x = None"
    and "now < rt_expires x" and "w_clock w \<le> t" and "t \<le> now" and "now \<le> w_clock w'"
    and "r \<noteq> Inl err_refresh_reused" and "\<And>toks. r = Inr toks \<Longrightarrow> refresh_token toks = tok"
  shows "refresh_post cfg h w r w'"
  unfolding refresh_post_def only_tokens_def
  using movesD [OF assms(1)] idle assms(3,10,11)
  by (auto simp: insert_refresh_Inr refresh_row_of_def simp del: set_map
      intro!: refresh_spec.rotated [OF assms(4-9)])

lemma refresh_effect:
  assumes "w_tx w = None"
  shows "wp (refresh J cfg pg_begin_rotate presented meta)
           (refresh_post cfg (hash_refresh_token presented) w) w"
proof (rule wp_start_idle [OF assms])
  note post = refresh_post_refused refresh_post_reused refresh_post_rotated
  fix w' assume m: "moves w (w_db w) None (w_mq w) w'" "w_clock w \<le> w_clock w'"
  show "wp (refresh J cfg pg_begin_rotate presented meta)
           (refresh_post cfg (hash_refresh_token presented) w) w'"
    unfolding refresh_def 
    apply (insert m)
    apply (((erule wp_steps)+)?; clarsimp simp: wp_code post assms token_row_of_def; (intro conjI impI)?)+
    by ((erule wp_steps)?; ((erule refresh_post_rotated, rule assms, assumption, assumption, assumption,
          assumption); clarsimp simp: make_tokens_def))+
qed

text \<open>\<open>Logout\<close> ends the family of the presented token, and an unknown token is no error.\<close>

inductive logout_spec :: "string \<Rightarrow> int \<Rightarrow> int \<Rightarrow> refresh_row list \<Rightarrow> gerror + unit \<Rightarrow> refresh_row list \<Rightarrow> bool"
  for h :: string and t0 :: int and t1 :: int and rows :: "refresh_row list"
where
  failed: "logout_spec h t0 t1 rows (Inl e) rows"
| unknown: "row_by_hash h rows = None \<Longrightarrow> logout_spec h t0 t1 rows (Inr ()) rows"
| ended: "row_by_hash h rows = Some x \<Longrightarrow> t0 \<le> t \<Longrightarrow> t \<le> t1 \<Longrightarrow>
    logout_spec h t0 t1 rows r (revoke_where (in_family_of h rows) t rows)"

definition logout_post :: "string \<Rightarrow> world \<Rightarrow> gerror + unit \<Rightarrow> world \<Rightarrow> bool" where
  "logout_post h w r w' \<longleftrightarrow> (\<exists>rows'. only_tokens w rows' w' \<and>
     logout_spec h (w_clock w) (w_clock w') (tb_refresh_token (w_db w)) r rows')"

lemma logout_post_failed: "moves w (w_db w) (w_tx w) (w_mq w) w' \<Longrightarrow> logout_post h w (Inl e) w'"
  unfolding logout_post_def only_tokens_def
  by (rule exI [of _ "tb_refresh_token (w_db w)"]) (auto intro: logout_spec.failed dest: movesD)

lemma logout_post_unknown:
  "moves w (w_db w) (w_tx w) (w_mq w) w' \<Longrightarrow> row_by_hash h (tb_refresh_token (w_db w)) = None \<Longrightarrow>
    logout_post h w (Inr ()) w'"
  unfolding logout_post_def only_tokens_def
  by (rule exI [of _ "tb_refresh_token (w_db w)"]) (auto intro: logout_spec.unknown dest: movesD)

lemma logout_post_ended:
  assumes "moves w ((w_db w)\<lparr>tb_refresh_token :=
             revoke_where (in_family_of h (tb_refresh_token (w_db w))) t (tb_refresh_token (w_db w))\<rparr>)
             (w_tx w) (w_mq w) w'"
    and "row_by_hash h (tb_refresh_token (w_db w)) = Some x"
    and "w_clock w \<le> t" and "t \<le> w_clock w'"
  shows "logout_post h w r w'"
  unfolding logout_post_def only_tokens_def
  using movesD [OF assms(1)] logout_spec.ended [OF assms(2-4)] by auto

lemma logout_effect:
  assumes "w_tx w = None" and "presented \<noteq> []"
  shows "wp (logout pg_begin_rotate presented) (logout_post (hash_refresh_token presented) w) w"
proof (rule wp_start_idle [OF assms(1)])
  note post = logout_post_failed logout_post_unknown logout_post_ended
  fix w' assume m: "moves w (w_db w) None (w_mq w) w'" "w_clock w \<le> w_clock w'"
  show "wp (logout pg_begin_rotate presented) (logout_post (hash_refresh_token presented) w) w'"
    unfolding logout_def
    apply (insert m assms(2))
    by (((erule wp_steps)+)?; clarsimp simp: wp_code post assms(1); (intro conjI impI)?)+
qed

text \<open>\<open>Issue\<close> adds one row or none, and the row holds the hash of the token it returns.\<close>

definition issued_row :: "int \<Rightarrow> string \<Rightarrow> int \<Rightarrow> int \<Rightarrow> refresh_row list \<Rightarrow> refresh_row \<Rightarrow> bool" where
  "issued_row ttl uid t0 t1 rows n \<longleftrightarrow> rt_user n = uid \<and> rt_revoked n = None \<and> length (rt_family n) = 32 \<and>
     rt_hash n \<notin> set (map rt_hash rows) \<and> rt_id n \<notin> set (map rt_id rows) \<and>
     t0 + ttl \<le> rt_expires n \<and> rt_expires n \<le> t1 + ttl"

definition issue_post :: "int \<Rightarrow> string \<Rightarrow> world \<Rightarrow> gerror + tokens \<Rightarrow> world \<Rightarrow> bool" where
  "issue_post ttl uid w r w' \<longleftrightarrow>
     only_tokens w (tb_refresh_token (w_db w)) w' \<and> \<not> is_ok r
   \<or> (\<exists>n. only_tokens w (tb_refresh_token (w_db w) @ [n]) w'
        \<and> issued_row ttl uid (w_clock w) (w_clock w') (tb_refresh_token (w_db w)) n
        \<and> uid \<noteq> [] \<and> uid \<in> set (map u_id (tb_user (w_db w)))
        \<and> (\<forall>toks. r = Inr toks \<longrightarrow> rt_hash n = hash_refresh_token (refresh_token toks)))"

lemma issue_post_failed: "moves w (w_db w) (w_tx w) (w_mq w) w' \<Longrightarrow> issue_post ttl uid w (Inl e) w'"
  unfolding issue_post_def only_tokens_def by (auto dest: movesD)

lemma issue_post_issued:
  assumes "moves w d' (w_tx w) (w_mq w) w'"
    and "insert_refresh (refresh_row_of \<lparr>rr_user = uid, rr_hash = hash_refresh_token tok,
            rr_family = fam, rr_device = dev, rr_user_agent = ua, rr_ip = ip,
            rr_expires = now + sc_refresh_ttl cfg\<rparr> t u) (w_db w) = Inr d'"
    and "length fam = 32" and "uid \<noteq> []" and "w_clock w \<le> now" and "now \<le> w_clock w'"
    and "\<And>toks. r = Inr toks \<Longrightarrow> refresh_token toks = tok"
  shows "issue_post (sc_refresh_ttl cfg) uid w r w'"
  unfolding issue_post_def only_tokens_def
  using movesD [OF assms(1)] assms(2-7)
  by (auto simp: insert_refresh_Inr refresh_row_of_def issued_row_def simp del: set_map)

lemma issue_effect: "wp (issue J cfg pg_store_refresh_token uid meta) (issue_post (sc_refresh_ttl cfg) uid w) w"
proof (rule wp_start)
  fix w' assume m: "moves w (w_db w) (w_tx w) (w_mq w) w'" "w_clock w \<le> w_clock w'"
  show "wp (issue J cfg pg_store_refresh_token uid meta) (issue_post (sc_refresh_ttl cfg) uid w) w'"
    unfolding issue_def
    apply (insert m)
    apply (((erule wp_steps)+)?; clarsimp simp: wp_code issue_post_failed; (intro conjI impI)?)+
    apply ((erule issue_post_issued, assumption, assumption, assumption); clarsimp simp: make_tokens_def)+
    done
qed

section \<open>The interface the other services issue sessions through\<close>

text \<open>
  \<open>login.Issuer\<close>, \<open>signup.Issuer\<close> and \<open>social.Issuer\<close> are the same one-operation interface. Its
  contract: a failure may leave one live token of that user behind, a success leaves exactly one,
  and nothing else changes.
\<close>

type_synonym issuer = "string \<Rightarrow> session_meta \<Rightarrow> tokens io"

locale session_issuer =
  fixes issuer :: issuer and ttl :: int
  assumes issues: "wp (issuer uid meta) (issue_post ttl uid w) w"
begin

lemma issuer_step:
  assumes "moves w0 d t q w"
    and "\<And>e w'. moves w0 d t q w' \<Longrightarrow> w_clock w \<le> w_clock w' \<Longrightarrow> Q (Inl e) w'"
    and "\<And>n r w'. issued_row ttl uid (w_clock w) (w_clock w') (tb_refresh_token d) n \<Longrightarrow>
           uid \<in> set (map u_id (tb_user d)) \<Longrightarrow>
           moves w0 (d\<lparr>tb_refresh_token := tb_refresh_token d @ [n]\<rparr>) t q w' \<Longrightarrow> w_clock w \<le> w_clock w' \<Longrightarrow> Q r w'"
  shows "wp (issuer uid meta) Q w"
proof (rule wp_mono [OF issues])
  fix r w' assume post: "issue_post ttl uid w r w'"
  have m: "only_tokens w rows w' \<Longrightarrow> moves w0 (d\<lparr>tb_refresh_token := rows\<rparr>) t q w' \<and> w_clock w \<le> w_clock w'" for rows
    using assms(1) same_oracles_trans [of w0 w w']
    by (auto simp: only_tokens_def moves_def same_oracles_clock)
  have d: "w_db w = d" using assms(1) by (rule movesD)
  have m0: "only_tokens w (tb_refresh_token d) w' \<Longrightarrow> moves w0 d t q w' \<and> w_clock w \<le> w_clock w'"
    using m [of "tb_refresh_token d"] by simp
  from post show "Q r w'"
    unfolding issue_post_def d
    by (cases r) (auto dest!: m0 m intro: assms(2,3) simp del: set_map)
qed

end

interpretation pg_issuer: session_issuer "issue J cfg pg_store_refresh_token" "sc_refresh_ttl cfg" for J cfg
  by unfold_locales (rule issue_effect)

end
