(* ===== verification/Vectors.thy ===== *)
theory Vectors
  imports Encodings
begin

text \<open>
  The digest of the model against published and computed test vectors: FIPS 180-4's \<open>''abc''\<close>,
  and the token that 32 bytes of value 7 encode to, which the worked examples of the session
  theories use, and two codes of six digits.
\<close>

lemma sha256_abc: "hex_encode (sha256 ''abc'')
    = ''ba7816bf8f01cfea414140de5dae2223b00361a396177a9cb410ff61f20015ad''"
  by code_simp

lemma b64_url_sevens: "b64_encode b64_url (map (\<lambda>i. CHR 0x07) [0..<32])
    = ''BwcHBwcHBwcHBwcHBwcHBwcHBwcHBwcHBwcHBwcHBwc''"
  by code_simp

lemma sha256_sevens: "hex_encode (sha256 ''BwcHBwcHBwcHBwcHBwcHBwcHBwcHBwcHBwcHBwcHBwc'')
    = ''dc4bf80c77473d130fa0de86ba4018fe98bb214005e6a5891d12ba91446f9e81''"
  by code_simp

text \<open>Two codes, the right and the wrong one of the worked examples.\<close>

lemma sha256_123456: "hex_encode (sha256 ''123456'')
    = ''8d969eef6ecad3c29a3a629280e686cf0c3f5d5a86aff3ca12020c923adc6c92''"
  by code_simp

lemma sha256_000000: "hex_encode (sha256 ''000000'')
    = ''91b4d142823f7d20c5f08df69122de43f35f057a988d9619f6d3138485c9a203''"
  by code_simp

end
