(* ===== verification/Session_Safety.thy ===== *)
theory Session_Safety
  imports Session Vectors
begin

text \<open>
  Runs of the session operations. \<open>evolve\<close> is the abstract behaviour of the token table;
  \<open>session_run\<close> is any sequence of \<open>Issue\<close>, \<open>Refresh\<close> and \<open>Logout\<close> calls, each of which may fail
  or lose its acknowledgement anywhere, interleaved with the revocations other components
  issue. Every such run refines \<open>evolve\<close>, and the safety of the rotation protocol follows from
  the abstract behaviour: one live token per family, dead families stay dead.
\<close>

section \<open>The abstract behaviour of the table\<close>

definition families :: "refresh_row list \<Rightarrow> string set" where
  "families rows = rt_family ` set rows"

definition live_of :: "string \<Rightarrow> refresh_row list \<Rightarrow> refresh_row list" where
  "live_of fam rows = filter (\<lambda>r. rt_family r = fam \<and> rt_revoked r = None) rows"

definition token_inv :: "refresh_row list \<Rightarrow> bool" where
  "token_inv rows \<longleftrightarrow> distinct (map rt_hash rows) \<and> (\<forall>fam. length (live_of fam rows) \<le> 1)"

inductive evolve :: "refresh_row list \<Rightarrow> refresh_row list \<Rightarrow> bool" where
  keep: "evolve rows rows"
| revoke: "evolve rows (revoke_where q t rows)"
| start: "rt_hash n \<notin> set (map rt_hash rows) \<Longrightarrow> rt_family n \<notin> families rows \<Longrightarrow> evolve rows (rows @ [n])"
| rotate: "row_by_hash h rows = Some x \<Longrightarrow> rt_revoked x = None \<Longrightarrow> rt_family n = rt_family x \<Longrightarrow>
    rt_hash n \<notin> set (map rt_hash rows) \<Longrightarrow>
    evolve rows (revoke_where (\<lambda>r. rt_hash r = h) t rows @ [n])"

lemma live_of_append [simp]: "live_of fam (xs @ ys) = live_of fam xs @ live_of fam ys"
  by (simp add: live_of_def)

lemma live_of_single [simp]:
  "live_of fam [n] = (if rt_family n = fam \<and> rt_revoked n = None then [n] else [])"
  by (simp add: live_of_def)

lemma live_of_revoke: "live_of fam (revoke_where q t rows) = filter (\<lambda>r. \<not> q r) (live_of fam rows)"
  unfolding live_of_def revoke_where_def by (induction rows) auto

lemma live_of_fresh: "fam \<notin> families rows \<Longrightarrow> live_of fam rows = []"
  by (auto simp: live_of_def families_def filter_empty_conv)

lemma families_simps [simp]:
  "families (revoke_where q t rows) = families rows" "families (rows @ [n]) = insert (rt_family n) (families rows)"
proof -
  have "set (map rt_family (revoke_where q t rows)) = set (map rt_family rows)"
    by (simp only: revoke_where_keys)
  then show "families (revoke_where q t rows) = families rows" by (simp only: families_def set_map)
qed (simp add: families_def)

lemma row_by_hash_D: "row_by_hash h rows = Some x \<Longrightarrow> x \<in> set rows \<and> rt_hash x = h"
  unfolding row_by_hash_def by (rule select_one_SomeD)

lemma row_by_hash_None: "row_by_hash h rows = None \<longleftrightarrow> h \<notin> set (map rt_hash rows)"
  by (auto simp: row_by_hash_def)

text \<open>Revoking the presented live token leaves its family without a live token.\<close>

lemma live_of_rotate:
  assumes "token_inv rows" and x: "row_by_hash h rows = Some x" "rt_revoked x = None"
  shows "live_of (rt_family x) (revoke_where (\<lambda>r. rt_hash r = h) t rows) = []"
proof -
  have "x \<in> set (live_of (rt_family x) rows)"
    using row_by_hash_D [OF x(1)] x(2) by (simp add: live_of_def)
  moreover have "length (live_of (rt_family x) rows) \<le> 1"
    using assms(1) by (simp add: token_inv_def)
  ultimately have "live_of (rt_family x) rows = [x]"
    by (cases "live_of (rt_family x) rows") auto
  then show ?thesis using row_by_hash_D [OF x(1)] by (simp add: live_of_revoke)
qed

lemma length_filter_le1: "length xs \<le> 1 \<Longrightarrow> length (filter p xs) \<le> 1"
  by (meson length_filter_le order_trans)

lemma evolve_inv: "evolve rows rows' \<Longrightarrow> token_inv rows \<Longrightarrow> token_inv rows'"
proof (induction rule: evolve.induct)
  case (rotate h rows x n t)
  have "length (live_of fam (revoke_where (\<lambda>r. rt_hash r = h) t rows)) \<le> 1" for fam
    using rotate.prems by (simp add: live_of_revoke token_inv_def length_filter_le1 del: One_nat_def)
  then show ?case
    using rotate live_of_rotate [OF rotate.prems rotate.hyps(1,2)]
    by (auto simp: token_inv_def simp del: set_map)
next
  case (revoke rows q t)
  then show ?case by (simp add: token_inv_def live_of_revoke length_filter_le1 del: One_nat_def)
next
  case (start n rows)
  then show ?case by (auto simp: token_inv_def live_of_fresh simp del: set_map)
qed simp

text \<open>A family of the table without a live token never has one again.\<close>

definition dead :: "string \<Rightarrow> refresh_row list \<Rightarrow> bool" where
  "dead fam rows \<longleftrightarrow> fam \<in> families rows \<and> live_of fam rows = []"

lemma evolve_dead: "evolve rows rows' \<Longrightarrow> dead fam rows \<Longrightarrow> dead fam rows'"
proof (induction rule: evolve.induct)
  case (rotate h rows x n t)
  have "rt_family x \<noteq> fam"
    using rotate.prems rotate.hyps(2) row_by_hash_D [OF rotate.hyps(1)]
    by (auto simp: dead_def live_of_def filter_empty_conv)
  then show ?case using rotate by (simp add: dead_def live_of_revoke)
next
  case (start n rows)
  then show ?case by (auto simp: dead_def)
qed (simp_all add: dead_def live_of_revoke)

text \<open>A revoked token stays revoked, and no hash disappears.\<close>

definition spent :: "string \<Rightarrow> refresh_row list \<Rightarrow> bool" where
  "spent h rows \<longleftrightarrow> (\<exists>x. row_by_hash h rows = Some x \<and> rt_revoked x \<noteq> None)"

lemma row_by_hash_revoke:
  "row_by_hash h (revoke_where q t rows) = map_option
     (\<lambda>r. if q r \<and> rt_revoked r = None then r\<lparr>rt_revoked := Some t, rt_updated := t\<rparr> else r) (row_by_hash h rows)"
  unfolding row_by_hash_def revoke_where_def by (rule select_one_update_where) simp

lemma row_by_hash_append: "row_by_hash h (rows @ [n]) = (case row_by_hash h rows of
    None \<Rightarrow> if rt_hash n = h then Some n else None | Some x \<Rightarrow> Some x)"
  unfolding row_by_hash_def select_one_append by (simp cong: option.case_cong)

lemma evolve_spent: "evolve rows rows' \<Longrightarrow> spent h rows \<Longrightarrow> spent h rows'"
proof (induction rule: evolve.induct)
  case (revoke rows q t)
  then show ?case by (cases "row_by_hash h rows") (auto simp: spent_def row_by_hash_revoke)
next
  case (rotate h' rows x n t)
  then show ?case by (cases "row_by_hash h rows") (auto simp: spent_def row_by_hash_revoke row_by_hash_append)
qed (auto simp: spent_def row_by_hash_append)

lemma dead_spent:
  assumes "dead fam rows" and "row_by_hash h rows = Some x" and "rt_family x = fam"
  shows "spent h rows"
proof -
  have "x \<in> set rows" using row_by_hash_D [OF assms(2)] by simp
  then have "rt_revoked x \<noteq> None"
    using assms(1,3) by (auto simp: dead_def live_of_def filter_empty_conv)
  then show ?thesis using assms(2) by (simp add: spent_def)
qed

section \<open>Runs of the operations\<close>

abbreviation token_rows :: "world \<Rightarrow> refresh_row list" where
  "token_rows w \<equiv> tb_refresh_token (w_db w)"

text \<open>
  \<open>Issue\<close> draws the family id from 16 random bytes; that it has not been drawn before is the one
  assumption on the entropy. \<open>outside\<close> is what the other components do to the table.
\<close>

inductive session_step :: "jwt_lib \<Rightarrow> session_config \<Rightarrow> world \<Rightarrow> world \<Rightarrow> bool" for J cfg where
  step_issue: "run_state (issue J cfg pg_store_refresh_token uid meta) w = (r, w') \<Longrightarrow>
    (\<And>n. token_rows w' = token_rows w @ [n] \<Longrightarrow> rt_family n \<notin> families (token_rows w)) \<Longrightarrow>
    session_step J cfg w w'"
| step_refresh: "run_state (refresh J cfg pg_begin_rotate presented meta) w = (r, w') \<Longrightarrow> session_step J cfg w w'"
| step_logout: "run_state (logout pg_begin_rotate presented) w = (r, w') \<Longrightarrow> session_step J cfg w w'"
| step_outside: "w_tx w' = None \<Longrightarrow> token_rows w' = revoke_where q t (token_rows w) \<or> token_rows w' = token_rows w \<Longrightarrow>
    session_step J cfg w w'"

inductive session_run :: "jwt_lib \<Rightarrow> session_config \<Rightarrow> world \<Rightarrow> world \<Rightarrow> bool" for J cfg where
  run_start: "session_run J cfg w w"
| run_step: "session_run J cfg w w' \<Longrightarrow> session_step J cfg w' w'' \<Longrightarrow> session_run J cfg w w''"

lemma refresh_spec_evolve: "refresh_spec ttl h t0 t1 rows r rows' \<Longrightarrow> evolve rows rows'"
  by (induction rule: refresh_spec.induct) (auto intro: evolve.intros)

lemma logout_spec_evolve: "logout_spec h t0 t1 rows r rows' \<Longrightarrow> evolve rows rows'"
  by (induction rule: logout_spec.induct) (auto intro: evolve.intros)

lemma refresh_run:
  assumes "w_tx w = None" and "run_state (refresh J cfg pg_begin_rotate presented meta) w = (r, w')"
  shows "w_tx w' = None" and "refresh_spec (sc_refresh_ttl cfg) (hash_refresh_token presented)
           (w_clock w) (w_clock w') (token_rows w) r (token_rows w')"
  using wpD [OF refresh_effect [OF assms(1)] assms(2)] assms(1)
  by (auto simp: refresh_post_def only_tokens_def)

lemma logout_run:
  assumes "w_tx w = None" and "run_state (logout pg_begin_rotate presented) w = (r, w')"
  shows "w_tx w' = None \<and> evolve (token_rows w) (token_rows w')"
proof (cases "presented = []")
  case True
  then show ?thesis using assms by (simp add: logout_def evolve.keep)
next
  case False
  then show ?thesis using wpD [OF logout_effect [OF assms(1) False] assms(2)] assms(1)
    by (auto simp: logout_post_def only_tokens_def logout_spec_evolve)
qed

lemma issue_run:
  assumes "w_tx w = None" and "run_state (issue J cfg pg_store_refresh_token uid meta) w = (r, w')"
    and "\<And>n. token_rows w' = token_rows w @ [n] \<Longrightarrow> rt_family n \<notin> families (token_rows w)"
  shows "w_tx w' = None \<and> evolve (token_rows w) (token_rows w')"
  using wpD [OF issue_effect assms(2)] assms(1,3)
  by (auto simp: issue_post_def only_tokens_def issued_row_def intro: evolve.intros simp del: set_map)

lemma session_step_evolve:
  assumes "session_step J cfg w w'" and "w_tx w = None"
  shows "w_tx w' = None \<and> evolve (token_rows w) (token_rows w')"
  using assms
proof cases
  case (step_refresh presented meta r)
  show ?thesis
    using refresh_run [OF assms(2) step_refresh] by (auto intro: refresh_spec_evolve)
next
  case (step_logout presented r)
  then show ?thesis using logout_run [OF assms(2)] by blast
next
  case (step_issue uid meta r)
  then show ?thesis using issue_run [OF assms(2)] by blast
qed (auto intro: evolve.intros)

lemma session_run_preserves:
  assumes "session_run J cfg w w'" and "w_tx w = None"
    and "\<And>rows rows'. evolve rows rows' \<Longrightarrow> P rows \<Longrightarrow> P rows'" and "P (token_rows w)"
  shows "w_tx w' = None \<and> P (token_rows w')"
  using assms by (induction rule: session_run.induct) (auto dest: session_step_evolve)

lemma session_run_spent:
  "session_run J cfg w w' \<Longrightarrow> w_tx w = None \<Longrightarrow> spent h (token_rows w) \<Longrightarrow>
    w_tx w' = None \<and> spent h (token_rows w')"
  by (erule session_run_preserves) (auto elim: evolve_spent)

lemma session_run_dead:
  "session_run J cfg w w' \<Longrightarrow> w_tx w = None \<Longrightarrow> dead fam (token_rows w) \<Longrightarrow>
    w_tx w' = None \<and> dead fam (token_rows w')"
  by (erule session_run_preserves) (auto elim: evolve_dead)

text \<open>A refresh that succeeds presented the live row of its token; a spent token never does.\<close>

lemma refresh_ok_live:
  assumes "w_tx w = None" and "run_state (refresh J cfg pg_begin_rotate presented meta) w = (Inr toks, w')"
  shows "\<exists>x. row_by_hash (hash_refresh_token presented) (token_rows w) = Some x \<and> rt_revoked x = None"
    and "spent (hash_refresh_token presented) (token_rows w')"
  using refresh_run(2) [OF assms]
  by (auto elim!: refresh_specE simp: spent_def row_by_hash_append row_by_hash_revoke dest: row_by_hash_D)

lemma dead_revoked_family:
  assumes "row_by_hash h rows = Some x"
  shows "dead (rt_family x) (revoke_where (in_family_of h rows) t rows)"
proof -
  have "rt_family x \<in> families rows"
    using row_by_hash_D [OF assms] by (simp add: families_def)
  moreover have "live_of (rt_family x) (revoke_where (in_family_of h rows) t rows) = []"
    unfolding live_of_revoke by (simp add: in_family_of_def assms live_of_def)
  ultimately show ?thesis by (simp add: dead_def)
qed

lemma refresh_dead_fails:
  assumes "w_tx w = None" and "run_state (refresh J cfg pg_begin_rotate presented meta) w = (r, w')"
    and "spent (hash_refresh_token presented) (token_rows w)"
  shows "\<not> is_ok r"
  using refresh_ok_live(1) [OF assms(1)] assms(2,3) by (cases r) (fastforce simp: spent_def)+

section \<open>Safety of the rotation protocol\<close>

text \<open>In every run of \<open>Issue\<close>, \<open>Refresh\<close> and \<open>Logout\<close>, whatever fails in between, no
  session family ever has two live refresh tokens and no two rows share a hash.\<close>

theorem session_one_live:
  assumes "session_run J cfg w w'" and "w_tx w = None" and "token_inv (token_rows w)"
  shows "token_inv (token_rows w')"
  using session_run_preserves [where P = token_inv, OF assms(1,2) evolve_inv assms(3)] by simp

text \<open>C1: A refresh token works once: after a refresh that succeeded, no later refresh with
  the same token succeeds, in any continuation of the run.\<close>

theorem refresh_single_use:
  assumes "w_tx w = None" and "run_state (refresh J cfg pg_begin_rotate presented meta) w = (Inr toks, w1)"
    and "session_run J cfg w1 w2"
    and "run_state (refresh J cfg pg_begin_rotate presented meta') w2 = (r, w3)"
  shows "\<not> is_ok r"
proof -
  have "w_tx w2 = None \<and> spent (hash_refresh_token presented) (token_rows w2)"
    using assms(3) refresh_run(1) [OF assms(1,2)] refresh_ok_live(2) [OF assms(1,2)]
    by (rule session_run_spent)
  then show ?thesis using refresh_dead_fails [OF _ assms(4)] by blast
qed


text \<open>A logout that reports success on a known token ends the session of that token for
  good: no token of its family is ever rotated again.\<close>

theorem logout_ends_family:
  assumes "w_tx w = None" and "run_state (logout pg_begin_rotate presented) w = (Inr (), w1)" and "presented \<noteq> []"
    and "session_run J cfg w1 w2" and "run_state (refresh J cfg pg_begin_rotate other meta) w2 = (r, w3)"
    and "row_by_hash (hash_refresh_token presented) (token_rows w) = Some x"
    and "row_by_hash (hash_refresh_token other) (token_rows w2) = Some y" and "rt_family y = rt_family x"
  shows "\<not> is_ok r"
proof -
  have "w_tx w1 = None" and "dead (rt_family x) (token_rows w1)"
    using wpD [OF logout_effect [OF assms(1,3)] assms(2)] assms(1,6)
    by (auto simp: logout_post_def only_tokens_def logout_spec.simps dead_revoked_family)
  from session_run_dead [OF assms(4) this] have "w_tx w2 = None" and "dead (rt_family x) (token_rows w2)" by auto
  then show ?thesis
    using dead_spent [OF _ assms(7,8)] refresh_dead_fails [OF _ assms(5)] by blast
qed

section \<open>The outcome when nothing fails\<close>

definition uncollided :: "world \<Rightarrow> bool" where
  "uncollided w \<longleftrightarrow> (\<forall>n. w_uuid w n \<notin> set (map rt_id (token_rows w)) \<and>
     hash_refresh_token (b64_encode b64_url (map (w_entropy w n) [0..<32])) \<notin> set (map rt_hash (token_rows w)))"

definition refresh_answer :: "world \<Rightarrow> string \<Rightarrow> gerror + tokens \<Rightarrow> world \<Rightarrow> bool" where
  "refresh_answer w presented r w' \<longleftrightarrow>
   (case row_by_hash (hash_refresh_token presented) (token_rows w) of
      None \<Rightarrow> r = Inl err_invalid_refresh \<and> w_db w' = w_db w
    | Some x \<Rightarrow>
        if rt_revoked x \<noteq> None then r = Inl err_refresh_reused \<and> dead (rt_family x) (token_rows w')
        else (rt_expires x \<le> w_clock w \<longrightarrow> r = Inl err_invalid_refresh \<and> w_db w' = w_db w)
           \<and> (w_clock w' < rt_expires x \<longrightarrow> is_ok r))"

lemma token_row_of_simps [simp]:
  "tr_user (token_row_of r) = rt_user r" "tr_family (token_row_of r) = rt_family r"
  "tr_expires (token_row_of r) = rt_expires r" "tr_revoked (token_row_of r) = rt_revoked r"
  by (simp_all add: token_row_of_def)

lemma insert_rotated_ok:
  assumes "uncollided w" and "rt_user x \<in> set (map u_id (tb_user (w_db w)))"
  shows "insert_refresh (refresh_row_of \<lparr>rr_user = rt_user x, rr_hash =
             hash_refresh_token (b64_encode b64_url (map (w_entropy w k') [0..<32])),
           rr_family = fam, rr_device = dev, rr_user_agent = ua, rr_ip = ip, rr_expires = e\<rparr> t (w_uuid w k))
           ((w_db w)\<lparr>tb_refresh_token := revoke_where q t (token_rows w)\<rparr>) \<noteq> Inl err"
  using assms by (simp add: insert_refresh_def refresh_row_of_def uncollided_def del: set_map)

lemma refresh_answers:
  assumes "reliable w" and "w_tx w = None" and "presented \<noteq> []" and "uncollided w"
    and "\<And>secret c. \<exists>tok. jwt_sign J secret c = Inr tok"
    and "run_state (refresh J cfg pg_begin_rotate presented meta) w = (r, w')"
    and "\<forall>x \<in> set (token_rows w). rt_user x \<in> set (map u_id (tb_user (w_db w)))"
  shows "refresh_answer w presented r w'"
proof -
  let ?h = "hash_refresh_token presented"
  let ?Q = "refresh_answer w presented"
  have user: "rt_user x \<in> set (map u_id (tb_user (w_db w)))" if "row_by_hash ?h (token_rows w) = Some x" for x
    using assms(7) row_by_hash_D [OF that] by blast
  have sign: "jwt_sign J secret c \<noteq> Inl e" for secret c e
    using assms(5) [of secret c] by auto
  note facts = assms(1,2) dead_revoked_family sign refresh_answer_def insert_rotated_ok [OF assms(4) user]
  have "wp (refresh J cfg pg_begin_rotate presented meta) ?Q w'"
    if m: "moves w (w_db w) None (w_mq w) w'" "w_clock w \<le> w_clock w'" for w'
    unfolding refresh_def
    apply (insert m assms(3))
    by (((erule wp_steps)+)?; (clarsimp simp: wp_code facts simp del: set_map)?;
          (intro conjI impI)?; (frule movesD(1), simp add: facts; fail)?)+
  from wpD [OF wp_start_idle [OF assms(2) this] assms(6)]
  show ?thesis by simp
qed

text \<open>When nothing outside fails, \<open>Refresh\<close> answers by the state of the presented token: an
  unknown one is invalid and changes nothing, a revoked one is reported as reused and its whole
  family is revoked (its expiry does not matter), an expired one is invalid and changes nothing,
  and a live one is exchanged for new tokens.\<close>

theorem refresh_outcome:
  assumes "reliable w" and "w_tx w = None" and "presented \<noteq> []" and "uncollided w"
    and "\<And>secret c. \<exists>tok. jwt_sign J secret c = Inr tok"
    and "run_state (refresh J cfg pg_begin_rotate presented meta) w = (r, w')"
    and "\<forall>x \<in> set (token_rows w). rt_user x \<in> set (map u_id (tb_user (w_db w)))"
  shows "case row_by_hash (hash_refresh_token presented) (token_rows w) of
      None \<Rightarrow> r = Inl err_invalid_refresh \<and> w_db w' = w_db w
    | Some x \<Rightarrow>
        if rt_revoked x \<noteq> None then r = Inl err_refresh_reused \<and> dead (rt_family x) (token_rows w')
        else (rt_expires x \<le> w_clock w \<longrightarrow> r = Inl err_invalid_refresh \<and> w_db w' = w_db w)
           \<and> (w_clock w' < rt_expires x \<longrightarrow> is_ok r)"
  using refresh_answers [OF assms] by (simp add: refresh_answer_def)

section \<open>Issuing and verifying\<close>

text \<open>\<open>Issue\<close> never stores the refresh token it hands out: it stores one row for the user
  with the token's 64-digit digest, live, expiring one refresh TTL after the call, or no row at
  all when it reports a failure that happened before the insert.\<close>

theorem issue_stores_digest:
  assumes "run_state (issue J cfg pg_store_refresh_token uid meta) w = (r, w')"
  shows "(\<not> is_ok r \<and> token_rows w' = token_rows w) \<or>
    (\<exists>n. token_rows w' = token_rows w @ [n] \<and> rt_user n = uid \<and> rt_revoked n = None
       \<and> w_clock w + sc_refresh_ttl cfg \<le> rt_expires n \<and> rt_expires n \<le> w_clock w' + sc_refresh_ttl cfg
       \<and> (\<forall>toks. r = Inr toks \<longrightarrow> rt_hash n = hash_refresh_token (refresh_token toks) \<and> length (rt_hash n) = 64))"
  using wpD [OF issue_effect assms]
  by (auto simp: issue_post_def only_tokens_def issued_row_def hash_refresh_token_def)

text \<open>
  The documented behaviour of the JWT library the issuer relies on: a token it signed parses, with
  the key the key function returns for the pinned algorithm, exactly until its expiry, to the
  signed claims.
\<close>

definition jwt_contract :: "jwt_lib \<Rightarrow> bool" where
  "jwt_contract J \<longleftrightarrow> (\<forall>secret c tok kf now. jwt_sign J secret c = Inr tok \<longrightarrow> kf ''HS256'' = Inr secret \<longrightarrow>
     (if now < cl_exp c then jwt_parse J kf [''HS256''] now tok = Inr (True, c)
      else \<not> is_ok (jwt_parse J kf [''HS256''] now tok)))"

text \<open>C32: An access token the issuer signed for a user parses, until its expiry and not after, to
  claims with that user as the subject, the configured issuer and a 32-digit token id.\<close>

theorem access_token_verifies:
  assumes "jwt_contract J" and "run_state (sign_access J cfg uid now) w = (Inr tok, w')" and "uid \<noteq> []"
  shows "if t < jwt_date J (now + sc_access_ttl cfg)
         then (\<exists>cl. parse_token J cfg t tok = Inr cl \<and> cl_sub cl = uid \<and> cl_iss cl = sc_issuer cfg
                 \<and> cl_iat cl = jwt_date J now \<and> length (cl_jti cl) = 32)
         else (\<exists>text. parse_token J cfg t tok = Inl (Wrapf [] err_invalid_token text))"
proof -
  have "wp (sign_access J cfg uid now) (\<lambda>r w'. \<forall>tok. r = Inr tok \<longrightarrow> (\<exists>jti. length jti = 32 \<and>
      jwt_sign J (sc_secret cfg) \<lparr>cl_sub = uid, cl_iss = sc_issuer cfg, cl_iat = jwt_date J now,
        cl_exp = jwt_date J (now + sc_access_ttl cfg), cl_jti = jti\<rparr> = Inr tok)) w"
    by (rule wp_start, erule sign_access_step) auto
  from wpD [OF this assms(2)] obtain jti where jti: "length jti = 32"
    and sign: "jwt_sign J (sc_secret cfg) \<lparr>cl_sub = uid, cl_iss = sc_issuer cfg, cl_iat = jwt_date J now,
        cl_exp = jwt_date J (now + sc_access_ttl cfg), cl_jti = jti\<rparr> = Inr tok"
    by auto
  have "key_func cfg ''HS256'' = Inr (sc_secret cfg)" by (simp add: key_func_def)
  with assms(1) sign
  have "if t < jwt_date J (now + sc_access_ttl cfg)
        then jwt_parse J (key_func cfg) [''HS256''] t tok = Inr (True, \<lparr>cl_sub = uid, cl_iss = sc_issuer cfg,
               cl_iat = jwt_date J now, cl_exp = jwt_date J (now + sc_access_ttl cfg), cl_jti = jti\<rparr>)
        else \<not> is_ok (jwt_parse J (key_func cfg) [''HS256''] t tok)"
    unfolding jwt_contract_def by (metis claims.select_convs(4))
  then show ?thesis using assms(3) jti
    by (cases "jwt_parse J (key_func cfg) [''HS256''] t tok") (auto simp: parse_token_def split: if_splits)
qed

section \<open>Worked examples\<close>

definition demo_user :: user_row where
  "demo_user = \<lparr>u_id = ''u1'', u_name = None, u_email = Some ''ana@example.com'', u_password = None,
     u_verified_at = Some 0, u_failed = 0, u_locked_until = None, u_status = ''ACTIVE'', u_created = 0,
     u_updated = 0, u_deleted = None\<rparr>"

definition demo_row :: "int option \<Rightarrow> refresh_row" where
  "demo_row rv = \<lparr>rt_id = ''r'', rt_user = ''u1'', rt_hash = hash_refresh_token ''abc'', rt_family = ''f'',
     rt_device = None, rt_user_agent = None, rt_ip = None, rt_expires = 1000, rt_revoked = rv,
     rt_created = 0, rt_updated = 0\<rparr>"

definition demo_db :: "int option \<Rightarrow> db" where
  "demo_db rv = empty_db\<lparr>tb_user := [demo_user], tb_refresh_token := [demo_row rv]\<rparr>"

definition demo_jwt :: jwt_lib where
  "demo_jwt = \<lparr>jwt_date = \<lambda>t. t, jwt_sign = \<lambda>secret c. Inr ''jwt'', jwt_parse = \<lambda>kf algs now tok. Inl ''expired''\<rparr>"

definition demo_config :: session_config where
  "demo_config = \<lparr>sc_secret = ''s'', sc_access_ttl = 900, sc_refresh_ttl = 5000, sc_issuer = ''auth''\<rparr>"

definition demo_meta :: session_meta where
  "demo_meta = \<lparr>m_device = [], m_user_agent = [], m_ip = []\<rparr>"

lemma demo_rows [simp]: "token_rows (calm (demo_db rv)) = [demo_row rv]"
  "tb_user (demo_db rv) = [demo_user]" "tb_refresh_token (demo_db rv) = [demo_row rv]"
  by (simp_all add: demo_db_def)

lemma demo_by_hash [simp]: "row_by_hash (hash_refresh_token ''abc'') [demo_row rv] = Some (demo_row rv)"
  by (simp add: row_by_hash_def demo_row_def)

lemma demo_row_simps [simp]: "rt_user (demo_row rv) = ''u1''" "rt_revoked (demo_row rv) = rv"
  "rt_family (demo_row rv) = ''f''" "rt_id (demo_row rv) = ''r''" "rt_expires (demo_row rv) = 1000"
  "rt_hash (demo_row rv) = hash_refresh_token ''abc''" "u_id demo_user = ''u1''"
  by (simp_all add: demo_row_def demo_user_def)

lemma demo_inv: "token_inv [demo_row rv]"
  by (simp add: token_inv_def live_of_def)

lemma demo_uncollided: "uncollided (calm (demo_db rv))"
proof -
  have "show_nat n \<noteq> ''r''" for n
    using show_nat_digits [of n] by (auto simp: is_digit_def byte_def)
  then show ?thesis
    by (simp add: uncollided_def hash_refresh_token_def sha256_abc b64_url_sevens sha256_sevens)
qed

lemma demo_sign: "\<exists>tok. jwt_sign demo_jwt secret c = Inr tok"
  by (simp add: demo_jwt_def)

definition demo_refresh :: "world \<Rightarrow> (gerror + tokens) \<times> world" where
  "demo_refresh w = run_state (refresh demo_jwt demo_config pg_begin_rotate ''abc'' demo_meta) w"

lemma demo_refresh_ok: "\<exists>toks w'. demo_refresh (calm (demo_db None)) = (Inr toks, w')"
proof -
  obtain r w' where run: "demo_refresh (calm (demo_db None)) = (r, w')" by fastforce
  then have run': "run_state (refresh demo_jwt demo_config pg_begin_rotate ''abc'' demo_meta) (calm (demo_db None)) = (r, w')"
    by (simp add: demo_refresh_def)
  have "w_clock w' = 0"
    using wpD [OF refresh_effect run'] by (auto simp: refresh_post_def only_tokens_def calm_clock)
  then have "is_ok r"
    using refresh_answers [OF _ _ _ demo_uncollided demo_sign run'] by (simp add: refresh_answer_def)
  then show ?thesis using run by (cases r) auto
qed

lemma demo_reuse: "\<exists>w'. demo_refresh (calm (demo_db (Some 0))) = (Inl err_refresh_reused, w')"
proof -
  obtain r w' where run: "demo_refresh (calm (demo_db (Some 0))) = (r, w')" by fastforce
  then have run': "run_state (refresh demo_jwt demo_config pg_begin_rotate ''abc'' demo_meta)
      (calm (demo_db (Some 0))) = (r, w')"
    by (simp add: demo_refresh_def)
  have "r = Inl err_refresh_reused"
    using refresh_answers [OF _ _ _ demo_uncollided demo_sign run'] by (simp add: refresh_answer_def)
  then show ?thesis using run by blast
qed

lemma demo_logout: "\<exists>w'. run_state (logout pg_begin_rotate ''abc'') (calm (demo_db None)) = (Inr (), w')"
proof -
  have "wp (logout pg_begin_rotate ''abc'') (\<lambda>r w'. r = Inr ()) (calm (demo_db None))"
    by (simp add: logout_def session_pg_defs wp)
  then show ?thesis by (simp add: wp_def split: prod.splits)
qed

text \<open>A token that was there is still there after a run.\<close>

lemma family_of_revoke:
  "map_option rt_family (row_by_hash h (revoke_where q t rows)) = map_option rt_family (row_by_hash h rows)"
  by (cases "row_by_hash h rows") (simp_all add: row_by_hash_revoke)

lemma evolve_family:
  "evolve rows rows' \<Longrightarrow> map_option rt_family (row_by_hash h rows) = Some fam \<Longrightarrow>
    map_option rt_family (row_by_hash h rows') = Some fam"
proof (induction rule: evolve.induct)
  case (rotate h' rows x n t)
  then show ?case using family_of_revoke [of h "\<lambda>r. rt_hash r = h'" t rows]
    by (auto simp: row_by_hash_append split: option.splits)
qed (auto simp: family_of_revoke row_by_hash_append simp del: map_option_eq_Some)

lemma session_run_keeps_hash:
  assumes "session_run J cfg w w'" and "w_tx w = None" and "row_by_hash h (token_rows w) = Some x"
  shows "\<exists>y. row_by_hash h (token_rows w') = Some y \<and> rt_family y = rt_family x"
proof -
  have "w_tx w' = None \<and> map_option rt_family (row_by_hash h (token_rows w')) = Some (rt_family x)"
    using assms(1,2) by (rule session_run_preserves) (auto simp: assms(3) evolve_family simp del: map_option_eq_Some)
  then show ?thesis by auto
qed

lemma session_one_live_witness:
  "\<exists>w'. session_run demo_jwt demo_config (calm (demo_db None)) w' \<and> token_rows w' \<noteq> [demo_row None]
      \<and> token_inv (token_rows w')"
proof -
  obtain toks w' where run: "demo_refresh (calm (demo_db None)) = (Inr toks, w')"
    using demo_refresh_ok by blast
  have r: "session_run demo_jwt demo_config (calm (demo_db None)) w'"
    by (rule run_step [OF run_start step_refresh]) (rule run [unfolded demo_refresh_def])
  have "spent (hash_refresh_token ''abc'') (token_rows w')"
    using refresh_ok_live(2) [OF _ run [unfolded demo_refresh_def]] by simp
  then have "token_rows w' \<noteq> [demo_row None]" by (auto simp: spent_def)
  moreover have "token_inv (token_rows w')"
    by (rule session_one_live [OF r]) (simp_all add: demo_inv)
  ultimately show ?thesis using r by blast
qed

lemma refresh_single_use_witness:
  "\<exists>toks w1. demo_refresh (calm (demo_db None)) = (Inr toks, w1) \<and> \<not> is_ok (fst (demo_refresh w1))"
proof -
  obtain toks w1 where run: "demo_refresh (calm (demo_db None)) = (Inr toks, w1)"
    using demo_refresh_ok by blast
  have "\<not> is_ok (fst (demo_refresh w1))"
    unfolding demo_refresh_def
    by (rule refresh_single_use [OF _ run [unfolded demo_refresh_def] run_start prod.collapse [symmetric]]) simp
  then show ?thesis using run by blast
qed


lemma logout_ends_family_witness:
  "\<exists>w1. run_state (logout pg_begin_rotate ''abc'') (calm (demo_db None)) = (Inr (), w1) \<and> \<not> is_ok (fst (demo_refresh w1))"
proof -
  obtain w1 where run: "run_state (logout pg_begin_rotate ''abc'') (calm (demo_db None)) = (Inr (), w1)"
    using demo_logout by blast
  have "session_run demo_jwt demo_config (calm (demo_db None)) w1"
    by (rule run_step [OF run_start step_logout [OF run]])
  then obtain y where "row_by_hash (hash_refresh_token ''abc'') (token_rows w1) = Some y"
    and "rt_family y = rt_family (demo_row None)"
    using session_run_keeps_hash [of _ _ _ _ "hash_refresh_token ''abc''" "demo_row None"] by fastforce
  then have "\<not> is_ok (fst (demo_refresh w1))"
    unfolding demo_refresh_def
    by (intro logout_ends_family [where x = "demo_row None" and y = y, OF _ run _ run_start prod.collapse [symmetric]]) simp_all
  then show ?thesis using run by blast
qed

lemma refresh_outcome_witness:
  "fst (demo_refresh (calm (demo_db (Some 0)))) = Inl err_refresh_reused
   \<and> dead ''f'' (token_rows (snd (demo_refresh (calm (demo_db (Some 0))))))"
  using refresh_outcome [OF _ _ _ demo_uncollided demo_sign
      demo_refresh_def [of "calm (demo_db (Some 0))", symmetric, THEN trans, OF prod.collapse [symmetric]]]
  by simp

lemma issue_stores_digest_witness:
  "\<exists>r w'. run_state (issue demo_jwt demo_config pg_store_refresh_token ''u1'' demo_meta) (calm (demo_db None)) = (r, w')
     \<and> (\<not> is_ok r \<and> token_rows w' = [demo_row None] \<or> (\<exists>n. token_rows w' = [demo_row None, n] \<and> rt_user n = ''u1''))"
proof -
  obtain r w' where run: "run_state (issue demo_jwt demo_config pg_store_refresh_token ''u1'' demo_meta)
      (calm (demo_db None)) = (r, w')" by fastforce
  then show ?thesis using issue_stores_digest [OF run] by auto
qed

text \<open>A library that knows one token.\<close>

definition one_claims :: claims where
  "one_claims = \<lparr>cl_sub = ''u1'', cl_iss = ''auth'', cl_iat = 0, cl_exp = 900, cl_jti = hex_encode (replicate 16 (CHR 0x07))\<rparr>"

definition one_jwt :: jwt_lib where
  "one_jwt = \<lparr>jwt_date = \<lambda>t. t, jwt_sign = \<lambda>secret c. if c = one_claims then Inr ''jwt'' else Inl (Err []),
     jwt_parse = \<lambda>kf algs now tok. if tok = ''jwt'' \<and> now < 900 then Inr (True, one_claims) else Inl ''expired''\<rparr>"

lemma access_token_verifies_witness:
  "fst (run_state (sign_access one_jwt demo_config ''u1'' 0) (calm empty_db)) = Inr ''jwt''
   \<and> (\<exists>cl. parse_token one_jwt demo_config 899 ''jwt'' = Inr cl \<and> cl_sub cl = ''u1'')
   \<and> (\<exists>text. parse_token one_jwt demo_config 900 ''jwt'' = Inl (Wrapf [] err_invalid_token text))"
proof -
  have c: "jwt_contract one_jwt"
    by (auto simp: jwt_contract_def one_jwt_def one_claims_def)
  have "wp (sign_access one_jwt demo_config ''u1'' 0) (\<lambda>r w. r = Inr ''jwt'') (calm empty_db)"
    by (simp add: sign_access_def new_id_def wp one_jwt_def one_claims_def demo_config_def map_replicate_trivial)
  then obtain w' where run: "run_state (sign_access one_jwt demo_config ''u1'' 0) (calm empty_db) = (Inr ''jwt'', w')"
    by (auto simp: wp_def split: prod.splits)
  have d: "jwt_date one_jwt (0 + sc_access_ttl demo_config) = 900"
    by (simp add: one_jwt_def demo_config_def)
  show ?thesis
    using access_token_verifies [OF c run, of 899] access_token_verifies [OF c run, of 900] run
    unfolding d by auto
qed

end
