(* ===== verification/Json_Text.thy ===== *)
theory Json_Text
  imports Encodings
begin

text \<open>
  \<open>encoding/json\<close> on bytes: what \<open>json.Unmarshal\<close> and a decoder read, as a tree (\<open>json_tree\<close>, \<open>read_body\<close>), how a struct is filled
  from it, and what \<open>json.Marshal\<close> writes of strings and of structs of strings. A string of bytes is valid UTF-8 or not by the
  table of \<open>unicode/utf8\<close>. What is read back from the encoder is what was written, with every byte that is part of no
  character replaced by U+FFFD (\<open>unquote_repair\<close>).
\<close>

section \<open>unicode/utf8\<close>

definition tail_byte :: "char \<Rightarrow> bool" where
  "tail_byte c \<longleftrightarrow> 0x80 \<le> byte c \<and> byte c \<le> 0xBF"

text \<open>\<open>DecodeRune\<close>: the number of bytes of the first character, and \<open>None\<close> when they encode none.\<close>

fun rune_len :: "string \<Rightarrow> nat option" where
  "rune_len [] = None"
| "rune_len (a # s) =
     (if byte a < 0x80 then Some 1
      else case s of
        [] \<Rightarrow> None
      | b # t \<Rightarrow>
          if 0xC2 \<le> byte a \<and> byte a \<le> 0xDF then (if tail_byte b then Some 2 else None)
          else case t of
            [] \<Rightarrow> None
          | c # u \<Rightarrow>
              if 0xE0 \<le> byte a \<and> byte a \<le> 0xEF
              then (if (if byte a = 0xE0 then 0xA0 else 0x80) \<le> byte b \<and> byte b \<le> (if byte a = 0xED then 0x9F else 0xBF) \<and> tail_byte c
                    then Some 3 else None)
              else case u of
                [] \<Rightarrow> None
              | d # v \<Rightarrow>
                  if 0xF0 \<le> byte a \<and> byte a \<le> 0xF4
                    \<and> (if byte a = 0xF0 then 0x90 else 0x80) \<le> byte b \<and> byte b \<le> (if byte a = 0xF4 then 0x8F else 0xBF)
                    \<and> tail_byte c \<and> tail_byte d
                  then Some 4 else None)"

lemma rune_len_bounds: "rune_len s = Some n \<Longrightarrow> 0 < n \<and> n \<le> length s \<and> n \<le> 4"
  by (induction s rule: rune_len.induct) (auto split: if_splits list.splits)

declare rune_len.simps [simp del]

function valid_utf8 :: "string \<Rightarrow> bool" where
  "valid_utf8 s \<longleftrightarrow> s = [] \<or> (case rune_len s of None \<Rightarrow> False | Some n \<Rightarrow> valid_utf8 (drop n s))"
  by pat_completeness auto
termination
  by (relation "measure length") (auto dest: rune_len_bounds)

declare valid_utf8.simps [simp del]

text \<open>\<open>EncodeRune\<close> of a code point that is no surrogate.\<close>

definition encode_rune :: "nat \<Rightarrow> string" where
  "encode_rune r =
     (if r < 0x80 then [char_of r]
      else if r < 0x800 then [char_of (0xC0 + r div 64), char_of (0x80 + r mod 64)]
      else if r < 0x10000 then [char_of (0xE0 + r div 4096), char_of (0x80 + r div 64 mod 64), char_of (0x80 + r mod 64)]
      else [char_of (0xF0 + r div 262144), char_of (0x80 + r div 4096 mod 64), char_of (0x80 + r div 64 mod 64), char_of (0x80 + r mod 64)])"

definition replacement :: string where
  "replacement = [CHR 0xEF, CHR 0xBF, CHR 0xBD]"

section \<open>String literals\<close>

definition hex_value :: "char \<Rightarrow> nat option" where
  "hex_value c =
     (if is_digit c then Some (byte c - 48)
      else if 97 \<le> byte c \<and> byte c \<le> 102 then Some (byte c - 87)
      else if 65 \<le> byte c \<and> byte c \<le> 70 then Some (byte c - 55)
      else None)"

text \<open>\<open>getu4\<close> after its \<open>\u\<close>.\<close>

fun hex4 :: "string \<Rightarrow> (nat \<times> string) option" where
  "hex4 (a # b # c # d # s) = (case (hex_value a, hex_value b, hex_value c, hex_value d) of
       (Some i, Some j, Some k, Some l) \<Rightarrow> Some (((i * 16 + j) * 16 + k) * 16 + l, s)
     | _ \<Rightarrow> None)"
| "hex4 _ = None"

lemma hex4_shorter: "hex4 s = Some (r, t) \<Longrightarrow> length s = length t + 4"
  by (induction s rule: hex4.induct) (auto split: option.splits)

definition high_surrogate :: "nat \<Rightarrow> bool" where
  "high_surrogate r \<longleftrightarrow> 0xD800 \<le> r \<and> r < 0xDC00"

definition low_surrogate :: "nat \<Rightarrow> bool" where
  "low_surrogate r \<longleftrightarrow> 0xDC00 \<le> r \<and> r < 0xE000"

text \<open>A \<open>\u\<close> escape: the character it stands for, with the next escape when the two are a surrogate pair.\<close>

definition u_escape :: "string \<Rightarrow> (string \<times> string) option" where
  "u_escape s = (case hex4 s of
       None \<Rightarrow> None
     | Some (r, t) \<Rightarrow>
         if high_surrogate r \<or> low_surrogate r
         then (case (if take 2 t = [CHR 0x5C, CHR ''u''] then hex4 (drop 2 t) else None) of
             Some (q, u) \<Rightarrow> if high_surrogate r \<and> low_surrogate q
               then Some (encode_rune (0x10000 + (r - 0xD800) * 1024 + (q - 0xDC00)), u) else Some (replacement, t)
           | None \<Rightarrow> Some (replacement, t))
         else Some (encode_rune r, t))"

lemma u_escape_shorter: "u_escape s = Some (c, t) \<Longrightarrow> length t < length s"
  by (auto simp: u_escape_def split: option.splits prod.splits if_splits dest!: hex4_shorter)

definition simple_escape :: "char \<Rightarrow> char option" where
  "simple_escape c =
     (if c = CHR 0x22 \<or> c = CHR 0x5C \<or> c = CHR ''/'' then Some c
      else if c = CHR ''b'' then Some (CHR 0x08)
      else if c = CHR ''f'' then Some (CHR 0x0C)
      else if c = CHR ''n'' then Some (CHR 0x0A)
      else if c = CHR ''r'' then Some (CHR 0x0D)
      else if c = CHR ''t'' then Some (CHR 0x09)
      else None)"

text \<open>The literal after its opening quote: the text and what follows the closing quote.\<close>

function unquote :: "string \<Rightarrow> (string \<times> string) option" where
  "unquote [] = None"
| "unquote (c # s) =
     (if c = CHR 0x22 then Some ([], s)
      else if c = CHR 0x5C then (case s of
          [] \<Rightarrow> None
        | e # t \<Rightarrow>
            if e = CHR ''u'' then (case u_escape t of
                None \<Rightarrow> None
              | Some (x, u) \<Rightarrow> map_option (apfst (append x)) (unquote u))
            else (case simple_escape e of
                None \<Rightarrow> None
              | Some x \<Rightarrow> map_option (apfst (Cons x)) (unquote t)))
      else if byte c < 32 then None
      else (case rune_len (c # s) of
          None \<Rightarrow> map_option (apfst (append replacement)) (unquote s)
        | Some n \<Rightarrow> map_option (apfst (append (take n (c # s)))) (unquote (drop n (c # s)))))"
  by pat_completeness auto
termination
  by (relation "measure length") (auto dest: u_escape_shorter rune_len_bounds)

declare unquote.simps(2) [simp del]

lemma unquote_shorter: "unquote s = Some (x, t) \<Longrightarrow> length t < length s"
proof (induction "length s" arbitrary: s x rule: less_induct)
  case less
  have IH: "length t < length u" if "unquote u = Some (y, t)" "length u < length s" for u y
    using less.hyps [OF that(2,1)] .
  show ?case
  proof (cases s)
    case (Cons c v)
    with less.prems show ?thesis
      by (auto simp: unquote.simps(2) split: if_splits option.splits list.splits dest!: u_escape_shorter rune_len_bounds) (fastforce dest: IH)+
  qed (use less.prems in simp)
qed

section \<open>Values\<close>

datatype jtree = TNull | TBool bool | TNum string | TStr string | TArr "jtree list" | TObj "(string \<times> jtree) list"

definition json_space :: "char \<Rightarrow> bool" where
  "json_space c \<longleftrightarrow> c = CHR '' '' \<or> c = CHR 0x09 \<or> c = CHR 0x0A \<or> c = CHR 0x0D"

abbreviation skip_space :: "string \<Rightarrow> string" where
  "skip_space \<equiv> dropWhile json_space"

lemma skip_shorter: "skip_space s = c # t \<Longrightarrow> length t < length s"
  using length_dropWhile_le [of json_space s] by simp

text \<open>One digit or more; the grammar of numbers; a number keeps its text.\<close>

definition digits1 :: "string \<Rightarrow> string option" where
  "digits1 s = (if s \<noteq> [] \<and> is_digit (hd s) then Some (dropWhile is_digit s) else None)"

definition number_end :: "string \<Rightarrow> string option" where
  "number_end s =
     (let s = (if take 1 s = ''-'' then tl s else s)
      in case (if take 1 s = ''0'' then Some (tl s) else digits1 s) of
          None \<Rightarrow> None
        | Some s \<Rightarrow>
            case (if take 1 s = ''.'' then digits1 (tl s) else Some s) of
              None \<Rightarrow> None
            | Some s \<Rightarrow>
                if take 1 s = ''e'' \<or> take 1 s = ''E''
                then digits1 (if take 1 (tl s) = ''+'' \<or> take 1 (tl s) = ''-'' then tl (tl s) else tl s)
                else Some s)"

definition max_nesting :: nat where
  "max_nesting = 10000"

text \<open>
  The value at the front of a text and the rest. \<open>d\<close> is the nesting that is left. The three modes are a value, the values
  of an array after its bracket or a comma, and the members of an object after its brace or a comma; the guards
  on the rest always hold (\<open>read_json_shorter\<close>).
\<close>

datatype mode = Value | Elements | Members

function read_json :: "mode \<Rightarrow> nat \<Rightarrow> string \<Rightarrow> (jtree \<times> string) option" where
  "read_json Value d s = (case skip_space s of
       [] \<Rightarrow> None
     | c # t \<Rightarrow>
         if c = CHR 0x22 then map_option (apfst TStr) (unquote t)
         else if c = CHR ''{'' then
           (if d = 0 then None
            else if take 1 (skip_space t) = ''}'' then Some (TObj [], tl (skip_space t))
            else read_json Members (d - 1) t)
         else if c = CHR ''['' then
           (if d = 0 then None
            else if take 1 (skip_space t) = '']'' then Some (TArr [], tl (skip_space t))
            else read_json Elements (d - 1) t)
         else if take 4 (c # t) = ''null'' then Some (TNull, drop 4 (c # t))
         else if take 4 (c # t) = ''true'' then Some (TBool True, drop 4 (c # t))
         else if take 5 (c # t) = ''false'' then Some (TBool False, drop 5 (c # t))
         else map_option (\<lambda>u. (TNum (take (length (c # t) - length u) (c # t)), u)) (number_end (c # t)))"
| "read_json Elements d s = (case read_json Value d s of
       None \<Rightarrow> None
     | Some (v, t) \<Rightarrow> (case skip_space t of
           [] \<Rightarrow> None
         | c # u \<Rightarrow>
             if c = CHR '']'' then Some (TArr [v], u)
             else if c = CHR '','' \<and> length u < length s then (case read_json Elements d u of
                 Some (TArr vs, r) \<Rightarrow> Some (TArr (v # vs), r)
               | _ \<Rightarrow> None)
             else None))"
| "read_json Members d s = (case skip_space s of
       [] \<Rightarrow> None
     | q # t \<Rightarrow>
         if q \<noteq> CHR 0x22 then None
         else case unquote t of
             None \<Rightarrow> None
           | Some (key, u) \<Rightarrow> (case skip_space u of
                 [] \<Rightarrow> None
               | c # v \<Rightarrow>
                   if c \<noteq> CHR '':'' then None
                   else case read_json Value d v of
                       None \<Rightarrow> None
                     | Some (x, r) \<Rightarrow> (case skip_space r of
                           [] \<Rightarrow> None
                         | c # r1 \<Rightarrow>
                             if c = CHR ''}'' then Some (TObj [(key, x)], r1)
                             else if c = CHR '','' \<and> length r1 < length s then (case read_json Members d r1 of
                                 Some (TObj ms, r2) \<Rightarrow> Some (TObj ((key, x) # ms), r2)
                               | _ \<Rightarrow> None)
                             else None)))"
  by pat_completeness auto
termination
  by (relation "measures [\<lambda>(m, d, s). length s, \<lambda>(m, d, s). if m = Value then 0 else 1]")
    (auto dest!: unquote_shorter skip_shorter)

declare read_json.simps [simp del]

lemma digits1_shorter: "digits1 s = Some t \<Longrightarrow> length t < length s"
  using length_dropWhile_le [of is_digit "tl s"] by (cases s) (auto simp: digits1_def split: if_splits)

lemma number_end_shorter:
  assumes "number_end s = Some t"
  shows "length t < length s"
proof -
  define s1 where "s1 = (if take 1 s = ''-'' then tl s else s)"
  note parts = assms [unfolded number_end_def Let_def, folded s1_def]
  obtain s2 where s2: "(if take 1 s1 = ''0'' then Some (tl s1) else digits1 s1) = Some s2"
    using parts by (cases "if take 1 s1 = ''0'' then Some (tl s1) else digits1 s1") simp_all
  note parts = parts [unfolded s2 option.case]
  obtain s3 where s3: "(if take 1 s2 = ''.'' then digits1 (tl s2) else Some s2) = Some s3"
    using parts by (cases "if take 1 s2 = ''.'' then digits1 (tl s2) else Some s2") simp_all
  note parts = parts [unfolded s3 option.case]
  have "length s1 \<le> length s" by (simp add: s1_def)
  moreover have "length s2 < length s1" using s2 by (cases s1) (auto dest: digits1_shorter split: if_splits)
  moreover have "length s3 \<le> length s2" using s3 digits1_shorter [of "tl s2" s3] by (auto split: if_splits)
  moreover have "length t \<le> length s3"
    using parts digits1_shorter [of "tl s3" t] digits1_shorter [of "tl (tl s3)" t] by (auto split: if_splits)
  ultimately show ?thesis by linarith
qed

lemma read_json_shorter: "read_json m d s = Some (v, t) \<Longrightarrow> length t < length s"
proof (induction "2 * length s + (if m = Value then 0 else 1)" arbitrary: m d s v t rule: less_induct)
  case less
  have within: "length r < length u" if "read_json n e u = Some (w, r)" "length u < length s" for n e u w r
    using less.hyps [OF _ that(1)] that(2) by (simp split: if_splits)
  have first: "length r < length s" if "read_json Value e s = Some (w, r)" "m \<noteq> Value" for e w r
    using less.hyps [OF _ that(1)] that(2) by simp
  have tails: "length (tl (skip_space x)) \<le> length x" for x
    using length_dropWhile_le [of json_space x] by (simp only: length_tl)
  show ?case
  proof (cases m)
    case Value
    obtain c x where front: "skip_space s = c # x" using less.prems Value by (cases "skip_space s") (auto simp: read_json.simps(1) [of d s])
    then have x: "length x < length s" by (rule skip_shorter)
    note step = read_json.simps(1) [of d s, unfolded front list.case]
    note value_of = less.prems [unfolded Value step]
    consider (quoted) w where "unquote x = Some (w, t)" | (inner) n e where "read_json n e x = Some (v, t)"
      | (empty) "t = tl (skip_space x)" | (word) k where "t = drop k x" | (number) "number_end (c # x) = Some t"
      using value_of by (auto split: if_splits)
    then show ?thesis
    proof cases
      case quoted
      then show ?thesis using unquote_shorter x by fastforce
    next
      case inner
      then show ?thesis using within [OF inner x] x by linarith
    next
      case empty
      then show ?thesis using le_less_trans [OF tails [of x] x] by (simp only: empty)
    next
      case word
      then show ?thesis using x by simp
    next
      case number
      then show ?thesis using number_end_shorter [OF number] x by simp
    qed
  next
    case Elements
    obtain w r c u where e: "read_json Value d s = Some (w, r)" "skip_space r = c # u"
      and u: "u = t \<or> length u < length s \<and> (\<exists>vs. read_json Elements d u = Some (TArr vs, t))"
      using less.prems Elements by (auto simp: read_json.simps(2) [of d s] split: option.splits list.splits if_splits jtree.splits)
    have "length u < length s" using first [OF e(1)] skip_shorter [OF e(2)] Elements by simp
    then show ?thesis using u within by fastforce
  next
    case Members
    obtain q x key y c z w r c' u where e: "skip_space s = q # x" "unquote x = Some (key, y)" "skip_space y = c # z"
        "read_json Value d z = Some (w, r)" "skip_space r = c' # u"
      and u: "u = t \<or> length u < length s \<and> (\<exists>ms. read_json Members d u = Some (TObj ms, t))"
      using less.prems Members by (auto simp: read_json.simps(3) [of d s] split: option.splits list.splits if_splits jtree.splits)
    have z: "length z < length s" using skip_shorter [OF e(1)] unquote_shorter [OF e(2)] skip_shorter [OF e(3)] by linarith
    have "length u < length s" using skip_shorter [OF e(5)] within [OF e(4) z] z by linarith
    then show ?thesis using u within by fastforce
  qed
qed

text \<open>\<open>json.Unmarshal\<close> reads the whole text, with space around the value.\<close>

definition json_tree :: "string \<Rightarrow> jtree option" where
  "json_tree s = (case read_json Value max_nesting s of
       None \<Rightarrow> None
     | Some (v, t) \<Rightarrow> if skip_space t = [] then Some v else None)"

text \<open>
  \<open>Decode\<close> of a decoder reads one value and leaves the rest alone, here from a reader that fails after \<open>n\<close> bytes. The end of
  an object or an array is seen at its bracket, the end of another value only at the byte after it.
\<close>

definition read_body :: "nat \<Rightarrow> string \<Rightarrow> jtree option" where
  "read_body n body = (case read_json Value max_nesting (take n body) of
       None \<Rightarrow> None
     | Some (v, t) \<Rightarrow>
         if t = [] \<and> n < length body \<and> (case v of TObj _ \<Rightarrow> False | TArr _ \<Rightarrow> False | _ \<Rightarrow> True) then None else Some v)"

section \<open>Filling a struct\<close>

text \<open>
  The standard decoder: members are read in order, names match up to case folding (two code points
  outside ASCII fold to letters), null leaves a field as it is, a value of another type is an
  error reported at the end, and unknown members are skipped.
\<close>

fun fold_name :: "string \<Rightarrow> string" where
  "fold_name [] = []"
| "fold_name (c # s) =
     (if c = CHR 0xC5 \<and> has_prefix s [CHR 0xBF] then CHR ''s'' # fold_name (drop 1 s)
      else if c = CHR 0xE2 \<and> has_prefix s [CHR 0x84, CHR 0xAA] then CHR ''k'' # fold_name (drop 2 s)
      else lower_char c # fold_name s)"

fun str_field :: "string \<Rightarrow> (string \<times> jtree) list \<Rightarrow> string \<times> bool \<Rightarrow> string \<times> bool" where
  "str_field name [] acc = acc"
| "str_field name ((k, v) # ms) (x, ok') =
     (if fold_name k \<noteq> name then str_field name ms (x, ok')
      else case v of
          TStr s \<Rightarrow> str_field name ms (s, ok')
        | TNull \<Rightarrow> str_field name ms (x, ok')
        | _ \<Rightarrow> str_field name ms (x, False))"

fun opt_field :: "string \<Rightarrow> (string \<times> jtree) list \<Rightarrow> string option \<times> bool \<Rightarrow> string option \<times> bool" where
  "opt_field name [] acc = acc"
| "opt_field name ((k, v) # ms) (x, ok') =
     (if fold_name k \<noteq> name then opt_field name ms (x, ok')
      else case v of
          TStr s \<Rightarrow> opt_field name ms (Some s, ok')
        | TNull \<Rightarrow> opt_field name ms (None, ok')
        | _ \<Rightarrow> opt_field name ms (x, False))"

definition str_item :: "jtree \<Rightarrow> string option" where
  "str_item v = (case v of TStr s \<Rightarrow> Some s | TNull \<Rightarrow> Some [] | _ \<Rightarrow> None)"

fun strs_field :: "string \<Rightarrow> (string \<times> jtree) list \<Rightarrow> string list option \<times> bool \<Rightarrow> string list option \<times> bool" where
  "strs_field name [] acc = acc"
| "strs_field name ((k, v) # ms) (x, ok') =
     (if fold_name k \<noteq> name then strs_field name ms (x, ok')
      else case v of
          TArr vs \<Rightarrow> strs_field name ms (Some (map (\<lambda>v. case str_item v of None \<Rightarrow> [] | Some s \<Rightarrow> s) vs),
             ok' \<and> list_all (\<lambda>v. str_item v \<noteq> None) vs)
        | TNull \<Rightarrow> strs_field name ms (None, ok')
        | _ \<Rightarrow> strs_field name ms (x, False))"

abbreviation string_of :: "string \<Rightarrow> (string \<times> jtree) list \<Rightarrow> string \<times> bool" where
  "string_of name ms \<equiv> str_field name ms ([], True)"

text \<open>The members of the value a struct is decoded from: null is no member, an array or scalar an error.\<close>

definition members :: "jtree \<Rightarrow> (string \<times> jtree) list option" where
  "members j = (case j of TObj ms \<Rightarrow> Some ms | TNull \<Rightarrow> Some [] | _ \<Rightarrow> None)"

section \<open>What the encoder writes\<close>

definition json_char :: "char \<Rightarrow> string" where
  "json_char c =
     (if c = CHR 0x22 \<or> c = CHR 0x5C then [CHR 0x5C, c]
      else if c = CHR 0x0A then [CHR 0x5C, CHR ''n'']
      else if c = CHR 0x0D then [CHR 0x5C, CHR ''r'']
      else if c = CHR 0x09 then [CHR 0x5C, CHR ''t'']
      else if c = CHR 0x08 then [CHR 0x5C, CHR ''b'']
      else if c = CHR 0x0C then [CHR 0x5C, CHR ''f'']
      else if byte c < 32 \<or> c = CHR ''<'' \<or> c = CHR ''>'' \<or> c = CHR ''&''
        then [CHR 0x5C, CHR ''u'', CHR ''0'', CHR ''0''] @ hex_encode [c]
      else [c])"

text \<open>\<open>appendString\<close>: a byte that is part of no character becomes the escape of U+FFFD, the separators U+2028 and U+2029 are
  escaped.\<close>

definition separator :: "string \<Rightarrow> string option" where
  "separator s = (if s = [CHR 0xE2, CHR 0x80, CHR 0xA8] then Some (CHR 0x5C # ''u2028'')
     else if s = [CHR 0xE2, CHR 0x80, CHR 0xA9] then Some (CHR 0x5C # ''u2029'') else None)"

function json_escape :: "string \<Rightarrow> string" where
  "json_escape [] = []"
| "json_escape (c # s) =
     (if byte c < 128 then json_char c @ json_escape s
      else case rune_len (c # s) of
        None \<Rightarrow> CHR 0x5C # ''ufffd'' @ json_escape s
      | Some n \<Rightarrow> (case separator (take n (c # s)) of None \<Rightarrow> take n (c # s) | Some e \<Rightarrow> e) @ json_escape (drop n (c # s)))"
  by pat_completeness auto
termination
  by (relation "measure length") (auto dest: rune_len_bounds)

declare json_escape.simps(2) [simp del]

definition json_string :: "string \<Rightarrow> string" where
  "json_string s = [CHR 0x22] @ json_escape s @ [CHR 0x22]"

text \<open>A struct whose fields are strings.\<close>

fun members_text :: "(string \<times> string) list \<Rightarrow> string" where
  "members_text [] = ''}''"
| "members_text [(key, s)] = json_string key @ CHR '':'' # json_string s @ ''}''"
| "members_text ((key, s) # ms) = json_string key @ CHR '':'' # json_string s @ CHR '','' # members_text ms"

definition object_text :: "(string \<times> string) list \<Rightarrow> string" where
  "object_text ms = CHR ''{'' # members_text ms"

section \<open>Reading back what was written\<close>

lemma rune_cases:
  assumes "rune_len s = Some n"
  obtains (one) a t where "s = a # t" "n = 1" "byte a < 128"
  | (two) a b t where "s = a # b # t" "n = 2" "\<And>u. rune_len (a # b # u) = Some 2"
  | (three) a b c t where "s = a # b # c # t" "n = 3" "\<And>u. rune_len (a # b # c # u) = Some 3"
  | (four) a b c d t where "s = a # b # c # d # t" "n = 4" "\<And>u. rune_len (a # b # c # d # u) = Some 4"
proof (cases s)
  case Nil
  then show ?thesis using assms by (simp add: rune_len.simps)
next
  case s: (Cons a t)
  show ?thesis
  proof (cases "byte a < 128")
    case True
    then show ?thesis using assms s one by (simp add: rune_len.simps)
  next
    case high: False
    then obtain b u where t: "t = b # u" using assms s by (cases t) (auto simp: rune_len.simps)
    show ?thesis
    proof (cases "0xC2 \<le> byte a \<and> byte a \<le> 0xDF")
      case True
      then show ?thesis using assms s t high two [of a b u] by (auto simp: rune_len.simps split: if_splits)
    next
      case short: False
      then obtain c v where u: "u = c # v" using assms s t high by (cases u) (auto simp: rune_len.simps split: if_splits)
      show ?thesis
      proof (cases "0xE0 \<le> byte a \<and> byte a \<le> 0xEF")
        case True
        then show ?thesis using assms s t u high short three [of a b c v] by (auto simp: rune_len.simps split: if_splits)
      next
        case long: False
        then obtain d w where v: "v = d # w" using assms s t u high short by (cases v) (auto simp: rune_len.simps split: if_splits)
        have "rune_len (a # b # c # d # x) = rune_len s" for x
          unfolding s t u v by (simp only: rune_len.simps list.case high short long if_False)
        moreover have "n = 4"
          using assms unfolding s t u v by (simp only: rune_len.simps list.case high short long if_False split: if_splits) simp_all
        ultimately show ?thesis using four [of a b c d w] assms s t u v by simp
      qed
    qed
  qed
qed

lemma byte_char_of [simp]: "n < 256 \<Longrightarrow> byte (char_of n) = n"
  by (simp add: byte_def)

lemma hex_value_digit: "i < 16 \<Longrightarrow> hex_value (hex_digits ! i) = Some i"
proof -
  have "list_all (\<lambda>i. hex_value (hex_digits ! i) = Some i) [0..<16]" by code_simp
  then show "i < 16 \<Longrightarrow> hex_value (hex_digits ! i) = Some i" by (simp add: list_all_iff)
qed

lemma char_of_byte: "char_of (byte c) = c"
  by (simp add: byte_def)

lemma u_escape_ascii:
  assumes "byte c < 128"
  shows "u_escape (CHR ''0'' # CHR ''0'' # hex_encode [c] @ u) = Some ([c], u)"
proof -
  have "hex_value (CHR ''0'') = Some 0" by code_simp
  then show ?thesis using assms
    by (simp add: u_escape_def hex_encode_def hex_value_digit high_surrogate_def low_surrogate_def encode_rune_def char_of_byte)
qed

lemma unquote_ascii:
  assumes "byte a < 128"
  shows "unquote (json_char a @ u) = map_option (apfst (Cons a)) (unquote u)"
proof -
  have single: "append [a] = Cons a" by (simp add: fun_eq_iff)
  show ?thesis
  proof (cases "a \<in> {CHR 0x22, CHR 0x5C, CHR 0x0A, CHR 0x0D, CHR 0x09, CHR 0x08, CHR 0x0C}")
    case True
    then show ?thesis by (auto simp: json_char_def unquote.simps(2) simple_escape_def)
  next
    case simple: False
    show ?thesis
    proof (cases "byte a < 32 \<or> a = CHR ''<'' \<or> a = CHR ''>'' \<or> a = CHR ''&''")
      case True
      then have "json_char a = [CHR 0x5C, CHR ''u'', CHR ''0'', CHR ''0''] @ hex_encode [a]" using simple by (simp add: json_char_def)
      then show ?thesis using u_escape_ascii [OF assms, of u] by (simp add: unquote.simps(2) single)
    next
      case False
      then have "json_char a = [a]" using simple by (simp add: json_char_def)
      then show ?thesis using False simple assms by (simp add: unquote.simps(2) rune_len.simps single)
    qed
  qed
qed

lemma special_low: "list_all (\<lambda>c. byte c < 128) [CHR 0x22, CHR 0x5C, CHR 0x0A, CHR 0x0D, CHR 0x09, CHR 0x08, CHR 0x0C, CHR ''<'', CHR ''>'', CHR ''&'']"
  by code_simp

lemma high_special: "128 \<le> byte c \<Longrightarrow> c \<notin> {CHR 0x22, CHR 0x5C, CHR 0x0A, CHR 0x0D, CHR 0x09, CHR 0x08, CHR 0x0C, CHR ''<'', CHR ''>'', CHR ''&''}"
  using special_low by (auto simp: list_all_iff)

lemma unquote_high:
  "128 \<le> byte a \<Longrightarrow> rune_len (a # s) = Some n \<Longrightarrow> unquote (a # s) = map_option (apfst (append (take n (a # s)))) (unquote (drop n (a # s)))"
  using high_special [of a] by (simp add: unquote.simps(2))

lemma separators:
  "u_escape (CHR ''2'' # CHR ''0'' # CHR ''2'' # CHR ''8'' # u) = Some ([CHR 0xE2, CHR 0x80, CHR 0xA8], u)"
  "u_escape (CHR ''2'' # CHR ''0'' # CHR ''2'' # CHR ''9'' # u) = Some ([CHR 0xE2, CHR 0x80, CHR 0xA9], u)"
  "u_escape (CHR ''f'' # CHR ''f'' # CHR ''f'' # CHR ''d'' # u) = Some (replacement, u)"
proof -
  have "map hex_value ''0289df'' = [Some 0, Some 2, Some 8, Some 9, Some 13, Some 15]" by code_simp
  then have hex: "hex4 (CHR ''2'' # CHR ''0'' # CHR ''2'' # CHR ''8'' # u) = Some (0x2028, u)"
    "hex4 (CHR ''2'' # CHR ''0'' # CHR ''2'' # CHR ''9'' # u) = Some (0x2029, u)"
    "hex4 (CHR ''f'' # CHR ''f'' # CHR ''f'' # CHR ''d'' # u) = Some (0xFFFD, u)" by simp_all
  have "map byte [CHR 0xE2, CHR 0x80, CHR 0xA8, CHR 0xA9, CHR 0xEF, CHR 0xBF, CHR 0xBD] = [226, 128, 168, 169, 239, 191, 189]" by code_simp
  then have b: "byte (CHR 0xE2) = 226" "byte (CHR 0x80) = 128" "byte (CHR 0xA8) = 168" "byte (CHR 0xA9) = 169"
    "byte (CHR 0xEF) = 239" "byte (CHR 0xBF) = 191" "byte (CHR 0xBD) = 189" by simp_all
  note chars = char_of_byte [of "CHR 0xE2", unfolded b] char_of_byte [of "CHR 0x80", unfolded b]
    char_of_byte [of "CHR 0xA8", unfolded b] char_of_byte [of "CHR 0xA9", unfolded b]
    char_of_byte [of "CHR 0xEF", unfolded b] char_of_byte [of "CHR 0xBF", unfolded b] char_of_byte [of "CHR 0xBD", unfolded b]
  have enc: "encode_rune 0x2028 = [CHR 0xE2, CHR 0x80, CHR 0xA8]" "encode_rune 0x2029 = [CHR 0xE2, CHR 0x80, CHR 0xA9]"
    "encode_rune 0xFFFD = replacement"
    by (simp_all add: encode_rune_def replacement_def chars)
  have "\<not> (high_surrogate r \<or> low_surrogate r)" if "r = 0x2028 \<or> r = 0x2029 \<or> r = 0xFFFD" for r
    using that by (auto simp: high_surrogate_def low_surrogate_def)
  then show "u_escape (CHR ''2'' # CHR ''0'' # CHR ''2'' # CHR ''8'' # u) = Some ([CHR 0xE2, CHR 0x80, CHR 0xA8], u)"
    "u_escape (CHR ''2'' # CHR ''0'' # CHR ''2'' # CHR ''9'' # u) = Some ([CHR 0xE2, CHR 0x80, CHR 0xA9], u)"
    "u_escape (CHR ''f'' # CHR ''f'' # CHR ''f'' # CHR ''d'' # u) = Some (replacement, u)"
    unfolding u_escape_def hex option.case prod.case enc by simp_all
qed

text \<open>What is read back: the text with every byte that is part of no character replaced.\<close>

function repair :: "string \<Rightarrow> string" where
  "repair [] = []"
| "repair (c # s) = (case rune_len (c # s) of
       None \<Rightarrow> replacement @ repair s
     | Some n \<Rightarrow> take n (c # s) @ repair (drop n (c # s)))"
  by pat_completeness auto
termination
  by (relation "measure length") (auto dest: rune_len_bounds)

declare repair.simps(2) [simp del]

lemma repair_valid: "valid_utf8 s \<Longrightarrow> repair s = s"
proof (induction s rule: repair.induct)
  case (2 c s)
  then show ?case by (auto simp: repair.simps(2) valid_utf8.simps [of "c # s"] split: option.splits)
qed simp

lemma unquote_apart: "128 \<le> byte c \<Longrightarrow> rune_len (c # s) = Some n \<Longrightarrow>
    unquote (take n (c # s) @ u) = map_option (apfst (append (take n (c # s)))) (unquote u)"
proof -
  assume c: "128 \<le> byte c" and n: "rune_len (c # s) = Some n"
  have "rune_len (take n (c # s) @ u) = Some n" using n by (cases rule: rune_cases) (use c in auto)
  moreover have "length (take n (c # s)) = n" "0 < n" using rune_len_bounds [OF n] by simp_all
  ultimately show ?thesis using unquote_high [OF c, of "tl (take n (c # s) @ u)" n] by (cases n) auto
qed

lemma unquote_repair: "unquote (json_escape s @ CHR 0x22 # t) = Some (repair s, t)"
proof (induction s rule: json_escape.induct)
  case 1
  then show ?case by (simp add: unquote.simps(2))
next
  case (2 c s)
  show ?case
  proof (cases "byte c < 128")
    case True
    moreover have "rune_len (c # s) = Some 1" using True by (simp add: rune_len.simps)
    ultimately show ?thesis using 2(1) by (simp add: json_escape.simps(2) repair.simps(2) unquote_ascii)
  next
    case high: False
    show ?thesis
    proof (cases "rune_len (c # s)")
      case None
      then show ?thesis using 2(2) [OF high None] high
        by (simp add: json_escape.simps(2) repair.simps(2) unquote.simps(2) separators)
    next
      case (Some n)
      note IH = 2(3) [OF high Some]
      show ?thesis
      proof (cases "separator (take n (c # s))")
        case None
        then show ?thesis using IH high Some by (simp add: json_escape.simps(2) repair.simps(2) unquote_apart del: take_Suc_Cons drop_Suc_Cons)
      next
        case (Some e)
        then show ?thesis using IH high \<open>rune_len (c # s) = Some n\<close>
          by (auto simp: json_escape.simps(2) repair.simps(2) separator_def unquote.simps(2) separators split: if_splits)
      qed
    qed
  qed
qed

lemma unquote_escape: "valid_utf8 s \<Longrightarrow> unquote (json_escape s @ CHR 0x22 # t) = Some (s, t)"
  by (simp add: unquote_repair repair_valid)

lemma plain_chars [simp]:
  "\<not> json_space (CHR 0x22)" "\<not> json_space (CHR '':'')" "\<not> json_space (CHR '','')" "\<not> json_space (CHR ''}'')" "\<not> json_space (CHR ''{'')"
  "\<not> json_space (CHR ''['')" "\<not> json_space (CHR '']'')"
  by (simp_all add: json_space_def)

lemma json_string_front: "json_string s @ t = CHR 0x22 # json_escape s @ CHR 0x22 # t"
  by (simp add: json_string_def)

lemma read_string:
  assumes "valid_utf8 s"
  shows "read_json Value d (json_string s @ t) = Some (TStr s, t)"
  using unquote_escape [OF assms, of t] by (simp add: read_json.simps(1) json_string_front)

lemma read_member:
  assumes "valid_utf8 key" and "valid_utf8 s"
  shows "read_json Members d (json_string key @ CHR '':'' # json_string s @ CHR ''}'' # t) = Some (TObj [(key, TStr s)], t)"
    and "read_json Members d (json_string key @ CHR '':'' # json_string s @ CHR '','' # t)
      = (case read_json Members d t of Some (TObj ms, r) \<Rightarrow> Some (TObj ((key, TStr s) # ms), r) | _ \<Rightarrow> None)"
  by (subst read_json.simps(3), simp add: json_string_front [of key] unquote_escape [OF assms(1)] read_string [OF assms(2)])+

lemma read_last_member:
  assumes "valid_utf8 key" and "read_json Value d x = Some (v, CHR ''}'' # t)"
  shows "read_json Members d (json_string key @ CHR '':'' # x) = Some (TObj [(key, v)], t)"
  by (subst read_json.simps(3), simp add: json_string_front [of key] unquote_escape [OF assms(1)] assms(2))

lemma read_item:
  assumes "valid_utf8 s"
  shows "read_json Elements d (json_string s @ CHR '']'' # t) = Some (TArr [TStr s], t)"
    and "read_json Elements d (json_string s @ CHR '','' # t)
      = (case read_json Elements d t of Some (TArr vs, r) \<Rightarrow> Some (TArr (TStr s # vs), r) | _ \<Rightarrow> None)"
  by (subst read_json.simps(2), simp add: read_string [OF assms])+

lemma read_members:
  "ms \<noteq> [] \<Longrightarrow> list_all (\<lambda>(key, s). valid_utf8 key \<and> valid_utf8 s) ms \<Longrightarrow>
    read_json Members d (members_text ms) = Some (TObj (map (apsnd TStr) ms), [])"
  by (induction ms rule: members_text.induct) (simp_all add: read_member)

lemma read_object:
  assumes "list_all (\<lambda>(key, s). valid_utf8 key \<and> valid_utf8 s) ms" and "0 < d"
  shows "read_json Value d (object_text ms) = Some (TObj (map (apsnd TStr) ms), [])"
proof (cases ms rule: members_text.cases)
  case 1
  then show ?thesis using assms(2) by (subst read_json.simps(1), simp add: object_text_def)
next
  case (2 key s)
  then show ?thesis using assms read_members [of ms "d - 1"] by (subst read_json.simps(1), simp add: object_text_def json_string_front)
next
  case (3 key s m ms')
  then show ?thesis using assms read_members [of ms "d - 1"] by (subst read_json.simps(1), simp add: object_text_def json_string_front)
qed

lemma object_tree:
  assumes "list_all (\<lambda>(key, s). valid_utf8 key \<and> valid_utf8 s) ms"
  shows "json_tree (object_text ms) = Some (TObj (map (apsnd TStr) ms))"
    and "length (object_text ms) \<le> n \<Longrightarrow> read_body n (object_text ms) = Some (TObj (map (apsnd TStr) ms))"
  using read_object [OF assms, of max_nesting] by (simp_all add: json_tree_def read_body_def max_nesting_def)

text \<open>Texts that are put together.\<close>

lemma rune_len_append: "rune_len a = Some n \<Longrightarrow> rune_len (a @ b) = Some n"
  by (erule rune_cases) (auto simp: rune_len.simps)

lemma valid_append: "valid_utf8 a \<Longrightarrow> valid_utf8 b \<Longrightarrow> valid_utf8 (a @ b)"
proof (induction a rule: valid_utf8.induct)
  case (1 a)
  show ?case
  proof (cases "a = []")
    case False
    then obtain n where n: "rune_len a = Some n" "valid_utf8 (drop n a)" using "1.prems"(1) by (auto simp: valid_utf8.simps [of a] split: option.splits)
    then have "valid_utf8 (drop n a @ b)" using "1.IH" "1.prems"(2) False by blast
    moreover have "drop n (a @ b) = drop n a @ b" using rune_len_bounds [OF n(1)] by simp
    ultimately show ?thesis using rune_len_append [OF n(1), of b] by (simp add: valid_utf8.simps [of "a @ b"])
  qed (use "1.prems" in simp)
qed

lemma valid_ascii: "\<forall>c\<in>set s. byte c < 128 \<Longrightarrow> valid_utf8 s"
  by (induction s) (simp_all add: valid_utf8.simps rune_len.simps)

end
