(* ===== verification/Mail.thy ===== *)
theory Mail
  imports Audit_Log Json_Text
begin

text \<open>
  Outgoing mail: the message and its JSON encoding, the AMQP publisher (\<open>queue/publisher.go\<close>), the
  SMTP sender (\<open>mailer/mailer.go\<close>), the invitation service (\<open>invitation/service.go\<close>) and the
  delivery loop of the worker (\<open>cmd/worker/main.go\<close>). The broker and the SMTP server are outside;
  each call to them succeeds, fails, or takes effect with its acknowledgement lost. The locale
  \<open>mail_publisher\<close> is the interface \<open>Publisher\<close> of the services that send mail. Text is UTF-8,
  as bytes.
\<close>

section \<open>mailer.go: the message\<close>

record mail_message =
  mm_to :: string
  mm_subject :: string
  mm_text :: string

text \<open>\<open>strings.NewReplacer("\r", "", "\n", "")\<close>.\<close>

definition sanitize :: "string \<Rightarrow> string" where
  "sanitize value = filter (\<lambda>c. c \<noteq> CHR 0x0D \<and> c \<noteq> CHR 0x0A) value"

definition crlf :: string where
  "crlf = [CHR 0x0D, CHR 0x0A]"

definition render :: "string \<Rightarrow> mail_message \<Rightarrow> string" where
  "render from m =
     ''From: '' @ sanitize from @ crlf @
     ''To: '' @ sanitize (mm_to m) @ crlf @
     ''Subject: '' @ sanitize (mm_subject m) @ crlf @
     ''MIME-Version: 1.0'' @ crlf @
     ''Content-Type: text/plain; charset=UTF-8'' @ crlf @ crlf @
     mm_text m"

text \<open>
  \<open>json.Marshal\<close> of the message: its three fields in order. It cannot fail. \<open>json.Unmarshal\<close> into a message, \<open>None\<close> for an
  error, of which the worker only logs the text.
\<close>

definition marshal_message :: "mail_message \<Rightarrow> string" where
  "marshal_message m = object_text [(''To'', mm_to m), (''Subject'', mm_subject m), (''Text'', mm_text m)]"

definition unmarshal_message :: "string \<Rightarrow> mail_message option" where
  "unmarshal_message body = (case Option.bind (json_tree body) members of
       None \<Rightarrow> None
     | Some ms \<Rightarrow>
         let (to, ok1) = string_of ''to'' ms; (subject, ok2) = string_of ''subject'' ms; (txt, ok3) = string_of ''text'' ms
         in if ok1 \<and> ok2 \<and> ok3 then Some \<lparr>mm_to = to, mm_subject = subject, mm_text = txt\<rparr> else None)"

definition utf8_message :: "mail_message \<Rightarrow> bool" where
  "utf8_message m \<longleftrightarrow> valid_utf8 (mm_to m) \<and> valid_utf8 (mm_subject m) \<and> valid_utf8 (mm_text m)"

section \<open>publisher.go\<close>

text \<open>
  \<open>Publish\<close> reuses the channel while the connection is alive, reconnects otherwise, and drops
  both handles after a failed broker call. \<open>amqp_call\<close> is a call to the client library without
  an effect the model sees; \<open>broker_closed\<close> is \<open>conn.IsClosed()\<close>.
\<close>

type_synonym publisher = "string \<Rightarrow> unit io"

definition outside_call :: "unit io" where
  "outside_call = State (\<lambda>w. (case fault_now w of
     Done \<Rightarrow> Inr () | Failed m \<Rightarrow> Inl (ExtError m) | LostAck m \<Rightarrow> Inl (ExtError m), tickd w))"

definition broker_closed :: "bool eff" where
  "broker_closed = State (\<lambda>w. (fault_now w \<noteq> Done, tickd w))"

definition has_channel :: "bool eff" where
  "has_channel = State (\<lambda>w. (w_channel w, w))"

definition set_channel :: "bool \<Rightarrow> unit eff" where
  "set_channel b = State (\<lambda>w. ((), w\<lparr>w_channel := b\<rparr>))"

definition basic_publish :: publisher where
  "basic_publish payload = State (\<lambda>w. case fault_now w of
     Done \<Rightarrow> (Inr (), (tickd w)\<lparr>w_mq := w_mq w @ [payload]\<rparr>)
   | Failed m \<Rightarrow> (Inl (ExtError m), tickd w)
   | LostAck m \<Rightarrow> (Inl (ExtError m), (tickd w)\<lparr>w_mq := w_mq w @ [payload]\<rparr>))"

definition open_channel :: "unit io" where
  "open_channel = do {
     present \<leftarrow> has_channel;
     closed \<leftarrow> (if present then broker_closed else ret True);
     if present \<and> \<not> closed then ok ()
     else check ''queue: dialing broker: '' outside_call (\<lambda>_.
          check ''queue: opening channel: '' outside_call (\<lambda>_. do { set_channel True; ok () })) }"

definition amqp_publish :: "string \<Rightarrow> publisher" where
  "amqp_publish queue payload =
     attempt open_channel (\<lambda>_. do {
       q \<leftarrow> outside_call;
       case q of
         Inl e \<Rightarrow> do { set_channel False; fail (wrap (''queue: declaring '' @ queue @ '': '') e) }
       | Inr _ \<Rightarrow> do {
           p \<leftarrow> basic_publish payload;
           case p of
             Inl e \<Rightarrow> do { set_channel False; fail (wrap (''queue: publishing to '' @ queue @ '': '') e) }
           | Inr _ \<Rightarrow> ok () } })"

definition amqp_close :: "unit io" where
  "amqp_close = do { set_channel False; ok () }"

text \<open>Rules that forget the oracle, as for the statements of the database.\<close>

lemma outside_call_step [wp_steps]:
  assumes "moves w0 d t q w"
    and "\<And>m w'. \<not> reliable w0 \<Longrightarrow> moves w0 d t q w' \<Longrightarrow> w_clock w \<le> w_clock w' \<Longrightarrow> Q (Inl (ExtError m)) w'"
    and "\<And>w'. moves w0 d t q w' \<Longrightarrow> w_clock w \<le> w_clock w' \<Longrightarrow> Q (Inr ()) w'"
  shows "wp outside_call Q w"
  using assms(2) [OF moves_reliable [OF assms(1)] moves_tickd [OF assms(1)]] assms(3) [OF moves_tickd [OF assms(1)]]
  by (auto simp: outside_call_def wp_State split: outcome.splits)

lemma basic_publish_step [wp_steps]:
  assumes "moves w0 d t q w"
    and "\<And>m w'. \<not> reliable w0 \<Longrightarrow> moves w0 d t q w' \<Longrightarrow> w_clock w \<le> w_clock w' \<Longrightarrow> Q (Inl (ExtError m)) w'"
    and "\<And>m w'. \<not> reliable w0 \<Longrightarrow> moves w0 d t (q @ [payload]) w' \<Longrightarrow> w_clock w \<le> w_clock w' \<Longrightarrow> Q (Inl (ExtError m)) w'"
    and "\<And>w'. moves w0 d t (q @ [payload]) w' \<Longrightarrow> w_clock w \<le> w_clock w' \<Longrightarrow> Q (Inr ()) w'"
  shows "wp (basic_publish payload) Q w"
  using assms(2) [OF moves_reliable [OF assms(1)] moves_tickd [OF assms(1)]] movesD(3) [OF assms(1)]
    assms(3) [OF moves_reliable [OF assms(1)] moves_mq [OF assms(1)]] assms(4) [OF moves_mq [OF assms(1)]]
  by (auto simp: basic_publish_def wp_State split: outcome.splits)

lemma channel_steps [wp_steps]:
  "moves w0 d t q w \<Longrightarrow> (\<And>b w'. moves w0 d t q w' \<Longrightarrow> w_clock w \<le> w_clock w' \<Longrightarrow> Q b w') \<Longrightarrow> wp broker_closed Q w"
  "moves w0 d t q w \<Longrightarrow> (\<And>b. moves w0 d t q w \<Longrightarrow> Q b w) \<Longrightarrow> wp has_channel Q w"
  by (simp_all add: broker_closed_def has_channel_def wp_State moves_tickd)

lemma set_channel_step [wp_steps]:
  "moves w0 d t q w \<Longrightarrow> (\<And>w'. moves w0 d t q w' \<Longrightarrow> w_clock w \<le> w_clock w' \<Longrightarrow> R () w') \<Longrightarrow> wp (set_channel b) R w"
  by (simp add: set_channel_def wp_State)

section \<open>The interface Publisher\<close>

text \<open>
  A publish that succeeds has queued exactly that payload; one that fails has queued it at most
  once. Nothing else of the world the services see changes.
\<close>

locale mail_publisher =
  fixes publish :: publisher
  assumes publish_law: "moves w0 d t q w \<Longrightarrow>
      (\<And>e w'. \<not> reliable w0 \<Longrightarrow> moves w0 d t q w' \<Longrightarrow> w_clock w \<le> w_clock w' \<Longrightarrow> Q (Inl e) w') \<Longrightarrow>
      (\<And>e w'. \<not> reliable w0 \<Longrightarrow> moves w0 d t (q @ [payload]) w' \<Longrightarrow> w_clock w \<le> w_clock w' \<Longrightarrow> Q (Inl e) w') \<Longrightarrow>
      (\<And>w'. moves w0 d t (q @ [payload]) w' \<Longrightarrow> w_clock w \<le> w_clock w' \<Longrightarrow> Q (Inr ()) w') \<Longrightarrow>
      wp (publish payload) Q w"

lemma amqp_publish_step:
  assumes "moves w0 d t q w"
    and "\<And>e w'. \<not> reliable w0 \<Longrightarrow> moves w0 d t q w' \<Longrightarrow> w_clock w \<le> w_clock w' \<Longrightarrow> Q (Inl e) w'"
    and "\<And>e w'. \<not> reliable w0 \<Longrightarrow> moves w0 d t (q @ [payload]) w' \<Longrightarrow> w_clock w \<le> w_clock w' \<Longrightarrow> Q (Inl e) w'"
    and "\<And>w'. moves w0 d t (q @ [payload]) w' \<Longrightarrow> w_clock w \<le> w_clock w' \<Longrightarrow> Q (Inr ()) w'"
  shows "wp (amqp_publish queue payload) Q w"
  unfolding amqp_publish_def open_channel_def
  apply (insert assms(1))
  by (((erule wp_steps)+)?; clarsimp simp: wp_code assms(2-4); (intro conjI impI)?)+

interpretation amqp: mail_publisher "amqp_publish queue" for queue
  by unfold_locales (rule amqp_publish_step)

section \<open>mailer.go: delivery\<close>

definition default_smtp_timeout :: int where
  "default_smtp_timeout = 5 * second"

text \<open>
  The SMTP conversation. The server takes the message when the data is closed; \<open>host_of\<close> is
  \<open>net.SplitHostPort\<close>, a parameter of the definition.
\<close>

record smtp =
  sm_addr :: string
  sm_from :: string
  sm_timeout :: int

definition new_smtp :: "string \<Rightarrow> string \<Rightarrow> smtp" where
  "new_smtp addr from = \<lparr>sm_addr = addr, sm_from = from, sm_timeout = default_smtp_timeout\<rparr>"

definition smtp_accept :: "string \<Rightarrow> string \<Rightarrow> string \<Rightarrow> unit io" where
  "smtp_accept from rcpt data = State (\<lambda>w. case fault_now w of
     Done \<Rightarrow> (Inr (), (tickd w)\<lparr>w_sent := w_sent w @ [(from, rcpt, data)]\<rparr>)
   | Failed m \<Rightarrow> (Inl (ExtError m), tickd w)
   | LostAck m \<Rightarrow> (Inl (ExtError m), (tickd w)\<lparr>w_sent := w_sent w @ [(from, rcpt, data)]\<rparr>))"

definition smtp_send :: "(string \<Rightarrow> gerror + string) \<Rightarrow> smtp \<Rightarrow> mail_message \<Rightarrow> unit io" where
  "smtp_send host_of s m =
     (case host_of (sm_addr s) of
        Inl e \<Rightarrow> fail (wrap (''mailer: bad SMTP address '' @ json_string (sm_addr s) @ '': '') e)
      | Inr host \<Rightarrow>
          check ''mailer: dialing SMTP: '' outside_call (\<lambda>_.
          check ''mailer: SMTP handshake: '' outside_call (\<lambda>_.
          check ''mailer: MAIL FROM: '' outside_call (\<lambda>_.
          check ''mailer: RCPT TO: '' outside_call (\<lambda>_.
          check ''mailer: DATA: '' outside_call (\<lambda>_.
          check ''mailer: writing body: '' outside_call (\<lambda>_.
          check ''mailer: closing body: '' (smtp_accept (sm_from s) (mm_to m) (render (sm_from s) m)) (\<lambda>_.
          outside_call))))))))"

section \<open>cmd/worker: one delivery\<close>

datatype verdict = Ack | Nack

text \<open>
  \<open>handleDelivery\<close> over the payloads of the deliveries: unreadable messages and messages that fail
  to send are rejected without requeueing, the others acknowledged.
\<close>

fun handle_delivery ::
  "(mail_message \<Rightarrow> unit io) \<Rightarrow> string list \<Rightarrow> verdict list eff" where
  "handle_delivery send [] = ret []"
| "handle_delivery send (body # rest) =
     (case unmarshal_message body of
        None \<Rightarrow> do { vs \<leftarrow> handle_delivery send rest; ret (Nack # vs) }
      | Some m \<Rightarrow> do {
          r \<leftarrow> send m;
          vs \<leftarrow> handle_delivery send rest;
          ret ((if is_ok r then Ack else Nack) # vs) })"

text \<open>
  The loop of \<open>run\<close> over what happens, in order: a delivery arrives, the broker closes the channel
  of deliveries, or the process receives a termination signal. After the signal the code ranges
  over the same channel, so it handles deliveries until the broker closes it. The result is
  \<open>None\<close> while the loop still waits, and the error or success of \<open>run\<close> once it returns.
\<close>

datatype worker_event = Delivery string | Broker_Closed | Terminate

fun drain :: "worker_event list \<Rightarrow> string list \<times> bool" where
  "drain [] = ([], False)"
| "drain (Broker_Closed # es) = ([], True)"
| "drain (Terminate # es) = drain es"
| "drain (Delivery body # es) = (let (bodies, closed) = drain es in (body # bodies, closed))"

fun worker_loop ::
  "(mail_message \<Rightarrow> unit io) \<Rightarrow> worker_event list \<Rightarrow>
   (verdict list \<times> (gerror + unit) option) eff" where
  "worker_loop send [] = ret ([], None)"
| "worker_loop send (Broker_Closed # es) = ret ([], Some (Inl (Err ''broker closed the delivery channel'')))"
| "worker_loop send (Delivery body # es) = do {
     vs \<leftarrow> handle_delivery send [body];
     (rest, r) \<leftarrow> worker_loop send es;
     ret (vs @ rest, r) }"
| "worker_loop send (Terminate # es) = do {
     let (bodies, closed) = drain es;
     vs \<leftarrow> handle_delivery send bodies;
     ret (vs, if closed then Some (Inr ()) else None) }"

section \<open>invitation/service.go\<close>

record invitation =
  inv_publisher :: "publisher option"
  inv_origin :: string

definition new_invitation :: "publisher option \<Rightarrow> string \<Rightarrow> invitation" where
  "new_invitation p origin = \<lparr>inv_publisher = p, inv_origin = trim_right_char (CHR ''/'') (trim_space origin)\<rparr>"

definition invitation_text :: "string \<Rightarrow> string \<Rightarrow> string" where
  "invitation_text greeting place =
     greeting @ '','' @ [CHR 0x0A, CHR 0x0A] @ ''Un administrador te invit'' @ [CHR 0xC3, CHR 0xB3] @
     '' al panel de melZone.'' @ [CHR 0x0A, CHR 0x0A] @ ''Si todav'' @ [CHR 0xC3, CHR 0xAD] @
     ''a no ten'' @ [CHR 0xC3, CHR 0xA9] @ ''s cuenta con esta direcci'' @ [CHR 0xC3, CHR 0xB3] @
     ''n, registrate ac'' @ [CHR 0xC3, CHR 0xA1] @ '': '' @
     place @ [CHR 0x0A, CHR 0x0A] @ ''Te vamos a mandar un c'' @ [CHR 0xC3, CHR 0xB3] @ ''digo de seis d'' @
     [CHR 0xC3, CHR 0xAD] @ ''gitos para confirmar la direcci'' @ [CHR 0xC3, CHR 0xB3] @
     ''n; la cuenta se crea'' @ [CHR 0x0A] @ ''reci'' @ [CHR 0xC3, CHR 0xA9] @
     ''n cuando lo ingreses.'' @ [CHR 0x0A, CHR 0x0A] @ ''Si ya ten'' @ [CHR 0xC3, CHR 0xA9] @
     ''s cuenta, inici'' @ [CHR 0xC3, CHR 0xA1] @ '' sesi'' @ [CHR 0xC3, CHR 0xB3] @
     ''n con la misma direcci'' @ [CHR 0xC3, CHR 0xB3] @ ''n. El administrador te va a dar el'' @
     [CHR 0x0A] @ ''acceso que necesites: la invitaci'' @ [CHR 0xC3, CHR 0xB3] @ ''n por s'' @
     [CHR 0xC3, CHR 0xAD] @ '' sola no otorga nada.'' @ [CHR 0x0A, CHR 0x0A] @
     ''Si no esperabas este mensaje, pod'' @ [CHR 0xC3, CHR 0xA9] @ ''s ignorarlo.'' @ [CHR 0x0A]"

definition invite :: "invitation \<Rightarrow> string \<Rightarrow> string \<Rightarrow> unit io" where
  "invite s email name =
     (case inv_publisher s of
        None \<Rightarrow> fail (Err ''invitation: no publisher configured'')
      | Some publish \<Rightarrow>
          let trimmed = trim_space name;
              greeting = (if trimmed \<noteq> [] then ''Hola '' @ trimmed else ''Hola'');
              place = (if inv_origin s = [] then ''la p'' @ [CHR 0xC3, CHR 0xA1] @ ''gina de registro de melZone''
                       else inv_origin s @ ''/registro'')
          in check ''invitation: queueing mail: '' (publish (marshal_message
               \<lparr>mm_to = email, mm_subject = ''Te invitaron al panel de melZone'',
                mm_text = invitation_text greeting place\<rparr>)) ok)"

section \<open>Properties\<close>

text \<open>The lines of a message: what stands between the line ends.\<close>

fun mail_lines :: "string \<Rightarrow> string list" where
  "mail_lines [] = [[]]"
| "mail_lines (c # s) =
     (if c = CHR 0x0D \<and> take 1 s = [CHR 0x0A] then [] # mail_lines (drop 1 s)
      else (case mail_lines s of [] \<Rightarrow> [[c]] | l # ls \<Rightarrow> (c # l) # ls))"

lemma mail_lines_ne: "mail_lines s \<noteq> []"
  by (cases s) (auto split: list.splits)

lemma mail_lines_line: "CHR 0x0D \<notin> set a \<Longrightarrow> mail_lines (a @ crlf @ b) = a # mail_lines b"
  by (induction a) (auto simp: crlf_def split: list.splits)

lemma sanitize_clean: "CHR 0x0D \<notin> set (sanitize s)" "CHR 0x0A \<notin> set (sanitize s)"
  by (simp_all add: sanitize_def)

lemma mail_lines_head:
  "CHR 0x0D \<notin> set h \<Longrightarrow> mail_lines (h @ sanitize a @ crlf @ b) = (h @ sanitize a) # mail_lines b"
  using mail_lines_line [of "h @ sanitize a" b] by (simp add: sanitize_clean)


text \<open>One delivery is answered once, in order, and acknowledged only if the message was
  readable and its sending reported success.\<close>

theorem deliveries_answered:
  assumes "run_state (handle_delivery send bodies) w = (vs, w')"
  shows "length vs = length bodies \<and>
    (\<forall>i < length bodies. vs ! i = Ack \<longrightarrow> (\<exists>m w1 w2. unmarshal_message (bodies ! i) = Some m \<and> run_state (send m) w1 = (Inr (), w2)))"
  using assms
proof (induction bodies arbitrary: w vs)
  case Nil
  then show ?case by simp
next
  case (Cons body rest)
  show ?case
  proof (cases "unmarshal_message body")
    case None
    then obtain vs1 where "run_state (handle_delivery send rest) w = (vs1, w')" "vs = Nack # vs1"
      using Cons.prems by (auto split: prod.splits)
    then show ?thesis using Cons.IH [of w vs1] by (auto simp: nth_Cons split: nat.splits)
  next
    case (Some m)
    then obtain r w1 vs1 where "run_state (send m) w = (r, w1)"
      "run_state (handle_delivery send rest) w1 = (vs1, w')" "vs = (if is_ok r then Ack else Nack) # vs1"
      using Cons.prems by (auto split: prod.splits)
    then show ?thesis using Cons.IH [of w1 vs1] Some
      by (cases r) (auto simp: nth_Cons split: nat.splits)
  qed
qed

text \<open>After a termination signal the worker returns only once the broker has closed the
  delivery channel: until then it keeps taking deliveries, whatever time its shutdown allows.\<close>

theorem worker_drain_waits:
  assumes "run_state (worker_loop send (map Delivery bodies @ Terminate # es)) w = ((vs, r), w')"
  shows "r \<noteq> None \<longleftrightarrow> Broker_Closed \<in> set es"
proof -
  have closed: "snd (drain es) \<longleftrightarrow> Broker_Closed \<in> set es"
    by (induction es rule: drain.induct) (auto split: prod.splits)
  show ?thesis using assms
    by (induction bodies arbitrary: w vs) (auto simp: Let_def closed [symmetric] split: prod.splits if_splits)
qed

text \<open>An invitation queues one message to the invited address, and only that; if it reports
  success the message is in the queue, and the answer does not depend on whether the address has
  an account, which the service never looks up.\<close>

theorem invite_queues:
  assumes "inv_publisher s = Some (amqp_publish queue)" and "run_state (invite s email name) w = (r, w')"
  shows "w_db w' = w_db w \<and> (w_mq w' = w_mq w \<and> \<not> is_ok r \<or> (\<exists>m. w_mq w' = w_mq w @ [marshal_message m] \<and> mm_to m = email))"
proof -
  have "wp (invite s email name) (\<lambda>r w'. w_db w' = w_db w \<and> (w_mq w' = w_mq w \<and> \<not> is_ok r
      \<or> (\<exists>m. w_mq w' = w_mq w @ [marshal_message m] \<and> mm_to m = email))) w"
    unfolding invite_def assms(1) Let_def
    by (rule wp_start) (auto simp: wp_code dest: movesD elim!: amqp_publish_step intro!: exI)
  from wpD [OF this assms(2)] show ?thesis .
qed

section \<open>Worked examples\<close>

text \<open>Two deliveries, one of them unreadable, with a sender that always succeeds.\<close>

definition demo_message :: mail_message where
  "demo_message = \<lparr>mm_to = ''ana@example.com'', mm_subject = ''A & B'', mm_text = ''Hola'' @ [CHR 0x0A, CHR 0xC3, CHR 0xB3]\<rparr>"

lemma deliveries_answered_witness:
  "length (fst (run_state (handle_delivery (\<lambda>m. ok ()) [''bad'', ''ana'']) (calm empty_db))) = 2"
  using deliveries_answered [where bodies = "[''bad'', ''ana'']" and send = "\<lambda>m. ok ()"
      and w = "calm empty_db", OF prod.collapse [symmetric]]
  by (simp del: handle_delivery.simps)

lemma worker_drain_waits_witness:
  "snd (fst (run_state (worker_loop (\<lambda>m. ok ()) [Delivery ''ana'', Terminate, Delivery ''bob'']) (calm empty_db))) = None"
  using worker_drain_waits [where bodies = "[''ana'']" and es = "[Delivery ''bob'']" and send = "\<lambda>m. ok ()" and w = "calm empty_db", OF surjective_pairing [THEN trans, OF arg_cong [where f = "\<lambda>x. (x, _)", OF surjective_pairing]]]
  by (simp del: worker_loop.simps drain.simps)

lemma invite_queues_witness:
  "w_db (snd (run_state (invite (new_invitation (Some (amqp_publish ''mail'')) ''https://m'') ''ana@example.com'' ''Ana'')
     (calm empty_db))) = empty_db"
  using invite_queues [where s = "new_invitation (Some (amqp_publish ''mail'')) ''https://m''" and queue = "''mail''",
      OF _ prod.collapse [symmetric]]
  by (simp add: new_invitation_def)

end
