(* ===== verification/Login.thy ===== *)
theory Login
  imports Session
begin

text \<open>
  Package \<open>login\<close>: authentication with email and password, and the lockout counter
  (\<open>service.go\<close>, \<open>postgres.go\<close>). A service value is the record of its collaborators. \<open>login_spec\<close>
  says what a caller and the user table can see of one attempt; \<open>login_effect\<close> proves the code
  implements it under every failure, for any issuer and recorder that keep their contracts.
\<close>

section \<open>service.go\<close>

definition err_invalid_credentials :: gerror where
  "err_invalid_credentials = Err ''login: invalid credentials''"

definition err_login_not_found :: gerror where
  "err_login_not_found = Err ''login: user not found''"

definition default_max_attempts :: int where
  "default_max_attempts = 5"

definition default_lock_duration :: int where
  "default_lock_duration = 15 * minute"

definition status_active :: string where
  "status_active = ''ACTIVE''"

record login_user =
  lu_id :: string
  lu_email :: string
  lu_hash :: string
  lu_status :: string
  lu_failed :: int
  lu_locked :: "int option"

record login_store =
  ls_by_email :: "string \<Rightarrow> login_user io"
  ls_record_failure :: "string \<Rightarrow> int option \<Rightarrow> unit io"
  ls_reset_failures :: "string \<Rightarrow> unit io"

text \<open>
  \<open>Service\<close>: \<open>lg_dummy\<close> is the value of the package variable \<open>dummyHash\<close>. The clock is the
  world's clock (\<open>Now: time.Now\<close>).
\<close>

record login_service =
  lg_store :: login_store
  lg_issuer :: issuer
  lg_auditor :: "recorder option"
  lg_verify :: "string \<Rightarrow> string \<Rightarrow> gerror + bool"
  lg_dummy :: string
  lg_max_attempts :: int
  lg_lock_duration :: int

definition new_login :: "idkey \<Rightarrow> string \<Rightarrow> login_store \<Rightarrow> issuer \<Rightarrow> recorder option \<Rightarrow> login_service" where
  "new_login idkey dummy store iss aud =
     \<lparr>lg_store = store, lg_issuer = iss, lg_auditor = aud, lg_verify = verify_password idkey,
      lg_dummy = dummy, lg_max_attempts = default_max_attempts,
      lg_lock_duration = default_lock_duration\<rparr>"

definition max_attempts :: "login_service \<Rightarrow> int" where
  "max_attempts s = (if lg_max_attempts s \<le> 0 then default_max_attempts else lg_max_attempts s)"

definition lock_duration :: "login_service \<Rightarrow> int" where
  "lock_duration s = (if lg_lock_duration s \<le> 0 then default_lock_duration else lg_lock_duration s)"

definition normalize_email :: "string \<Rightarrow> string" where
  "normalize_email email = to_lower (trim_space email)"

definition login_event :: "string \<Rightarrow> string \<Rightarrow> string \<Rightarrow> session_meta \<Rightarrow> (string \<times> jval) list \<Rightarrow> audit_event" where
  "login_event name uid email meta md = (event name)\<lparr>ev_user := uid, ev_email := email,
     ev_ip := m_ip meta, ev_user_agent := m_user_agent meta, ev_metadata := md\<rparr>"

definition fail_attempt ::
  "login_service \<Rightarrow> login_user \<Rightarrow> string \<Rightarrow> session_meta \<Rightarrow> int \<Rightarrow> gerror option \<Rightarrow> tokens io" where
  "fail_attempt s user email meta now verify_err =
     (let failures = lu_failed user + 1;
          lock_until = (if max_attempts s \<le> failures then Some (now + lock_duration s) else None)
      in check ''login: recording failure: '' (ls_record_failure (lg_store s) (lu_id user) lock_until) (\<lambda>_.
         if lock_until \<noteq> None then do {
           best_effort (lg_auditor s) (login_event event_login_locked (lu_id user) email meta
             [(''attempts'', JInt failures), (''retry_after_seconds'', JInt (seconds (lock_duration s)))]);
           fail (LockedError (lock_duration s)) }
         else do {
           let reason = (if verify_err \<noteq> None then ''unreadable_hash'' else ''wrong_password'');
           best_effort (lg_auditor s) (login_event event_login_failed (lu_id user) email meta
             [(''reason'', JStr reason), (''attempts'', JInt failures)]);
           fail err_invalid_credentials }))"

text \<open>The results of the verifications that only pay for time are discarded, as in the code.\<close>

definition login :: "login_service \<Rightarrow> string \<Rightarrow> string \<Rightarrow> session_meta \<Rightarrow> tokens io" where
  "login s raw_email password meta = do {
     let email = normalize_email raw_email;
     u \<leftarrow> ls_by_email (lg_store s) email;
     case u of
       Inl e \<Rightarrow>
         if errors_is e err_login_not_found then do {
           let _ = lg_verify s (lg_dummy s) password;
           best_effort (lg_auditor s) (login_event event_login_failed [] email meta
             [(''reason'', JStr ''unknown_account'')]);
           fail err_invalid_credentials }
         else fail (wrap ''login: reading user: '' e)
     | Inr user \<Rightarrow> do {
         now \<leftarrow> read_clock;
         if (\<exists>l. lu_locked user = Some l \<and> now < l) then do {
           let retry = the (lu_locked user) - now;
           best_effort (lg_auditor s) (login_event event_login_locked (lu_id user) email meta
             [(''retry_after_seconds'', JInt (seconds retry)), (''reason'', JStr ''still_locked'')]);
           fail (LockedError retry) }
         else if lu_status user \<noteq> status_active then do {
           let _ = lg_verify s (lu_hash user) password;
           best_effort (lg_auditor s) (login_event event_login_failed (lu_id user) email meta
             [(''reason'', JStr ''account_not_active'')]);
           fail err_invalid_credentials }
         else (case lg_verify s (lu_hash user) password of
             Inl e \<Rightarrow> fail_attempt s user email meta now (Some e)
           | Inr ok' \<Rightarrow>
               if \<not> ok' then fail_attempt s user email meta now None
               else check ''login: resetting failures: '' (ls_reset_failures (lg_store s) (lu_id user)) (\<lambda>_.
                    attempt (lg_issuer s (lu_id user) meta) (\<lambda>toks. do {
                      best_effort (lg_auditor s) (login_event event_login_succeeded (lu_id user) email meta []);
                      best_effort (lg_auditor s) ((event event_session_created)\<lparr>ev_user := lu_id user,
                        ev_ip := m_ip meta, ev_user_agent := m_user_agent meta\<rparr>);
                      ok toks }))) } }"

section \<open>postgres.go\<close>

definition login_user_of :: "user_row \<Rightarrow> login_user" where
  "login_user_of u = \<lparr>lu_id = u_id u, lu_email = coalesce_empty (u_email u),
     lu_hash = coalesce_empty (u_password u), lu_status = u_status u, lu_failed = u_failed u,
     lu_locked = u_locked_until u\<rparr>"

definition pg_by_email :: "string \<Rightarrow> login_user io" where
  "pg_by_email email = do {
     r \<leftarrow> pool_exec (query_stmt (\<lambda>d. select_one (owns_email email) (tb_user d)));
     case r of
       Inl e \<Rightarrow> fail (wrap ''selecting tb_user: '' e)
     | Inr None \<Rightarrow> fail err_login_not_found
     | Inr (Some u) \<Rightarrow> ok (login_user_of u) }"

definition failure_recorded :: "int option \<Rightarrow> int \<Rightarrow> user_row \<Rightarrow> user_row" where
  "failure_recorded lock_until t u = u\<lparr>u_failed := u_failed u + 1,
     u_locked_until := (case lock_until of None \<Rightarrow> u_locked_until u | Some l \<Rightarrow> Some l), u_updated := t\<rparr>"

definition pg_record_failure :: "string \<Rightarrow> int option \<Rightarrow> unit io" where
  "pg_record_failure uid lock_until = check ''updating failed attempts: '' (pool_exec (update_stmt (\<lambda>t d.
     d\<lparr>tb_user := update_where (\<lambda>u. u_id u = uid) (failure_recorded lock_until t) (tb_user d)\<rparr>))) ok"

definition failures_reset :: "int \<Rightarrow> user_row \<Rightarrow> user_row" where
  "failures_reset t u = u\<lparr>u_failed := 0, u_locked_until := None, u_updated := t\<rparr>"

definition pg_reset_failures :: "string \<Rightarrow> unit io" where
  "pg_reset_failures uid = check ''resetting failed attempts: '' (pool_exec (update_stmt (\<lambda>t d.
     d\<lparr>tb_user := update_where (\<lambda>u. u_id u = uid) (failures_reset t) (tb_user d)\<rparr>))) ok"

definition pg_login_store :: login_store where
  "pg_login_store = \<lparr>ls_by_email = pg_by_email, ls_record_failure = pg_record_failure,
     ls_reset_failures = pg_reset_failures\<rparr>"

lemma pg_login_store_simps [simp]:
  "ls_by_email pg_login_store = pg_by_email" "ls_record_failure pg_login_store = pg_record_failure"
  "ls_reset_failures pg_login_store = pg_reset_failures"
  by (simp_all add: pg_login_store_def)

lemma login_user_of_simps [simp]:
  "lu_id (login_user_of u) = u_id u" "lu_hash (login_user_of u) = coalesce_empty (u_password u)"
  "lu_status (login_user_of u) = u_status u" "lu_failed (login_user_of u) = u_failed u"
  "lu_locked (login_user_of u) = u_locked_until u"
  by (simp_all add: login_user_of_def)

lemma login_errors [simp]:
  "errors_is err_login_not_found err_login_not_found" "ExtError m \<noteq> err_login_not_found"
  "Wrapf p e x \<noteq> err_login_not_found" "Wrapf p e x \<noteq> err_invalid_credentials"
  "LockedError l \<noteq> err_invalid_credentials" "err_invalid_credentials \<noteq> LockedError l"
  by (simp_all add: err_login_not_found_def err_invalid_credentials_def)

section \<open>What one attempt does\<close>

lemma pg_by_email_step [wp_steps]:
  assumes "moves w0 d t q w"
    and "\<And>m w'. \<not> reliable w0 \<Longrightarrow> moves w0 d t q w' \<Longrightarrow> w_clock w \<le> w_clock w' \<Longrightarrow>
           Q (Inl (wrap ''selecting tb_user: '' (ExtError m))) w'"
    and "\<And>w'. select_one (owns_email email) (tb_user d) = None \<Longrightarrow> moves w0 d t q w' \<Longrightarrow>
           w_clock w \<le> w_clock w' \<Longrightarrow> Q (Inl err_login_not_found) w'"
    and "\<And>u w'. select_one (owns_email email) (tb_user d) = Some u \<Longrightarrow> moves w0 d t q w' \<Longrightarrow>
           w_clock w \<le> w_clock w' \<Longrightarrow> Q (Inr (login_user_of u)) w'"
  shows "wp (pg_by_email email) Q w"
proof -
  have d: "w_db w = d" using assms(1) by (rule movesD)
  have m: "moves w0 d t q ((tickd w)\<lparr>w_db := d\<rparr>)" "moves w0 d t q (tickd w)"
    using assms(1) by (auto intro: moves_db moves_tickd)
  show ?thesis
    using assms(2) [OF moves_reliable [OF assms(1)] m(1)] assms(2) [OF moves_reliable [OF assms(1)] m(2)]
      assms(3,4) [OF _ m(1)]
    by (auto simp: pg_by_email_def wp d split: outcome.splits option.splits)
qed

lemma pg_record_failure_step [wp_steps]:
  assumes "moves w0 d t q w"
    and "\<And>p e w'. \<not> reliable w0 \<Longrightarrow> moves w0 d t q w' \<Longrightarrow> w_clock w \<le> w_clock w' \<Longrightarrow> Q (Inl (wrap p e)) w'"
    and "\<And>w' x. moves w0 (d\<lparr>tb_user := update_where (\<lambda>u. u_id u = uid) (failure_recorded l x) (tb_user d)\<rparr>)
           t q w' \<Longrightarrow> w_clock w \<le> w_clock w' \<Longrightarrow> Q (Inr ()) w'"
    and "\<And>p e x w'. \<not> reliable w0 \<Longrightarrow> moves w0 (d\<lparr>tb_user := update_where (\<lambda>u. u_id u = uid)
           (failure_recorded l x) (tb_user d)\<rparr>) t q w' \<Longrightarrow> w_clock w \<le> w_clock w' \<Longrightarrow> Q (Inl (wrap p e)) w'"
  shows "wp (pg_record_failure uid l) Q w"
  unfolding pg_record_failure_def wp_code
  by (rule pool_exec_step [OF assms(1)]) (auto intro: assms)

lemma pg_reset_failures_step [wp_steps]:
  assumes "moves w0 d t q w"
    and "\<And>p e w'. \<not> reliable w0 \<Longrightarrow> moves w0 d t q w' \<Longrightarrow> w_clock w \<le> w_clock w' \<Longrightarrow> Q (Inl (wrap p e)) w'"
    and "\<And>w' x. moves w0 (d\<lparr>tb_user := update_where (\<lambda>u. u_id u = uid) (failures_reset x) (tb_user d)\<rparr>)
           t q w' \<Longrightarrow> w_clock w \<le> w_clock w' \<Longrightarrow> Q (Inr ()) w'"
    and "\<And>p e x w'. \<not> reliable w0 \<Longrightarrow> moves w0 (d\<lparr>tb_user := update_where (\<lambda>u. u_id u = uid)
           (failures_reset x) (tb_user d)\<rparr>) t q w' \<Longrightarrow> w_clock w \<le> w_clock w' \<Longrightarrow> Q (Inl (wrap p e)) w'"
  shows "wp (pg_reset_failures uid) Q w"
  unfolding pg_reset_failures_def wp_code
  by (rule pool_exec_step [OF assms(1)]) (auto intro: assms)

text \<open>
  The specification: \<open>users\<close> before, the answer, \<open>users'\<close> after, and the rows \<open>new\<close> added to the
  session table, in a world that is reliable when \<open>rel\<close> holds.
\<close>

definition answers :: "gerror \<Rightarrow> bool" where
  "answers e \<longleftrightarrow> e = err_invalid_credentials \<or> (\<exists>d. e = LockedError d)"

inductive login_spec ::
  "bool \<Rightarrow> int \<Rightarrow> int \<Rightarrow> (string \<Rightarrow> string \<Rightarrow> gerror + bool) \<Rightarrow> string \<Rightarrow> string \<Rightarrow> int \<Rightarrow> int \<Rightarrow> user_row list \<Rightarrow>
   gerror + tokens \<Rightarrow> user_row list \<Rightarrow> refresh_row list \<Rightarrow> bool"
  for rel :: bool and mx :: int and dur :: int and verify :: "string \<Rightarrow> string \<Rightarrow> gerror + bool" and email :: string
    and password :: string and t0 :: int and t1 :: int and users :: "user_row list"
where
  broken: "\<not> rel \<Longrightarrow> \<not> answers e \<Longrightarrow> login_spec rel mx dur verify email password t0 t1 users (Inl e) users []"
| unknown: "select_one (owns_email email) users = None \<Longrightarrow>
    login_spec rel mx dur verify email password t0 t1 users (Inl err_invalid_credentials) users []"
| locked: "select_one (owns_email email) users = Some u \<Longrightarrow> u_locked_until u = Some l \<Longrightarrow> now < l \<Longrightarrow>
    t0 \<le> now \<Longrightarrow> now \<le> t1 \<Longrightarrow>
    login_spec rel mx dur verify email password t0 t1 users (Inl (LockedError (l - now))) users []"
| inactive: "select_one (owns_email email) users = Some u \<Longrightarrow> u_status u \<noteq> status_active \<Longrightarrow>
    login_spec rel mx dur verify email password t0 t1 users (Inl err_invalid_credentials) users []"
| wrong: "select_one (owns_email email) users = Some u \<Longrightarrow> u_status u = status_active \<Longrightarrow>
    \<forall>l. u_locked_until u = Some l \<longrightarrow> l \<le> now \<Longrightarrow> t0 \<le> now \<Longrightarrow> now \<le> t1 \<Longrightarrow>
    verify (coalesce_empty (u_password u)) password \<noteq> Inr True \<Longrightarrow>
    lock = (if mx \<le> u_failed u + 1 then Some (now + dur) else None) \<Longrightarrow>
    r = (if lock = None then err_invalid_credentials else LockedError dur) \<or> \<not> rel \<and> \<not> answers r \<Longrightarrow>
    login_spec rel mx dur verify email password t0 t1 users (Inl r)
      (update_where (\<lambda>x. u_id x = u_id u) (failure_recorded lock t) users) []"
| accepted: "select_one (owns_email email) users = Some u \<Longrightarrow> u_status u = status_active \<Longrightarrow>
    \<forall>l. u_locked_until u = Some l \<longrightarrow> l \<le> now \<Longrightarrow> t0 \<le> now \<Longrightarrow> now \<le> t1 \<Longrightarrow>
    verify (coalesce_empty (u_password u)) password = Inr True \<Longrightarrow>
    new = [] \<and> \<not> is_ok r \<or> (\<exists>n. new = [n] \<and> rt_user n = u_id u \<and> rt_revoked n = None) \<Longrightarrow>
    login_spec rel mx dur verify email password t0 t1 users r
      (update_where (\<lambda>x. u_id x = u_id u) (failures_reset t) users) new"

inductive_cases login_specE: "login_spec rel mx dur verify email password t0 t1 users r users' new"

definition login_post :: "login_service \<Rightarrow> string \<Rightarrow> string \<Rightarrow> world \<Rightarrow> gerror + tokens \<Rightarrow> world \<Rightarrow> bool" where
  "login_post s email password w r w' \<longleftrightarrow> (\<exists>new.
     db_changes {T_user, T_refresh_token} (w_db w) (w_db w') \<and> w_tx w' = w_tx w \<and> w_mq w' = w_mq w \<and>
     same_oracles w w' \<and> tb_refresh_token (w_db w') = tb_refresh_token (w_db w) @ new \<and>
     login_spec (reliable w) (max_attempts s) (lock_duration s) (lg_verify s) (normalize_email email) password
       (w_clock w) (w_clock w') (tb_user (w_db w)) r (tb_user (w_db w')) new)"

lemma login_postI:
  assumes "moves w d' (w_tx w) (w_mq w) w'" and "db_changes {T_user, T_refresh_token} (w_db w) d'"
    and "tb_refresh_token d' = tb_refresh_token (w_db w) @ new"
    and "login_spec (reliable w) (max_attempts s) (lock_duration s) (lg_verify s) (normalize_email email) password
       (w_clock w) (w_clock w') (tb_user (w_db w)) r (tb_user d') new"
  shows "login_post s email password w r w'"
  using assms movesD [OF assms(1)] unfolding login_post_def by auto

lemma login_post_broken:
  "\<not> reliable w \<Longrightarrow> \<not> answers e \<Longrightarrow> moves w d' (w_tx w) (w_mq w) w' \<Longrightarrow> db_changes {T_user, T_refresh_token} (w_db w) d' \<Longrightarrow>
    tb_refresh_token d' = tb_refresh_token (w_db w) \<Longrightarrow> tb_user d' = tb_user (w_db w) \<Longrightarrow>
    login_post s email password w (Inl e) w'"
  by (rule login_postI [where new = "[]"], assumption, assumption) (simp_all add: login_spec.broken)

lemma login_post_unknown:
  "moves w d' (w_tx w) (w_mq w) w' \<Longrightarrow> db_changes {T_user, T_refresh_token} (w_db w) d' \<Longrightarrow>
    tb_refresh_token d' = tb_refresh_token (w_db w) \<Longrightarrow> tb_user d' = tb_user (w_db w) \<Longrightarrow>
    select_one (owns_email (normalize_email email)) (tb_user (w_db w)) = None \<Longrightarrow>
    login_post s email password w (Inl err_invalid_credentials) w'"
  by (rule login_postI [where new = "[]"], assumption, assumption) (simp_all add: login_spec.unknown)

lemma login_post_inactive:
  "moves w d' (w_tx w) (w_mq w) w' \<Longrightarrow> db_changes {T_user, T_refresh_token} (w_db w) d' \<Longrightarrow>
    tb_refresh_token d' = tb_refresh_token (w_db w) \<Longrightarrow> tb_user d' = tb_user (w_db w) \<Longrightarrow>
    select_one (owns_email (normalize_email email)) (tb_user (w_db w)) = Some u \<Longrightarrow> u_status u \<noteq> status_active \<Longrightarrow>
    login_post s email password w (Inl err_invalid_credentials) w'"
  by (rule login_postI [where new = "[]"], assumption, assumption) (auto intro: login_spec.inactive)

lemma login_post_locked:
  "moves w d' (w_tx w) (w_mq w) w' \<Longrightarrow> db_changes {T_user, T_refresh_token} (w_db w) d' \<Longrightarrow>
    tb_refresh_token d' = tb_refresh_token (w_db w) \<Longrightarrow> tb_user d' = tb_user (w_db w) \<Longrightarrow>
    select_one (owns_email (normalize_email email)) (tb_user (w_db w)) = Some u \<Longrightarrow> u_locked_until u = Some l \<Longrightarrow>
    now < l \<Longrightarrow> w_clock w \<le> now \<Longrightarrow> now \<le> w_clock w' \<Longrightarrow>
    login_post s email password w (Inl (LockedError (l - now))) w'"
  by (rule login_postI [where new = "[]"], assumption, assumption) (auto intro: login_spec.locked)

lemma login_post_wrong:
  assumes "moves w d' (w_tx w) (w_mq w) w'" and "db_changes {T_user, T_refresh_token} (w_db w) d'"
    and "tb_refresh_token d' = tb_refresh_token (w_db w)"
    and "tb_user d' = update_where (\<lambda>x. u_id x = u_id u) (failure_recorded
           (if max_attempts s \<le> u_failed u + 1 then Some (now + lock_duration s) else None) t) (tb_user (w_db w))"
    and "select_one (owns_email (normalize_email email)) (tb_user (w_db w)) = Some u"
    and "u_status u = status_active" and "\<forall>l. u_locked_until u = Some l \<longrightarrow> l \<le> now"
    and "w_clock w \<le> now" and "now \<le> w_clock w'"
    and "lg_verify s (coalesce_empty (u_password u)) password \<noteq> Inr True"
    and "r = (if max_attempts s \<le> u_failed u + 1 then LockedError (lock_duration s) else err_invalid_credentials) \<or> \<not> reliable w \<and> \<not> answers r"
  shows "login_post s email password w (Inl r) w'"
  by (rule login_postI [where new = "[]", OF assms(1,2)])
    (use assms(3) login_spec.wrong [where verify = "lg_verify s", where rel = "reliable w" and mx = "max_attempts s" and dur = "lock_duration s" and r = r and t = t, OF assms(5-10) refl] assms(4,11) in auto)

lemma login_post_accepted:
  assumes "moves w d' (w_tx w) (w_mq w) w'" and "db_changes {T_user, T_refresh_token} (w_db w) d'"
    and "tb_refresh_token d' = tb_refresh_token (w_db w) @ new"
    and "tb_user d' = update_where (\<lambda>x. u_id x = u_id u) (failures_reset t) (tb_user (w_db w))"
    and "select_one (owns_email (normalize_email email)) (tb_user (w_db w)) = Some u"
    and "u_status u = status_active" and "\<forall>l. u_locked_until u = Some l \<longrightarrow> l \<le> now"
    and "w_clock w \<le> now" and "now \<le> w_clock w'"
    and "lg_verify s (coalesce_empty (u_password u)) password = Inr True"
    and "new = [] \<and> \<not> is_ok r \<or> (\<exists>n. new = [n] \<and> rt_user n = u_id u \<and> rt_revoked n = None)"
  shows "login_post s email password w r w'"
  by (rule login_postI [OF assms(1-3)])
    (use login_spec.accepted [where verify = "lg_verify s", where rel = "reliable w" and mx = "max_attempts s" and dur = "lock_duration s" and r = r and t = t, OF assms(5-11)] assms(4) in auto)

lemma answers_simps [simp]: "\<not> answers (wrap p e)" "answers err_invalid_credentials" "answers (LockedError d)"
  by (simp_all add: answers_def)

locale login_env = session_issuer issuer ttl + auditing auditor
  for issuer ttl auditor
begin

lemma fail_attempt_effect:
  assumes "lg_issuer s = issuer" and "lg_auditor s = auditor" and "lg_store s = pg_login_store"
    and "moves w (w_db w) (w_tx w) (w_mq w) w1"
    and u: "select_one (owns_email (normalize_email email)) (tb_user (w_db w)) = Some u"
      "u_status u = status_active" "\<forall>l. u_locked_until u = Some l \<longrightarrow> l \<le> now"
    and now: "w_clock w \<le> now" "now \<le> w_clock w1"
    and "lg_verify s (coalesce_empty (u_password u)) password \<noteq> Inr True"
  shows "wp (fail_attempt s (login_user_of u) (normalize_email email) meta now ve) (login_post s email password w) w1"
proof -
  note wrong = login_post_wrong [where email = email and password = password and s = s, OF _ _ _ _ u now(1) _ assms(10)]
  show ?thesis
    unfolding fail_attempt_def Let_def
    apply (insert assms(4) now)
    by (((erule wp_steps best_effort_step)+)?; clarsimp simp: wp_code assms(2,3) login_post_broken wrong; (intro conjI impI)?)+
qed

lemma login_effect:
  assumes "lg_issuer s = issuer" and "lg_auditor s = auditor" and "lg_store s = pg_login_store"
  shows "wp (login s email password meta) (login_post s email password w) w"
proof (rule wp_start)
  note post = login_post_broken login_post_unknown login_post_inactive login_post_locked
  fix w' assume m: "moves w (w_db w) (w_tx w) (w_mq w) w'" "w_clock w \<le> w_clock w'"
  show "wp (login s email password meta) (login_post s email password w) w'"
    unfolding login_def Let_def
    apply (insert m)
    apply (((erule wp_steps issuer_step best_effort_step)+)?; clarsimp simp: wp_code assms post not_less;
       (intro conjI impI)?; (rule state_cases)?)+
     apply (clarsimp simp: fail_attempt_effect [OF assms])
    by (((erule wp_steps issuer_step best_effort_step)+)?; clarsimp simp: wp_code assms post fail_attempt_effect [OF assms]
         login_post_accepted issued_row_def simp del: set_map; (intro conjI impI)?; (rule state_cases)?)+
qed

end

interpretation pg_login: login_env "issue J cfg pg_store_refresh_token" "sc_refresh_ttl cfg" "Some (pg_record k)" for J cfg k
  by unfold_locales

end
