(* ===== verification/Codes.thy ===== *)
theory Codes
  imports Mail Login
begin

text \<open>
  What every one-time code of the service has in common. A pending code is the digest of six
  digits, a counter of failed attempts and an expiry; an operation that takes a code compares
  digests, counts the misses and refuses once the counter is spent. \<open>code_guard\<close> states that
  contract of one operation and derives how far guessing can get; registration, password reset
  and address change interpret it. \<open>mail_service\<close> joins the contracts their senders rely on.
\<close>

section \<open>Guessing against a counted code\<close>

text \<open>Codes tried one after the other, with the answers, in whatever world each attempt leaves.\<close>

fun try_codes :: "(string \<Rightarrow> 'a io) \<Rightarrow> string list \<Rightarrow> world \<Rightarrow> (gerror + 'a) list \<times> world" where
  "try_codes op [] w = ([], w)"
| "try_codes op (g # gs) w =
     (let (r, w1) = run_state (op g) w; (rs, w2) = try_codes op gs w1 in (r # rs, w2))"

definition answered :: "gerror \<Rightarrow> (gerror + 'a) list \<Rightarrow> int" where
  "answered e rs = int (length (filter (\<lambda>r. case r of Inl x \<Rightarrow> x = e | Inr _ \<Rightarrow> False) rs))"

lemma answered_Nil [simp]: "answered e [] = 0"
  by (simp add: answered_def)

lemma answered_Cons: "answered e (r # rs) = (if r = Inl e then 1 else 0) + answered e rs"
  by (cases r) (simp_all add: answered_def)

lemma answered_nonneg [simp]: "0 \<le> answered e rs"
  by (simp add: answered_def)

text \<open>
  \<open>pending w\<close> is the digest, the attempts and the expiry of the code an attempt in \<open>w\<close> is
  compared with. A miss below the ceiling is counted, or the attempt failed in a way that does
  not tell; at the ceiling nothing is accepted any more.
\<close>

locale code_guard =
  fixes op :: "string \<Rightarrow> 'a io" and pending :: "world \<Rightarrow> (string \<times> int \<times> int) option"
    and rejected :: gerror and ceiling :: int
  assumes miss: "w_tx w = None \<Longrightarrow> run_state (op g) w = (r, w') \<Longrightarrow> pending w = Some (h, a, x) \<Longrightarrow> hash_code g \<noteq> h \<Longrightarrow>
      \<not> is_ok r \<and> w_tx w' = None \<and> w_clock w \<le> w_clock w' \<and>
      (pending w' = Some (h, a, x) \<and> (r = Inl rejected \<longrightarrow> x \<le> w_clock w')
       \<or> pending w' = Some (h, a + 1, x) \<and> a < ceiling)"
    and spent: "w_tx w = None \<Longrightarrow> run_state (op g) w = (r, w') \<Longrightarrow> pending w = Some (h, a, x) \<Longrightarrow> ceiling \<le> a \<Longrightarrow>
      \<not> is_ok r \<and> w_tx w' = None \<and> pending w' = Some (h, a, x)"
begin

text \<open>
  Wrong codes all fail, each of them is counted at most once, and as long as the code has not
  expired every rejection was counted: with \<open>a\<close> attempts used there are at most \<open>ceiling - a\<close>.
\<close>

lemma misses_bounded:
  assumes "w_tx w = None" and "try_codes op gs w = (rs, w')" and "pending w = Some (h, a, x)" and "a \<le> ceiling"
    and "\<forall>g \<in> set gs. hash_code g \<noteq> h"
  shows "(\<forall>r \<in> set rs. \<not> is_ok r) \<and> w_tx w' = None \<and> w_clock w \<le> w_clock w' \<and>
    (\<exists>a'. pending w' = Some (h, a', x) \<and> a \<le> a' \<and> a' \<le> ceiling
       \<and> (w_clock w' < x \<longrightarrow> answered rejected rs \<le> a' - a))"
  using assms
proof (induction gs arbitrary: w rs a)
  case Nil
  then show ?case by simp
next
  case (Cons g gs)
  obtain r w1 where run: "run_state (op g) w = (r, w1)" by fastforce
  obtain rs1 w2 where rest: "try_codes op gs w1 = (rs1, w2)" by fastforce
  have rs: "rs = r # rs1" "w2 = w'" using Cons.prems(2) run rest by auto
  have one: "\<not> is_ok r \<and> w_tx w1 = None \<and> w_clock w \<le> w_clock w1 \<and>
      (pending w1 = Some (h, a, x) \<and> (r = Inl rejected \<longrightarrow> x \<le> w_clock w1)
       \<or> pending w1 = Some (h, a + 1, x) \<and> a < ceiling)"
    using miss [OF Cons.prems(1) run Cons.prems(3)] Cons.prems(5) by simp
  then obtain a1 where a1: "pending w1 = Some (h, a1, x)" "a \<le> a1" "a1 \<le> ceiling"
      "r = Inl rejected \<Longrightarrow> w_clock w1 < x \<Longrightarrow> a < a1"
    using Cons.prems(4) by fastforce
  have "(\<forall>r \<in> set rs1. \<not> is_ok r) \<and> w_tx w' = None \<and> w_clock w1 \<le> w_clock w' \<and>
    (\<exists>a'. pending w' = Some (h, a', x) \<and> a1 \<le> a' \<and> a' \<le> ceiling
       \<and> (w_clock w' < x \<longrightarrow> answered rejected rs1 \<le> a' - a1))"
    using Cons.IH [OF _ rest [unfolded rs(2)] a1(1,3)] one Cons.prems(5) by simp
  then show ?case using one a1(2,4) by (fastforce simp: rs answered_Cons)
qed

text \<open>Once the counter is spent not even the right code is accepted.\<close>

lemma spent_refuses:
  assumes "w_tx w = None" and "try_codes op gs w = (rs, w')" and "pending w = Some (h, a, x)" and "ceiling \<le> a"
  shows "(\<forall>r \<in> set rs. \<not> is_ok r) \<and> pending w' = Some (h, a, x)"
  using assms
proof (induction gs arbitrary: w rs)
  case Nil
  then show ?case by simp
next
  case (Cons g gs)
  obtain r w1 where run: "run_state (op g) w = (r, w1)" by fastforce
  obtain rs1 w2 where rest: "try_codes op gs w1 = (rs1, w2)" by fastforce
  have rs: "rs = r # rs1" "w2 = w'" using Cons.prems(2) run rest by auto
  show ?case
    using spent [OF Cons.prems(1) run Cons.prems(3,4)] Cons.IH [OF _ rest [unfolded rs(2)]] Cons.prems(4)
    by (auto simp: rs)
qed

end

section \<open>Services that send mail\<close>

locale mail_service = mail_publisher publish + auditing auditor
  for publish auditor

text \<open>The step rules shared by the services that generate and store codes.\<close>

lemma generate_code_step [wp_steps]:
  assumes "moves w0 d t q w"
    and "\<And>p e w'. \<not> reliable w0 \<Longrightarrow> moves w0 d t q w' \<Longrightarrow> w_clock w \<le> w_clock w' \<Longrightarrow> Q (Inl (wrap p e)) w'"
    and "\<And>k w'. moves w0 d t q w' \<Longrightarrow> w_clock w \<le> w_clock w' \<Longrightarrow>
           Q (Inr (code_of_bytes (map (w_entropy w0 k) [0..<4]))) w'"
  shows "wp generate_code Q w"
  unfolding generate_code_def wp_code by (rule rand_read_step [OF assms(1)]) (auto intro!: assms)

lemma hash_password_step [wp_steps]:
  assumes "moves w0 d t q w"
    and "\<And>p e w'. \<not> reliable w0 \<Longrightarrow> moves w0 d t q w' \<Longrightarrow> w_clock w \<le> w_clock w' \<Longrightarrow> Q (Inl (wrap p e)) w'"
    and "\<And>salt w'. length salt = 16 \<Longrightarrow> moves w0 d t q w' \<Longrightarrow> w_clock w \<le> w_clock w' \<Longrightarrow>
           Q (Inr (encode_hash salt (K plain salt argon_time argon_memory argon_threads argon_key_len))) w'"
  shows "wp (hash_password K plain) Q w"
  unfolding hash_password_def wp_code
  by (rule rand_read_step [OF assms(1)]) (auto intro!: assms simp: argon_salt_len_def)

lemma pg_amqp_mail: "mail_service (amqp_publish queue) (Some (pg_record k))"
  by unfold_locales

interpretation pg_mail: mail_service "amqp_publish queue" "Some (pg_record k)" for queue k
  by (rule pg_amqp_mail)

section \<open>Drawing a code that is not taken\<close>

text \<open>
  The loop of \<open>RequestReset\<close> and \<open>Request\<close>: \<open>n\<close> draws are left, and the error of the last
  collision is what the caller wraps when none is. A code is stored by its digest, and the store
  reports a digest that exists as \<open>collision\<close>.
\<close>

fun code_loop :: "string \<Rightarrow> string \<Rightarrow> string \<Rightarrow> string io \<Rightarrow> gerror \<Rightarrow> (string \<Rightarrow> unit io) \<Rightarrow> nat \<Rightarrow> gerror \<Rightarrow> string io" where
  "code_loop p_gen p_store p_none gen collision store 0 err = fail (wrap p_none err)"
| "code_loop p_gen p_store p_none gen collision store (Suc n) err =
     check p_gen gen (\<lambda>code. do {
       r \<leftarrow> store code;
       case r of
         Inr _ \<Rightarrow> ok code
       | Inl e \<Rightarrow> if errors_is e collision then code_loop p_gen p_store p_none gen collision store n e
                 else fail (wrap p_store e) })"

text \<open>
  The rule of the loop, for a store that keeps the database, or changes it as \<open>stored code\<close> says:
  whatever happens at most one draw is stored.
\<close>

lemma code_loop_step:
  assumes "moves w0 d t q w"
    and store: "\<And>code w Q. moves w0 d t q w \<Longrightarrow> code \<in> range (\<lambda>k. code_of_bytes (map (w_entropy w0 k) [0..<4])) \<Longrightarrow>
       (\<And>e w'. \<not> reliable w0 \<Longrightarrow> \<not> errors_is e collision \<Longrightarrow> moves w0 d t q w' \<Longrightarrow> w_clock w \<le> w_clock w' \<Longrightarrow> Q (Inl e) w') \<Longrightarrow>
       (\<And>e w'. blocked \<Longrightarrow> moves w0 d t q w' \<Longrightarrow> w_clock w \<le> w_clock w' \<Longrightarrow> Q (Inl e) w') \<Longrightarrow>
       (\<And>d' w'. stored code (w_clock w) (w_clock w') d' \<Longrightarrow> moves w0 d' t q w' \<Longrightarrow> w_clock w \<le> w_clock w' \<Longrightarrow> Q (Inr ()) w') \<Longrightarrow>
       (\<And>e d' w'. \<not> reliable w0 \<Longrightarrow> \<not> errors_is e collision \<Longrightarrow> stored code (w_clock w) (w_clock w') d' \<Longrightarrow> moves w0 d' t q w' \<Longrightarrow>
          w_clock w \<le> w_clock w' \<Longrightarrow> Q (Inl e) w') \<Longrightarrow> wp (store code) Q w"
    and mono: "\<And>code t0 t0' t1 d'. stored code t0 t1 d' \<Longrightarrow> t0' \<le> t0 \<Longrightarrow> stored code t0' t1 d'"
    and "\<And>p e w'. \<not> reliable w0 \<or> blocked \<or> n = 0 \<Longrightarrow> moves w0 d t q w' \<Longrightarrow> w_clock w \<le> w_clock w' \<Longrightarrow> Q (Inl (wrap p e)) w'"
    and "\<And>k d' w'. stored (code_of_bytes (map (w_entropy w0 k) [0..<4])) (w_clock w) (w_clock w') d' \<Longrightarrow>
           moves w0 d' t q w' \<Longrightarrow> w_clock w \<le> w_clock w' \<Longrightarrow>
           Q (Inr (code_of_bytes (map (w_entropy w0 k) [0..<4]))) w'"
    and "\<And>k p e d' w'. \<not> reliable w0 \<Longrightarrow> stored (code_of_bytes (map (w_entropy w0 k) [0..<4])) (w_clock w) (w_clock w') d' \<Longrightarrow>
           moves w0 d' t q w' \<Longrightarrow> w_clock w \<le> w_clock w' \<Longrightarrow> Q (Inl (wrap p e)) w'"
  shows "wp (code_loop p_gen p_store p_none generate_code collision store n err) Q w"
  using assms(1,4-)
proof (induction n arbitrary: w err)
  case 0
  then show ?case by (simp add: wp)
next
  case (Suc n)
  show ?case
    apply (simp only: code_loop.simps wp_code)
    apply (rule generate_code_step [OF Suc.prems(1)])
     apply (simp add: Suc.prems(2))
    apply simp
    apply (erule store, rule rangeI)
       apply (simp add: wp_code, rule Suc.prems(2); simp)
      apply (clarsimp simp: wp_code, intro conjI impI)
       apply (erule Suc.IH)
         apply (rule Suc.prems(2); simp)
        apply (rule Suc.prems(3), erule mono; simp)
       apply (rule Suc.prems(4), assumption, erule mono; simp)
      apply (rule Suc.prems(2); simp)
     apply (simp add: wp_code, rule Suc.prems(3), erule mono; simp)
    apply (simp add: wp_code, rule Suc.prems(4), assumption, erule mono; simp)
    done
qed

section \<open>Rows of tb_user_token\<close>

text \<open>
  \<open>ORDER BY dt_created_at DESC LIMIT 1\<close>; among rows of the same instant, which SQL leaves open,
  the one inserted first.
\<close>

definition newest :: "user_token_row list \<Rightarrow> user_token_row option" where
  "newest rows = find (\<lambda>r. list_all (\<lambda>x. ut_created x \<le> ut_created r) rows) rows"

definition attempt_counted :: "int \<Rightarrow> user_token_row \<Rightarrow> user_token_row" where
  "attempt_counted t r = r\<lparr>ut_attempts := ut_attempts r + 1, ut_updated := t\<rparr>"

definition token_used :: "int \<Rightarrow> user_token_row \<Rightarrow> user_token_row" where
  "token_used t r = r\<lparr>ut_used := Some t, ut_updated := t\<rparr>"

lemma attempt_counted_simps [simp]:
  "ut_id (attempt_counted t r) = ut_id r" "ut_user (attempt_counted t r) = ut_user r"
  "ut_purpose (attempt_counted t r) = ut_purpose r" "ut_hash (attempt_counted t r) = ut_hash r"
  "ut_attempts (attempt_counted t r) = ut_attempts r + 1" "ut_expires (attempt_counted t r) = ut_expires r"
  "ut_used (attempt_counted t r) = ut_used r" "ut_created (attempt_counted t r) = ut_created r"
  "ut_target (attempt_counted t r) = ut_target r"
  by (simp_all add: attempt_counted_def)

lemma token_used_simps [simp]:
  "ut_id (token_used t r) = ut_id r" "ut_user (token_used t r) = ut_user r"
  "ut_purpose (token_used t r) = ut_purpose r" "ut_hash (token_used t r) = ut_hash r"
  "ut_used (token_used t r) = Some t" "ut_created (token_used t r) = ut_created r"
  by (simp_all add: token_used_def)

lemma newest_SomeD: "newest rows = Some r \<Longrightarrow> r \<in> set rows \<and> (\<forall>x \<in> set rows. ut_created x \<le> ut_created r)"
  by (auto simp: newest_def find_Some_iff list_all_iff)

lemma newest_Nil [simp]: "newest [] = None"
  by (simp add: newest_def)

lemma newest_None: "newest rows = None \<longleftrightarrow> rows = []"
proof
  assume n: "newest rows = None"
  show "rows = []"
  proof (rule ccontr)
    assume "rows \<noteq> []"
    then have "Max (ut_created ` set rows) \<in> ut_created ` set rows" by (intro Max_in) auto
    then obtain r where "r \<in> set rows" and "ut_created r = Max (ut_created ` set rows)" by (metis imageE)
    then have "\<forall>x \<in> set rows. ut_created x \<le> ut_created r" by simp
    then show False using n \<open>r \<in> set rows\<close> by (auto simp: newest_def find_None_iff list_all_iff)
  qed
qed simp

lemma find_map: "find p (map f xs) = map_option f (find (p \<circ> f) xs)"
  by (induction xs) simp_all

lemma newest_update:
  assumes "\<And>r. ut_created (f r) = ut_created r"
  shows "newest (update_where p f rows) = map_option (\<lambda>r. if p r then f r else r) (newest rows)"
proof -
  have k: "ut_created (if p r then f r else r) = ut_created r" for r by (simp add: assms)
  show ?thesis
    unfolding newest_def update_where_def find_map
    by (simp only: list_all_iff comp_def k set_map ball_simps)
qed

lemma filter_update_commute:
  assumes "\<And>r. q (f r) = q r"
  shows "filter q (update_where p f rows) = update_where p f (filter q rows)"
  by (induction rows) (auto simp: assms)

text \<open>The rows of one user and purpose, the time of the newest, and how many are not older than a time.\<close>

definition requests_of :: "string \<Rightarrow> string \<Rightarrow> user_token_row list \<Rightarrow> user_token_row list" where
  "requests_of purpose uid rows = filter (\<lambda>r. ut_user r = uid \<and> ut_purpose r = purpose) rows"

definition last_request :: "user_token_row list \<Rightarrow> int option" where
  "last_request rows = map_option ut_created (newest rows)"

definition requests_since :: "int \<Rightarrow> user_token_row list \<Rightarrow> int" where
  "requests_since since rows = int (length (filter (\<lambda>r. since \<le> ut_created r) rows))"

lemma last_request_le: "last_request rows = Some l \<Longrightarrow> r \<in> set rows \<Longrightarrow> ut_created r \<le> l"
  by (auto simp: last_request_def dest: newest_SomeD)

lemma last_request_None: "last_request rows = None \<longleftrightarrow> rows = []"
  by (simp add: last_request_def newest_None)

lemma requests_since_mono: "s \<le> s' \<Longrightarrow> requests_since s' rows \<le> requests_since s rows"
  unfolding requests_since_def
  by (induction rows) auto

text \<open>The quota of a user and purpose at the moment \<open>now\<close>, as both services compute it.\<close>

definition quota_of :: "quota \<Rightarrow> string \<Rightarrow> string \<Rightarrow> int \<Rightarrow> user_token_row list \<Rightarrow> gerror + unit" where
  "quota_of qt purpose uid now rows = quota_check qt now (last_request (requests_of purpose uid rows))
     (requests_since (now - or_default (window qt) default_window) (requests_of purpose uid rows))"

text \<open>A request let through keeps its distance from every earlier one, and from the limit.\<close>

lemma quota_of_ok:
  assumes "quota_of qt purpose uid now rows = Inr ()"
  shows "\<forall>r \<in> set (requests_of purpose uid rows). ut_created r + or_default (cooldown qt) default_cooldown \<le> now"
    and "requests_since (now - or_default (window qt) default_window) (requests_of purpose uid rows)
           < or_default (limit qt) default_limit"
proof -
  note q = assms [unfolded quota_of_def quota_check_ok]
  show "\<forall>r \<in> set (requests_of purpose uid rows). ut_created r + or_default (cooldown qt) default_cooldown \<le> now"
  proof
    fix r assume r: "r \<in> set (requests_of purpose uid rows)"
    then obtain l where "last_request (requests_of purpose uid rows) = Some l"
      using last_request_None [of "requests_of purpose uid rows"] by (cases "last_request (requests_of purpose uid rows)") auto
    then show "ut_created r + or_default (cooldown qt) default_cooldown \<le> now"
      using q last_request_le r by fastforce
  qed
  show "requests_since (now - or_default (window qt) default_window) (requests_of purpose uid rows)
           < or_default (limit qt) default_limit"
    using q by blast
qed

end
