(* ===== verification/Signup.thy ===== *)
theory Signup
  imports Codes
begin

text \<open>
  Package \<open>signup\<close>: asking for a registration code (\<open>service.go\<close>), consuming it (\<open>verify.go\<close>) and
  the two PostgreSQL stores. \<open>request_spec\<close> and \<open>verify_spec\<close> say what one call does to the
  tables and the mail queue, whatever fails; \<open>Signup_Safety\<close> draws the consequences.
\<close>

section \<open>service.go\<close>

definition code_lifetime :: int where
  "code_lifetime = 10 * minute"

record pending =
  pn_email :: string
  pn_name :: string
  pn_password :: string
  pn_code :: string
  pn_expires :: int

record signup_store =
  ss_exists :: "string \<Rightarrow> bool io"
  ss_upsert :: "pending \<Rightarrow> unit io"

record signup_service =
  sg_store :: signup_store
  sg_publisher :: publisher
  sg_generate :: "string io"
  sg_hash :: "string \<Rightarrow> string io"

definition new_signup :: "idkey \<Rightarrow> signup_store \<Rightarrow> publisher \<Rightarrow> signup_service" where
  "new_signup K store p = \<lparr>sg_store = store, sg_publisher = p, sg_generate = generate_code,
     sg_hash = hash_password K\<rparr>"

text \<open>\<open>json.Marshal\<close> of a message cannot fail, so neither branch of the encoding error exists here.\<close>

definition signup_publish :: "signup_service \<Rightarrow> mail_message \<Rightarrow> unit io" where
  "signup_publish s m = check ''signup: queueing mail: '' (sg_publisher s (marshal_message m)) ok"

definition existing_mail :: "string \<Rightarrow> mail_message" where
  "existing_mail email = \<lparr>mm_to = email,
     mm_subject = ''Ya ten'' @ [CHR 0xC3, CHR 0xA9] @ ''s una cuenta en melia'',
     mm_text = ''Alguien intent'' @ [CHR 0xC3, CHR 0xB3] @ '' registrarse con este correo, pero ya tiene una cuenta.''
       @ [CHR 0x0A] @ ''Si fuiste vos, inici'' @ [CHR 0xC3, CHR 0xA1] @ '' sesi'' @ [CHR 0xC3, CHR 0xB3]
       @ ''n o recuper'' @ [CHR 0xC3, CHR 0xA1] @ '' tu contrase'' @ [CHR 0xC3, CHR 0xB1]
       @ ''a. Si no fuiste vos, ignor'' @ [CHR 0xC3, CHR 0xA1] @ '' este mensaje.''\<rparr>"

definition signup_mail :: "string \<Rightarrow> string \<Rightarrow> mail_message" where
  "signup_mail email code = \<lparr>mm_to = email, mm_subject = ''Tu c'' @ [CHR 0xC3, CHR 0xB3] @ ''digo de registro'',
     mm_text = ''Tu c'' @ [CHR 0xC3, CHR 0xB3] @ ''digo para terminar el registro es '' @ code
       @ ''.'' @ [CHR 0x0A] @ ''Vence en 10 minutos y sirve una sola vez.''\<rparr>"

definition request_signup :: "signup_service \<Rightarrow> string \<Rightarrow> string \<Rightarrow> string \<Rightarrow> unit io" where
  "request_signup s raw_email name password = (
     let email = normalize_email raw_email in
     check ''signup: checking existing user: '' (ss_exists (sg_store s) email) (\<lambda>exists.
       if exists then attempt (signup_publish s (existing_mail email)) (\<lambda>_. ok ())
       else check ''signup: hashing password: '' (sg_hash s password) (\<lambda>hash.
            check ''signup: generating code: '' (sg_generate s) (\<lambda>code. do {
              now \<leftarrow> read_clock;
              check ''signup: storing pending registration: ''
                (ss_upsert (sg_store s) \<lparr>pn_email = email, pn_name = trim_space name, pn_password = hash,
                   pn_code = hash_code code, pn_expires = now + code_lifetime\<rparr>) (\<lambda>_.
              attempt (signup_publish s (signup_mail email code)) (\<lambda>_. ok ())) }))))"

definition redact :: "string \<Rightarrow> string" where
  "redact email = (let at = last_index email (CHR ''@'') in
     if at \<le> 1 then ''***'' else take 1 email @ ''***'' @ drop (nat at) email)"

section \<open>postgres.go\<close>

definition pg_active_user_exists :: "string \<Rightarrow> bool io" where
  "pg_active_user_exists email =
     check ''querying tb_user: '' (pool_exec (query_stmt (\<lambda>d. list_ex (owns_email email) (tb_user d)))) ok"

definition replaced_row :: "pending \<Rightarrow> int \<Rightarrow> signup_row \<Rightarrow> signup_row" where
  "replaced_row p t r = r\<lparr>sr_name := pn_name p, sr_password := pn_password p, sr_hash := pn_code p,
     sr_attempts := 0, sr_expires := pn_expires p, sr_updated := t\<rparr>"

definition fresh_row :: "pending \<Rightarrow> int \<Rightarrow> string \<Rightarrow> signup_row" where
  "fresh_row p t uuid = \<lparr>sr_id = uuid, sr_email = pn_email p, sr_name = pn_name p, sr_password = pn_password p,
     sr_hash = pn_code p, sr_attempts = 0, sr_expires = pn_expires p, sr_created = t, sr_updated = t\<rparr>"

text \<open>\<open>INSERT ... ON CONFLICT (tx_email) DO UPDATE\<close>; a clash of the generated id is an error.\<close>

definition upsert_row :: "pending \<Rightarrow> int \<Rightarrow> string \<Rightarrow> db \<Rightarrow> gerror + db" where
  "upsert_row p t uuid d =
     (if pn_email p \<in> set (map sr_email (tb_signup_request d))
      then Inr (d\<lparr>tb_signup_request := update_where (\<lambda>r. sr_email r = pn_email p) (replaced_row p t) (tb_signup_request d)\<rparr>)
      else if uuid \<in> set (map sr_id (tb_signup_request d)) then Inl (unique_violation ''tb_signup_request_pkey'')
      else Inr (d\<lparr>tb_signup_request := tb_signup_request d @ [fresh_row p t uuid]\<rparr>))"

definition pg_upsert_pending :: "pending \<Rightarrow> unit io" where
  "pg_upsert_pending p =
     check ''upserting tb_signup_request: '' (pool_exec (insert_stmt (\<lambda>t uuid d. upsert_row p t uuid d))) ok"

definition pg_signup_store :: signup_store where
  "pg_signup_store = \<lparr>ss_exists = pg_active_user_exists, ss_upsert = pg_upsert_pending\<rparr>"

section \<open>verify.go\<close>

definition err_invalid_code :: gerror where
  "err_invalid_code = Err ''signup: code is invalid or expired''"

definition err_too_many_attempts :: gerror where
  "err_too_many_attempts = Err ''signup: too many attempts''"

definition err_no_pending :: gerror where
  "err_no_pending = Err ''signup: no pending registration''"

definition signup_max_attempts :: int where
  "signup_max_attempts = 5"

record pending_row =
  pr_name :: string
  pr_password :: string
  pr_code :: string
  pr_attempts :: int
  pr_expires :: int

record new_user =
  nu_name :: string
  nu_email :: string
  nu_password :: string
  nu_verified_at :: int

record verify_tx =
  vtx_pending :: "pending_row io"
  vtx_record_failed :: "unit io"
  vtx_promote :: "new_user \<Rightarrow> string io"
  vtx_discard :: "unit io"
  vtx_commit :: "unit io"
  vtx_rollback :: "unit eff"

type_synonym verifier_store = "string \<Rightarrow> verify_tx io"

record verifier =
  vf_store :: verifier_store
  vf_issuer :: issuer
  vf_auditor :: "recorder option"

definition new_verifier :: "verifier_store \<Rightarrow> issuer \<Rightarrow> verifier" where
  "new_verifier store iss = \<lparr>vf_store = store, vf_issuer = iss, vf_auditor = None\<rparr>"

definition signup_event :: "string \<Rightarrow> string \<Rightarrow> string \<Rightarrow> session_meta \<Rightarrow> (string \<times> jval) list \<Rightarrow> audit_event" where
  "signup_event name uid email meta md = (event name)\<lparr>ev_user := uid, ev_email := email,
     ev_ip := m_ip meta, ev_user_agent := m_user_agent meta, ev_metadata := md\<rparr>"

definition verify_signup :: "verifier \<Rightarrow> string \<Rightarrow> session_meta \<Rightarrow> string \<Rightarrow> tokens io" where
  "verify_signup v raw_email meta code = (
     let email = normalize_email raw_email in
     check ''signup: opening verification: '' (vf_store v email) (\<lambda>tx.
     deferred (vtx_rollback tx) (do {
       p \<leftarrow> vtx_pending tx;
       case p of
         Inl e \<Rightarrow>
           if errors_is e err_no_pending then do {
             best_effort (vf_auditor v) (signup_event event_signup_code_rejected [] email meta
               [(''reason'', JStr ''no_pending_registration'')]);
             leave False (Inl err_invalid_code) }
           else leave False (Inl (wrap ''signup: reading pending registration: '' e))
       | Inr row \<Rightarrow> do {
           now \<leftarrow> read_clock;
           if \<not> now < pr_expires row then do {
             best_effort (vf_auditor v) (signup_event event_signup_code_rejected [] email meta
               [(''reason'', JStr ''expired'')]);
             leave False (Inl err_invalid_code) }
           else if signup_max_attempts \<le> pr_attempts row then leave False (Inl err_too_many_attempts)
           else if \<not> codes_equal (hash_code code) (pr_code row) then
             tcheck ''signup: recording failed attempt: '' (vtx_record_failed tx) (\<lambda>_.
             tcheck ''signup: committing failed attempt: '' (vtx_commit tx) (\<lambda>_. do {
               best_effort (vf_auditor v) (signup_event event_signup_code_rejected [] email meta
                 [(''reason'', JStr ''wrong_code''), (''attempts'', JInt (pr_attempts row + 1))]);
               leave True (Inl err_invalid_code) }))
           else do {
             verified_at \<leftarrow> read_clock;
             tcheck ''signup: creating user: '' (vtx_promote tx \<lparr>nu_name = pr_name row, nu_email = email,
                 nu_password = pr_password row, nu_verified_at = verified_at\<rparr>) (\<lambda>uid.
             tcheck ''signup: discarding pending registration: '' (vtx_discard tx) (\<lambda>_.
             tcheck ''signup: committing verification: '' (vtx_commit tx) (\<lambda>_. do {
               t \<leftarrow> vf_issuer v uid meta;
               case t of
                 Inl e \<Rightarrow> leave True (Inl e)
               | Inr toks \<Rightarrow> do {
                   best_effort (vf_auditor v) (signup_event event_signup_verified uid email meta []);
                   best_effort (vf_auditor v) ((event event_session_created)\<lparr>ev_user := uid,
                     ev_ip := m_ip meta, ev_user_agent := m_user_agent meta\<rparr>);
                   leave True (Inr toks) } }))) } } })))"

section \<open>verify_postgres.go\<close>

definition pending_of :: "string \<Rightarrow> signup_row list \<Rightarrow> signup_row option" where
  "pending_of email rows = select_one (\<lambda>r. sr_email r = email) rows"

definition pending_row_of :: "signup_row \<Rightarrow> pending_row" where
  "pending_row_of r = \<lparr>pr_name = sr_name r, pr_password = sr_password r, pr_code = sr_hash r,
     pr_attempts = sr_attempts r, pr_expires = sr_expires r\<rparr>"

definition pg_pending :: "string \<Rightarrow> pending_row io" where
  "pg_pending email = do {
     r \<leftarrow> tx_exec (query_stmt (\<lambda>d. pending_of email (tb_signup_request d)));
     case r of
       Inl e \<Rightarrow> fail (wrap ''selecting pending registration: '' e)
     | Inr None \<Rightarrow> fail err_no_pending
     | Inr (Some row) \<Rightarrow> ok (pending_row_of row) }"

definition failed_once :: "int \<Rightarrow> signup_row \<Rightarrow> signup_row" where
  "failed_once t r = r\<lparr>sr_attempts := sr_attempts r + 1, sr_updated := t\<rparr>"

definition pg_record_failed_attempt :: "string \<Rightarrow> unit io" where
  "pg_record_failed_attempt email = check ''incrementing attempts: '' (tx_exec (update_stmt (\<lambda>t d.
     d\<lparr>tb_signup_request := update_where (\<lambda>r. sr_email r = email) (failed_once t) (tb_signup_request d)\<rparr>))) ok"

definition promoted_user :: "new_user \<Rightarrow> int \<Rightarrow> string \<Rightarrow> user_row" where
  "promoted_user u t uuid = \<lparr>u_id = uuid, u_name = Some (nu_name u), u_email = Some (nu_email u),
     u_password = Some (nu_password u), u_verified_at = Some (nu_verified_at u), u_failed = 0,
     u_locked_until = None, u_status = ''ACTIVE'', u_created = t, u_updated = t, u_deleted = None\<rparr>"

definition pg_promote :: "new_user \<Rightarrow> string io" where
  "pg_promote u = check ''inserting tb_user: '' (tx_exec (\<lambda>t uuid d.
     map_sum id (Pair uuid) (insert_user (promoted_user u t uuid) d))) ok"

definition pg_discard_pending :: "string \<Rightarrow> unit io" where
  "pg_discard_pending email = check ''deleting pending registration: '' (tx_exec (update_stmt (\<lambda>t d.
     d\<lparr>tb_signup_request := filter (\<lambda>r. sr_email r \<noteq> email) (tb_signup_request d)\<rparr>))) ok"

definition pg_verify_tx :: "string \<Rightarrow> verify_tx" where
  "pg_verify_tx email = \<lparr>vtx_pending = pg_pending email, vtx_record_failed = pg_record_failed_attempt email,
     vtx_promote = pg_promote, vtx_discard = pg_discard_pending email, vtx_commit = tx_commit,
     vtx_rollback = tx_rollback\<rparr>"

definition pg_begin_verify :: verifier_store where
  "pg_begin_verify email = check ''beginning transaction: '' pool_begin (\<lambda>_. ok (pg_verify_tx email))"

end
