(* ===== verification/Login_Safety.thy ===== *)
theory Login_Safety
  imports Login Session_Safety
begin

text \<open>
  What the lockout of package \<open>login\<close> guarantees: who can get in, that every refusal looks the
  same, and how many passwords anyone can try against one account in a given time.
\<close>

text \<open>The service over its PostgreSQL store, the session issuer and the audit log.\<close>

definition pg_login_service :: "jwt_lib \<Rightarrow> session_config \<Rightarrow> string \<Rightarrow> login_service \<Rightarrow> bool" where
  "pg_login_service J cfg k s \<longleftrightarrow> lg_issuer s = issue J cfg pg_store_refresh_token \<and>
     lg_auditor s = Some (pg_record k) \<and> lg_store s = pg_login_store"

lemma login_run:
  assumes "pg_login_service J cfg k s" and "run_state (login s email password meta) w = (r, w')"
  shows "login_post s email password w r w'"
  using wpD [OF pg_login.login_effect assms(2)] assms(1) by (simp add: pg_login_service_def)

abbreviation account :: "string \<Rightarrow> world \<Rightarrow> user_row option" where
  "account email w \<equiv> select_one (owns_email (normalize_email email)) (tb_user (w_db w))"

lemma select_failure:
  "select_one (owns_email e) (update_where (\<lambda>x. u_id x = uid) (failure_recorded l t) users)
     = map_option (\<lambda>x. if u_id x = uid then failure_recorded l t x else x) (select_one (owns_email e) users)"
  by (rule select_one_update_where) (simp add: owns_email_def failure_recorded_def)

lemma select_reset:
  "select_one (owns_email e) (update_where (\<lambda>x. u_id x = uid) (failures_reset t) users)
     = map_option (\<lambda>x. if u_id x = uid then failures_reset t x else x) (select_one (owns_email e) users)"
  by (rule select_one_update_where) (simp add: owns_email_def failures_reset_def)

section \<open>Who gets in\<close>

text \<open>C22: A login that succeeds, whatever fails around it, was for an existing, undeleted, ACTIVE
  account that was not locked, with the password its stored hash accepts; afterwards the failure
  counter is clear and exactly one live session was added, for that account.\<close>

theorem login_success:
  assumes "pg_login_service J cfg k s" and "run_state (login s email password meta) w = (Inr toks, w')"
  shows "\<exists>u now n. account email w = Some u \<and> u_deleted u = None \<and> u_status u = status_active
     \<and> w_clock w \<le> now \<and> now \<le> w_clock w' \<and> (\<forall>l. u_locked_until u = Some l \<longrightarrow> l \<le> now)
     \<and> lg_verify s (coalesce_empty (u_password u)) password = Inr True
     \<and> (\<exists>u'. account email w' = Some u' \<and> u_failed u' = 0 \<and> u_locked_until u' = None)
     \<and> token_rows w' = token_rows w @ [n] \<and> rt_user n = u_id u \<and> rt_revoked n = None"
proof -
  from login_run [OF assms] obtain new where sp: "login_spec (reliable w) (max_attempts s) (lock_duration s)
      (lg_verify s) (normalize_email email) password (w_clock w) (w_clock w') (tb_user (w_db w)) (Inr toks) (tb_user (w_db w')) new"
    and rows: "token_rows w' = token_rows w @ new" by (auto simp: login_post_def)
  from sp show ?thesis
  proof cases
    case (accepted u now t)
    then have "account email w' = Some (failures_reset t u)" by (simp add: select_reset)
    moreover have "u_failed (failures_reset t u) = 0" "u_locked_until (failures_reset t u) = None"
      by (simp_all add: failures_reset_def)
    moreover have "u_deleted u = None" using accepted by (auto simp: owns_email_def dest: select_one_SomeD)
    ultimately show ?thesis using accepted rows by auto
  qed
qed

text \<open>While an account is locked no password opens it, not even the right one, and the
  attempt changes neither the account nor its sessions.\<close>

theorem login_locked_refused:
  assumes "pg_login_service J cfg k s" and "run_state (login s email password meta) w = (r, w')"
    and "account email w = Some u" and "u_locked_until u = Some l" and "w_clock w' < l"
    and "u_status u = status_active"
  shows "\<not> is_ok r \<and> tb_user (w_db w') = tb_user (w_db w) \<and> token_rows w' = token_rows w"
  using login_run [OF assms(1,2)] assms(3-6)
  by (auto simp: login_post_def login_spec.simps)

text \<open>Refusals are uniform: when nothing fails, an unknown address, an account that is not
  ACTIVE and a wrong password below the limit all get the very same answer.\<close>

theorem login_uniform:
  assumes "pg_login_service J cfg k s" and "run_state (login s email password meta) w = (r, w')"
    and "reliable w"
    and "case account email w of None \<Rightarrow> True
         | Some u \<Rightarrow> (\<forall>l. u_locked_until u = Some l \<longrightarrow> l \<le> w_clock w) \<and>
             (u_status u \<noteq> status_active \<or>
              lg_verify s (coalesce_empty (u_password u)) password \<noteq> Inr True \<and> u_failed u + 1 < max_attempts s)"
  shows "r = Inl err_invalid_credentials"
  using login_run [OF assms(1,2)] assms(3,4)
  by (cases "account email w") (auto simp: login_post_def login_spec.simps simp del: select_one_None)

text \<open>The limit engages: when nothing fails, the wrong password that reaches the limit locks
  the account for the lock duration from that attempt, and says so.\<close>

theorem login_limit_locks:
  assumes "pg_login_service J cfg k s" and "run_state (login s email password meta) w = (r, w')"
    and "reliable w" and "account email w = Some u" and "u_status u = status_active"
    and "\<forall>l. u_locked_until u = Some l \<longrightarrow> l \<le> w_clock w"
    and "lg_verify s (coalesce_empty (u_password u)) password \<noteq> Inr True"
    and "max_attempts s \<le> u_failed u + 1"
  shows "r = Inl (LockedError (lock_duration s))
    \<and> (\<exists>u' l. account email w' = Some u' \<and> u_locked_until u' = Some l \<and> w_clock w + lock_duration s \<le> l)"
  using login_run [OF assms(1,2)] assms(3-8)
  by (auto simp: login_post_def login_spec.simps select_failure failure_recorded_def)

section \<open>Guessing\<close>

text \<open>An attacker's attempts against one address, one after the other.\<close>

fun guesses :: "login_service \<Rightarrow> string \<Rightarrow> session_meta \<Rightarrow> string list \<Rightarrow> world \<Rightarrow> (gerror + tokens) list \<times> world" where
  "guesses s email meta [] w = ([], w)"
| "guesses s email meta (p # ps) w =
     (let (r, w1) = run_state (login s email p meta) w; (rs, w2) = guesses s email meta ps w1 in (r # rs, w2))"

definition rejected :: "(gerror + tokens) list \<Rightarrow> int" where
  "rejected rs = int (length (filter (\<lambda>r. r = Inl err_invalid_credentials) rs))"

text \<open>
  The state of the account during the attack: \<open>k\<close> plain rejections so far, the attack began at
  \<open>t0\<close>. Past the limit every recorded failure has cost one lock duration.
\<close>

definition under_attack :: "login_service \<Rightarrow> string \<Rightarrow> string \<Rightarrow> int \<Rightarrow> int \<Rightarrow> world \<Rightarrow> bool" where
  "under_attack s email hash t0 k w \<longleftrightarrow> (\<exists>u. account email w = Some u \<and> u_status u = status_active \<and>
     coalesce_empty (u_password u) = hash \<and> k \<le> u_failed u \<and> k < max_attempts s \<and> t0 \<le> w_clock w \<and>
     (max_attempts s \<le> u_failed u \<longrightarrow>
        (u_failed u - max_attempts s) * lock_duration s \<le> w_clock w - t0 \<and>
        (\<exists>l. u_locked_until u = Some l \<and> t0 + (u_failed u - max_attempts s + 1) * lock_duration s \<le> l)))"

lemma max_attempts_pos: "0 < max_attempts s"
  by (simp add: max_attempts_def default_max_attempts_def)

lemma lock_duration_pos: "0 < lock_duration s"
  by (simp add: lock_duration_def default_lock_duration_def minute_def second_def)

lemma guess_step:
  assumes "pg_login_service J cfg k s" and "run_state (login s email p meta) w = (r, w')"
    and "under_attack s email hash t0 n w" and "lg_verify s hash p \<noteq> Inr True"
  shows "\<not> is_ok r \<and> under_attack s email hash t0 (n + rejected [r]) w'"
proof -
  from assms(3) obtain u where u: "account email w = Some u" "u_status u = status_active"
      "coalesce_empty (u_password u) = hash" "n \<le> u_failed u" "n < max_attempts s" "t0 \<le> w_clock w"
    and lock: "max_attempts s \<le> u_failed u \<Longrightarrow> (u_failed u - max_attempts s) * lock_duration s \<le> w_clock w - t0 \<and>
        (\<exists>l. u_locked_until u = Some l \<and> t0 + (u_failed u - max_attempts s + 1) * lock_duration s \<le> l)"
    by (auto simp: under_attack_def)
  from login_run [OF assms(1,2)]
  have clock: "w_clock w \<le> w_clock w'" and
    spec: "\<exists>new. login_spec (reliable w) (max_attempts s) (lock_duration s) (lg_verify s) (normalize_email email) p
      (w_clock w) (w_clock w') (tb_user (w_db w)) r (tb_user (w_db w')) new"
    by (auto simp: login_post_def same_oracles_clock)
  have same: "under_attack s email hash t0 n w'" if "tb_user (w_db w') = tb_user (w_db w)"
    using u lock clock that by (fastforce simp: under_attack_def)
  from spec obtain new where sp: "login_spec (reliable w) (max_attempts s) (lock_duration s) (lg_verify s)
      (normalize_email email) p (w_clock w) (w_clock w') (tb_user (w_db w)) r (tb_user (w_db w')) new" by blast
  then show ?thesis
  proof (cases rule: login_spec.cases)
    case (wrong u' now lock' e t)
    then have row: "account email w' = Some (failure_recorded lock' t u)"
      using u(1) by (simp add: select_failure)
    have new: "u_status (failure_recorded lock' t u) = status_active"
      "coalesce_empty (u_password (failure_recorded lock' t u)) = hash"
      "u_failed (failure_recorded lock' t u) = u_failed u + 1"
      using u by (simp_all add: failure_recorded_def)
    show ?thesis
    proof (cases "max_attempts s \<le> u_failed u + 1")
      case True
      then have l: "u_locked_until (failure_recorded lock' t u) = Some (now + lock_duration s)" and "rejected [r] = 0"
        using wrong u(1) by (auto simp: failure_recorded_def rejected_def answers_def)
      moreover have "t0 + (u_failed u + 1 - max_attempts s) * lock_duration s \<le> now"
      proof (cases "max_attempts s \<le> u_failed u")
        case True
        then show ?thesis using lock [OF True] wrong u(1) by (auto simp: algebra_simps)
      next
        case False
        then have "u_failed u + 1 = max_attempts s" using True by simp
        then show ?thesis using u(6) wrong by simp
      qed
      ultimately show ?thesis
        using row new u clock wrong unfolding under_attack_def
        by (intro conjI exI [of _ "failure_recorded lock' t u"]) (auto simp: algebra_simps)
    next
      case False
      then have "rejected [r] \<le> 1" "0 \<le> rejected [r]" by (auto simp: rejected_def)
      then show ?thesis
        using False row new u clock wrong unfolding under_attack_def
        by (intro conjI exI [of _ "failure_recorded lock' t u"]) auto
    qed
  next
    case (broken e)
    then show ?thesis using same by (auto simp: rejected_def answers_def)
  next
    case (locked u' l now)
    then show ?thesis using same by (auto simp: rejected_def)
  qed (use u assms(4) in auto)
qed

lemma rejected_Cons: "rejected (r # rs) = rejected [r] + rejected rs"
  by (simp add: rejected_def)

lemma guesses_attack:
  assumes "pg_login_service J cfg k s" and "guesses s email meta ps w = (rs, w')"
    and "under_attack s email hash t0 n w" and "\<forall>p \<in> set ps. lg_verify s hash p \<noteq> Inr True"
  shows "(\<forall>r \<in> set rs. \<not> is_ok r) \<and> under_attack s email hash t0 (n + rejected rs) w'"
  using assms(2-4)
proof (induction ps arbitrary: w rs n)
  case Nil
  then show ?case by (simp add: rejected_def)
next
  case (Cons p ps)
  obtain r w1 where run: "run_state (login s email p meta) w = (r, w1)" by fastforce
  obtain rs1 w2 where rest: "guesses s email meta ps w1 = (rs1, w2)" by fastforce
  have rs: "rs = r # rs1" "w2 = w'" using Cons.prems(1) run rest by (auto simp: Let_def)
  have step: "\<not> is_ok r \<and> under_attack s email hash t0 (n + rejected [r]) w1"
    using guess_step [OF assms(1) run Cons.prems(2)] Cons.prems(3) by simp
  then show ?case
    using Cons.IH [OF rest [unfolded rs(2)] conjunct2 [OF step]] Cons.prems(3)
    by (simp add: rs rejected_Cons [of r rs1] add.assoc)
qed


section \<open>Worked examples\<close>

text \<open>A service whose password check accepts one word, and an account in a given state.\<close>

definition demo_login :: login_service where
  "demo_login = \<lparr>lg_store = pg_login_store, lg_issuer = issue demo_jwt demo_config pg_store_refresh_token,
     lg_auditor = Some (pg_record ''k''), lg_verify = \<lambda>hash p. Inr (p = ''good''), lg_dummy = [],
     lg_max_attempts = 5, lg_lock_duration = 900\<rparr>"

definition demo_account :: "int \<Rightarrow> int option \<Rightarrow> world" where
  "demo_account failed lock = calm (empty_db\<lparr>tb_user := [demo_user\<lparr>u_failed := failed, u_locked_until := lock\<rparr>]\<rparr>)"

lemma demo_login_service: "pg_login_service demo_jwt demo_config ''k'' demo_login"
  by (simp add: pg_login_service_def demo_login_def)

lemma normal_ana: "normalize_email ''ana@example.com'' = ''ana@example.com''"
  by code_simp

lemma demo_account_row: "account ''ana@example.com'' (demo_account f l) = Some (demo_user\<lparr>u_failed := f, u_locked_until := l\<rparr>)"
  by (simp add: normal_ana demo_account_def owns_email_def demo_user_def)

lemma demo_account_simps [simp]: "reliable (demo_account f l)" "w_clock (demo_account f l) = 0"
  "lg_verify demo_login h p = Inr (p = ''good'')" "max_attempts demo_login = 5" "lock_duration demo_login = 900"
  by (simp_all add: demo_account_def demo_login_def max_attempts_def lock_duration_def)

lemma demo_active [simp]: "u_status (demo_user\<lparr>u_failed := f, u_locked_until := l\<rparr>) = status_active"
  by (simp add: demo_user_def status_active_def)

lemma login_run_clock:
  assumes "run_state (login demo_login email p meta) (demo_account f l) = (r, w')"
  shows "w_clock w' = 0"
  using login_run [OF demo_login_service assms] calm_clock by (auto simp: login_post_def demo_account_def)

lemma login_locked_refused_witness:
  "\<not> is_ok (fst (run_state (login demo_login ''ana@example.com'' ''good'' demo_meta) (demo_account 5 (Some 900))))"
proof -
  obtain r w' where run: "run_state (login demo_login ''ana@example.com'' ''good'' demo_meta)
      (demo_account 5 (Some 900)) = (r, w')" by fastforce
  show ?thesis
    using login_locked_refused [OF demo_login_service run demo_account_row] login_run_clock [OF run] run by simp
qed

lemma login_uniform_witness:
  "fst (run_state (login demo_login ''ana@example.com'' ''bad'' demo_meta) (demo_account 0 None)) = Inl err_invalid_credentials
   \<and> fst (run_state (login demo_login ''ana@example.com'' ''bad'' demo_meta) (calm empty_db)) = Inl err_invalid_credentials"
  using login_uniform [where w = "demo_account 0 None" and email = "''ana@example.com''" and password = "''bad''",
      OF demo_login_service prod.collapse [symmetric]]
    login_uniform [where w = "calm empty_db" and email = "''ana@example.com''" and password = "''bad''",
      OF demo_login_service prod.collapse [symmetric]]
  by (simp add: demo_account_row del: select_one_None)

lemma login_limit_locks_witness:
  "fst (run_state (login demo_login ''ana@example.com'' ''bad'' demo_meta) (demo_account 4 None)) = Inl (LockedError 900)"
  using login_limit_locks [where w = "demo_account 4 None" and email = "''ana@example.com''" and password = "''bad''",
      OF demo_login_service prod.collapse [symmetric] _ demo_account_row]
  by simp


text \<open>With nothing failing and no session yet, issuing succeeds.\<close>

lemma demo_issue_step:
  assumes "moves w0 d t q w" and "reliable w0" and "tb_refresh_token d = []" and "uid \<noteq> []"
    and "uid \<in> set (map u_id (tb_user d))" and "\<And>toks d' w'. moves w0 d' t q w' \<Longrightarrow> Q (Inr toks) w'"
  shows "wp (issue demo_jwt demo_config pg_store_refresh_token uid meta) Q w"
  unfolding issue_def
  apply (insert assms(1) assms(4))
  by (((erule wp_steps)+)?; clarsimp simp: wp_code assms(2,3,6) insert_refresh_def refresh_row_of_def demo_jwt_def
      assms(5) [simplified] split: if_splits; (intro conjI impI)?)+

lemma demo_login_ok: "is_ok (fst (run_state (login demo_login ''ana@example.com'' ''good'' demo_meta) (demo_account 3 None)))"
proof -
  let ?w = "demo_account 3 None"
  have "wp (login demo_login ''ana@example.com'' ''good'' demo_meta) (\<lambda>r w'. is_ok r) ?w"
  proof (rule wp_start)
    fix w' assume m: "moves ?w (w_db ?w) (w_tx ?w) (w_mq ?w) w'" "w_clock ?w \<le> w_clock w'"
    have d: "lg_store demo_login = pg_login_store" "lg_auditor demo_login = Some (pg_record ''k'')"
      "lg_issuer demo_login = issue demo_jwt demo_config pg_store_refresh_token"
      "tb_refresh_token (w_db ?w) = []" "tb_user (w_db ?w) = [demo_user\<lparr>u_failed := 3, u_locked_until := None\<rparr>]" "u_id demo_user = ''u1''"
      "owns_email ''ana@example.com'' (demo_user\<lparr>u_failed := 3, u_locked_until := None\<rparr>)"
      by (simp_all add: demo_login_def demo_account_def empty_db_def demo_user_def owns_email_def)
    show "wp (login demo_login ''ana@example.com'' ''good'' demo_meta) (\<lambda>r w'. is_ok r) w'"
      unfolding login_def Let_def
      apply (insert m)
      by (((erule wp_steps pg_audit.best_effort_step demo_issue_step)+)?; clarsimp simp: wp_code d normal_ana failures_reset_def; (intro conjI impI)?)+
  qed
  then show ?thesis by (simp add: wp_run)
qed

lemma login_success_witness:
  "\<exists>toks w' n. run_state (login demo_login ''ana@example.com'' ''good'' demo_meta) (demo_account 3 None) = (Inr toks, w')
     \<and> token_rows w' = token_rows (demo_account 3 None) @ [n] \<and> rt_user n = ''u1''"
proof -
  obtain toks w' where run: "run_state (login demo_login ''ana@example.com'' ''good'' demo_meta) (demo_account 3 None) = (Inr toks, w')"
    using demo_login_ok by (metis is_ok.elims(2) prod.collapse)
  show ?thesis
    using login_success [OF demo_login_service run] run by (auto simp: demo_account_row demo_user_def)
qed

end
