(* ===== verification/Signup_Safety.thy ===== *)
theory Signup_Safety
  imports Signup Login_Safety
begin

text \<open>
  What registration guarantees. \<open>request_spec\<close> and \<open>verify_spec\<close> are the visible behaviour of the
  two calls; \<open>request_effect\<close> and \<open>verify_effect\<close> prove that the code implements them under every
  failure. From them: who becomes a user, how far guessing a code can get, and what a caller
  learns about the addresses that have an account.
\<close>

section \<open>The steps of the stores\<close>

lemma signup_store_simps [simp]:
  "ss_exists pg_signup_store = pg_active_user_exists" "ss_upsert pg_signup_store = pg_upsert_pending"
  "vtx_pending (pg_verify_tx email) = pg_pending email" "vtx_record_failed (pg_verify_tx email) = pg_record_failed_attempt email"
  "vtx_promote (pg_verify_tx email) = pg_promote" "vtx_discard (pg_verify_tx email) = pg_discard_pending email"
  "vtx_commit (pg_verify_tx email) = tx_commit" "vtx_rollback (pg_verify_tx email) = tx_rollback"
  by (simp_all add: pg_signup_store_def pg_verify_tx_def)

definition signup_answer :: "gerror \<Rightarrow> bool" where
  "signup_answer e \<longleftrightarrow> e = err_invalid_code \<or> e = err_too_many_attempts"

lemma signup_errors [simp]:
  "errors_is err_no_pending err_no_pending" "\<not> errors_is (ExtError m) err_no_pending"
  "Wrapf p e x \<noteq> err_no_pending" "ExtError m \<noteq> err_no_pending"
  "\<not> signup_answer (Wrapf p e x)" "signup_answer err_invalid_code" "signup_answer err_too_many_attempts"
  "err_invalid_code \<noteq> err_too_many_attempts" "err_too_many_attempts \<noteq> err_invalid_code"
  "Wrapf p e x \<noteq> err_invalid_code" "Wrapf p e x \<noteq> err_too_many_attempts"
  "err_invalid_code \<noteq> Wrapf p e x" "err_too_many_attempts \<noteq> Wrapf p e x"
  by (auto simp: err_no_pending_def signup_answer_def err_invalid_code_def err_too_many_attempts_def)

lemma pg_active_user_exists_step [wp_steps]:
  assumes "moves w0 d t q w"
    and "\<And>p e w'. \<not> reliable w0 \<Longrightarrow> moves w0 d t q w' \<Longrightarrow> w_clock w \<le> w_clock w' \<Longrightarrow> Q (Inl (wrap p e)) w'"
    and "\<And>w'. moves w0 d t q w' \<Longrightarrow> w_clock w \<le> w_clock w' \<Longrightarrow> Q (Inr (list_ex (owns_email email) (tb_user d))) w'"
  shows "wp (pg_active_user_exists email) Q w"
  unfolding pg_active_user_exists_def wp_code
  by (rule pool_exec_step [OF assms(1)]) (auto intro: assms)

lemma pg_upsert_pending_step [wp_steps]:
  assumes "moves w0 d t q w"
    and "\<And>p e w'. \<not> reliable w0 \<Longrightarrow> moves w0 d t q w' \<Longrightarrow> w_clock w \<le> w_clock w' \<Longrightarrow> Q (Inl (wrap p e)) w'"
    and "\<And>k s e w'. upsert_row p (w_clock w') (w_uuid w0 k) d = Inl e \<Longrightarrow> moves w0 d t q w' \<Longrightarrow>
           w_clock w \<le> w_clock w' \<Longrightarrow> Q (Inl (wrap s e)) w'"
    and "\<And>k d' w'. upsert_row p (w_clock w') (w_uuid w0 k) d = Inr d' \<Longrightarrow> moves w0 d' t q w' \<Longrightarrow>
           w_clock w \<le> w_clock w' \<Longrightarrow> Q (Inr ()) w'"
    and "\<And>k s d' e w'. \<not> reliable w0 \<Longrightarrow> upsert_row p (w_clock w') (w_uuid w0 k) d = Inr d' \<Longrightarrow>
           moves w0 d' t q w' \<Longrightarrow> w_clock w \<le> w_clock w' \<Longrightarrow> Q (Inl (wrap s e)) w'"
  shows "wp (pg_upsert_pending p) Q w"
  unfolding pg_upsert_pending_def wp_code
  by (rule pool_exec_step [OF assms(1)]) (auto intro: assms split: sum.splits)

lemma pg_pending_step [wp_steps]:
  assumes "moves w0 d (Some \<lparr>tx_db = d1, tx_now = t\<rparr>) q w"
    and "\<And>s m w'. \<not> reliable w0 \<Longrightarrow> moves w0 d None q w' \<Longrightarrow> w_clock w \<le> w_clock w' \<Longrightarrow> Q (Inl (wrap s (ExtError m))) w'"
    and "\<And>w'. pending_of email (tb_signup_request d1) = None \<Longrightarrow> moves w0 d (Some \<lparr>tx_db = d1, tx_now = t\<rparr>) q w' \<Longrightarrow>
           w_clock w \<le> w_clock w' \<Longrightarrow> Q (Inl err_no_pending) w'"
    and "\<And>r w'. pending_of email (tb_signup_request d1) = Some r \<Longrightarrow> moves w0 d (Some \<lparr>tx_db = d1, tx_now = t\<rparr>) q w' \<Longrightarrow>
           w_clock w \<le> w_clock w' \<Longrightarrow> Q (Inr (pending_row_of r)) w'"
  shows "wp (pg_pending email) Q w"
  unfolding pg_pending_def wp_code
  by (rule tx_exec_step [OF assms(1)]) (auto intro: assms split: option.splits)

lemma pg_record_failed_step [wp_steps]:
  assumes "moves w0 d (Some \<lparr>tx_db = d1, tx_now = t\<rparr>) q w"
    and "\<And>s e w'. \<not> reliable w0 \<Longrightarrow> moves w0 d None q w' \<Longrightarrow> w_clock w \<le> w_clock w' \<Longrightarrow> Q (Inl (wrap s e)) w'"
    and "\<And>w'. moves w0 d (Some \<lparr>tx_db = d1\<lparr>tb_signup_request := update_where (\<lambda>r. sr_email r = email) (failed_once t)
           (tb_signup_request d1)\<rparr>, tx_now = t\<rparr>) q w' \<Longrightarrow> w_clock w \<le> w_clock w' \<Longrightarrow> Q (Inr ()) w'"
  shows "wp (pg_record_failed_attempt email) Q w"
  unfolding pg_record_failed_attempt_def wp_code
  by (rule tx_exec_step [OF assms(1)]) (auto intro: assms)

lemma pg_promote_step [wp_steps]:
  assumes "moves w0 d (Some \<lparr>tx_db = d1, tx_now = t\<rparr>) q w"
    and "\<And>s e w'. \<not> reliable w0 \<Longrightarrow> moves w0 d None q w' \<Longrightarrow> w_clock w \<le> w_clock w' \<Longrightarrow> Q (Inl (wrap s e)) w'"
    and "\<And>k s e w'. insert_user (promoted_user u t (w_uuid w0 k)) d1 = Inl e \<Longrightarrow> moves w0 d None q w' \<Longrightarrow>
           w_clock w \<le> w_clock w' \<Longrightarrow> Q (Inl (wrap s e)) w'"
    and "\<And>k d' w'. insert_user (promoted_user u t (w_uuid w0 k)) d1 = Inr d' \<Longrightarrow>
           moves w0 d (Some \<lparr>tx_db = d', tx_now = t\<rparr>) q w' \<Longrightarrow> w_clock w \<le> w_clock w' \<Longrightarrow> Q (Inr (w_uuid w0 k)) w'"
  shows "wp (pg_promote u) Q w"
  unfolding pg_promote_def wp_code
  by (rule tx_exec_step [OF assms(1)]) (auto intro: assms simp: map_sum_def split: sum.splits)

lemma pg_discard_step [wp_steps]:
  assumes "moves w0 d (Some \<lparr>tx_db = d1, tx_now = t\<rparr>) q w"
    and "\<And>s e w'. \<not> reliable w0 \<Longrightarrow> moves w0 d None q w' \<Longrightarrow> w_clock w \<le> w_clock w' \<Longrightarrow> Q (Inl (wrap s e)) w'"
    and "\<And>w'. moves w0 d (Some \<lparr>tx_db = d1\<lparr>tb_signup_request := filter (\<lambda>r. sr_email r \<noteq> email)
           (tb_signup_request d1)\<rparr>, tx_now = t\<rparr>) q w' \<Longrightarrow> w_clock w \<le> w_clock w' \<Longrightarrow> Q (Inr ()) w'"
  shows "wp (pg_discard_pending email) Q w"
  unfolding pg_discard_pending_def wp_code
  by (rule tx_exec_step [OF assms(1)]) (auto intro: assms)

lemma pg_begin_verify_step [wp_steps]:
  assumes "moves w0 d t q w"
    and "\<And>s e w'. \<not> reliable w0 \<Longrightarrow> moves w0 d t q w' \<Longrightarrow> w_clock w \<le> w_clock w' \<Longrightarrow> Q (Inl (wrap s e)) w'"
    and "\<And>w'. moves w0 d (Some \<lparr>tx_db = d, tx_now = w_clock w'\<rparr>) q w' \<Longrightarrow> w_clock w \<le> w_clock w' \<Longrightarrow>
           Q (Inr (pg_verify_tx email)) w'"
  shows "wp (pg_begin_verify email) Q w"
  unfolding pg_begin_verify_def wp_code
  by (rule pool_begin_step [OF assms(1)]) (auto intro: assms)

section \<open>Consuming a code\<close>

definition promote_blocked :: "string set \<Rightarrow> string \<Rightarrow> user_row list \<Rightarrow> bool" where
  "promote_blocked ids email users \<longleftrightarrow> list_ex (owns_email email) users \<or> ids \<inter> set (map u_id users) \<noteq> {}"

text \<open>The user a pending registration becomes.\<close>

definition becomes :: "signup_row \<Rightarrow> string \<Rightarrow> user_row list \<Rightarrow> user_row \<Rightarrow> bool" where
  "becomes p email users u \<longleftrightarrow> u_email u = Some email \<and> u_name u = Some (sr_name p) \<and>
     u_password u = Some (sr_password p) \<and> u_status u = ''ACTIVE'' \<and> u_deleted u = None \<and> u_failed u = 0 \<and>
     u_locked_until u = None \<and> u_verified_at u \<noteq> None \<and>
     u_id u \<notin> set (map u_id users) \<and> \<not> list_ex (owns_email email) users"

inductive verify_spec ::
  "bool \<Rightarrow> string set \<Rightarrow> string \<Rightarrow> string \<Rightarrow> int \<Rightarrow> int \<Rightarrow> user_row list \<Rightarrow> signup_row list \<Rightarrow>
   gerror + tokens \<Rightarrow> user_row list \<Rightarrow> signup_row list \<Rightarrow> refresh_row list \<Rightarrow> bool"
  for rel :: bool and ids :: "string set" and email :: string and code :: string and t0 :: int and t1 :: int
    and users :: "user_row list" and rows :: "signup_row list"
where
  absent: "pending_of email rows = None \<Longrightarrow>
    verify_spec rel ids email code t0 t1 users rows (Inl err_invalid_code) users rows []"
| expired: "pending_of email rows = Some p \<Longrightarrow> sr_expires p \<le> t1 \<Longrightarrow>
    verify_spec rel ids email code t0 t1 users rows (Inl err_invalid_code) users rows []"
| spent: "pending_of email rows = Some p \<Longrightarrow> signup_max_attempts \<le> sr_attempts p \<Longrightarrow>
    verify_spec rel ids email code t0 t1 users rows (Inl err_too_many_attempts) users rows []"
| broken: "\<not> rel \<or> promote_blocked ids email users \<Longrightarrow> \<not> signup_answer e \<Longrightarrow>
    verify_spec rel ids email code t0 t1 users rows (Inl e) users rows []"
| wrong: "pending_of email rows = Some p \<Longrightarrow> sr_attempts p < signup_max_attempts \<Longrightarrow> t0 < sr_expires p \<Longrightarrow>
    hash_code code \<noteq> sr_hash p \<Longrightarrow> r = Inl err_invalid_code \<or> \<not> rel \<and> (\<exists>e. r = Inl e \<and> \<not> signup_answer e) \<Longrightarrow>
    verify_spec rel ids email code t0 t1 users rows r users
      (update_where (\<lambda>r. sr_email r = email) (failed_once t) rows) []"
| promoted: "pending_of email rows = Some p \<Longrightarrow> sr_attempts p < signup_max_attempts \<Longrightarrow> t0 < sr_expires p \<Longrightarrow>
    hash_code code = sr_hash p \<Longrightarrow> becomes p email users u \<Longrightarrow>
    new = [] \<and> \<not> is_ok r \<or> (\<exists>n. new = [n] \<and> rt_user n = u_id u \<and> rt_revoked n = None) \<Longrightarrow>
    verify_spec rel ids email code t0 t1 users rows r (users @ [u]) (filter (\<lambda>r. sr_email r \<noteq> email) rows) new"

inductive_cases verify_specE: "verify_spec rel ids email code t0 t1 users rows r users' rows' new"

abbreviation signup_rows :: "world \<Rightarrow> signup_row list" where
  "signup_rows w \<equiv> tb_signup_request (w_db w)"

definition verify_post :: "string \<Rightarrow> string \<Rightarrow> world \<Rightarrow> gerror + tokens \<Rightarrow> world \<Rightarrow> bool" where
  "verify_post email code w r w' \<longleftrightarrow> (\<exists>new.
     db_changes {T_user, T_refresh_token, T_signup_request} (w_db w) (w_db w') \<and> w_tx w' = None \<and>
     w_mq w' = w_mq w \<and> same_oracles w w' \<and> token_rows w' = token_rows w @ new \<and>
     verify_spec (reliable w) (range (w_uuid w)) (normalize_email email) code (w_clock w) (w_clock w')
       (tb_user (w_db w)) (signup_rows w) r (tb_user (w_db w')) (signup_rows w') new)"

lemma verify_postI:
  assumes "moves w d' None (w_mq w) w'" and "db_changes {T_user, T_refresh_token, T_signup_request} (w_db w) d'"
    and "tb_refresh_token d' = token_rows w @ new"
    and "verify_spec (reliable w) (range (w_uuid w)) (normalize_email email) code (w_clock w) (w_clock w')
       (tb_user (w_db w)) (signup_rows w) r (tb_user d') (tb_signup_request d') new"
  shows "verify_post email code w r w'"
  using assms movesD [OF assms(1)] unfolding verify_post_def by auto

lemma verify_post_kept:
  assumes "moves w d' None (w_mq w) w'" and "db_changes {T_user, T_refresh_token, T_signup_request} (w_db w) d'"
    and "tb_refresh_token d' = token_rows w" and "tb_user d' = tb_user (w_db w)" and "tb_signup_request d' = signup_rows w"
  shows "pending_of (normalize_email email) (signup_rows w) = None \<Longrightarrow> verify_post email code w (Inl err_invalid_code) w'"
    and "pending_of (normalize_email email) (signup_rows w) = Some p \<Longrightarrow> sr_expires p \<le> w_clock w' \<Longrightarrow>
      verify_post email code w (Inl err_invalid_code) w'"
    and "pending_of (normalize_email email) (signup_rows w) = Some p \<Longrightarrow> signup_max_attempts \<le> sr_attempts p \<Longrightarrow>
      verify_post email code w (Inl err_too_many_attempts) w'"
    and "\<not> reliable w \<Longrightarrow> \<not> signup_answer e \<Longrightarrow> verify_post email code w (Inl e) w'"
    and "promote_blocked (range (w_uuid w)) (normalize_email email) (tb_user (w_db w)) \<Longrightarrow> \<not> signup_answer e \<Longrightarrow>
      verify_post email code w (Inl e) w'"
  by (rule verify_postI [where new = "[]", OF assms(1,2)]; simp add: assms(3-5) verify_spec.absent verify_spec.expired
      verify_spec.spent verify_spec.broken)+

lemma verify_post_wrong:
  assumes "moves w d' None (w_mq w) w'" and "db_changes {T_user, T_refresh_token, T_signup_request} (w_db w) d'"
    and "tb_refresh_token d' = token_rows w" and "tb_user d' = tb_user (w_db w)"
    and "tb_signup_request d' = update_where (\<lambda>r. sr_email r = normalize_email email) (failed_once t) (signup_rows w)"
    and "pending_of (normalize_email email) (signup_rows w) = Some p" and "sr_attempts p < signup_max_attempts"
    and "w_clock w < sr_expires p" and "hash_code code \<noteq> sr_hash p"
    and "r = Inl err_invalid_code \<or> \<not> reliable w \<and> (\<exists>e. r = Inl e \<and> \<not> signup_answer e)"
  shows "verify_post email code w r w'"
  by (rule verify_postI [where new = "[]", OF assms(1,2)])
    (simp_all add: assms(3-5) verify_spec.wrong [OF assms(6-10)])

lemma verify_post_promoted:
  assumes "moves w d' None (w_mq w) w'" and "db_changes {T_user, T_refresh_token, T_signup_request} (w_db w) d'"
    and "tb_refresh_token d' = token_rows w @ new" and "tb_user d' = tb_user (w_db w) @ [u]"
    and "tb_signup_request d' = filter (\<lambda>r. sr_email r \<noteq> normalize_email email) (signup_rows w)"
    and "pending_of (normalize_email email) (signup_rows w) = Some p" and "sr_attempts p < signup_max_attempts"
    and "w_clock w < sr_expires p" and "hash_code code = sr_hash p"
    and "becomes p (normalize_email email) (tb_user (w_db w)) u"
    and "new = [] \<and> \<not> is_ok r \<or> (\<exists>n. new = [n] \<and> rt_user n = u_id u \<and> rt_revoked n = None)"
  shows "verify_post email code w r w'"
  by (rule verify_postI [OF assms(1-3)])
    (simp only: assms(4,5), rule verify_spec.promoted [OF assms(6-11)])

lemma pending_row_of_simps [simp]:
  "pr_name (pending_row_of r) = sr_name r" "pr_password (pending_row_of r) = sr_password r"
  "pr_code (pending_row_of r) = sr_hash r" "pr_attempts (pending_row_of r) = sr_attempts r"
  "pr_expires (pending_row_of r) = sr_expires r"
  by (simp_all add: pending_row_of_def)

lemma promote_fails: "insert_user (promoted_user \<lparr>nu_name = n, nu_email = e, nu_password = p, nu_verified_at = v\<rparr> t i) d = Inl x \<Longrightarrow>
    i \<in> ids \<Longrightarrow> promote_blocked ids e (tb_user d)"
  by (auto simp: insert_user_def promoted_user_def promote_blocked_def email_free_def split: if_splits)

lemma promote_ok:
  assumes "insert_user (promoted_user \<lparr>nu_name = sr_name p, nu_email = e, nu_password = sr_password p, nu_verified_at = v\<rparr> t i) d = Inr d'"
  shows "\<exists>u. d' = d\<lparr>tb_user := tb_user d @ [u]\<rparr> \<and> u_id u = i \<and> becomes p e (tb_user d) u"
  using assms by (auto simp: insert_user_Inr promoted_user_def becomes_def email_free_def)

locale signup_env = session_issuer issuer ttl + auditing auditor
  for issuer ttl auditor
begin

lemma verify_effect:
  assumes "vf_issuer v = issuer" and "vf_auditor v = auditor" and "vf_store v = pg_begin_verify" and "w_tx w = None"
  shows "wp (verify_signup v email meta code) (verify_post email code w) w"
proof (rule wp_start_idle [OF assms(4)])
  fix w' assume m: "moves w (w_db w) None (w_mq w) w'" "w_clock w \<le> w_clock w'"
  show "wp (verify_signup v email meta code) (verify_post email code w) w'"
    unfolding verify_signup_def Let_def codes_equal_def
    apply (insert m)
    apply (((erule wp_steps issuer_step best_effort_step)+)?; clarsimp simp: wp_code assms(1-3) verify_post_kept verify_post_wrong not_less not_le;
       (intro conjI impI)?; (rule state_cases)?)+
    apply (drule promote_fails [OF _ rangeI [of "w_uuid w"]])
    apply (((erule wp_steps)+)?; clarsimp simp: wp_code verify_post_kept)
    apply (drule promote_ok, clarsimp)
    by ((((erule wp_steps issuer_step best_effort_step)+)?; clarsimp simp: wp_code assms(1-3) verify_post_kept
       verify_post_promoted issued_row_def; (rule state_cases)?)+)
qed

end

interpretation pg_signup: signup_env "issue J cfg pg_store_refresh_token" "sc_refresh_ttl cfg" "Some (pg_record k)" for J cfg k
  by unfold_locales

section \<open>Asking for a code\<close>

text \<open>The row a request leaves for its address, and the rows of the other addresses.\<close>

definition stored_pending :: "idkey \<Rightarrow> string \<Rightarrow> string \<Rightarrow> string \<Rightarrow> string \<Rightarrow> int \<Rightarrow> int \<Rightarrow> signup_row list \<Rightarrow> signup_row list \<Rightarrow> bool" where
  "stored_pending K email name password code t0 t1 rows rows' \<longleftrightarrow> (\<exists>n salt. pending_of email rows' = Some n \<and>
     sr_name n = trim_space name \<and> sr_hash n = hash_code code \<and> sr_attempts n = 0 \<and>
     sr_password n = encode_hash salt (K password salt argon_time argon_memory argon_threads argon_key_len) \<and>
     length salt = 16 \<and> t0 + code_lifetime \<le> sr_expires n \<and> sr_expires n \<le> t1 + code_lifetime \<and>
     filter (\<lambda>r. sr_email r \<noteq> email) rows' = filter (\<lambda>r. sr_email r \<noteq> email) rows)"

inductive request_spec ::
  "bool \<Rightarrow> string set \<Rightarrow> idkey \<Rightarrow> string \<Rightarrow> string \<Rightarrow> string \<Rightarrow> int \<Rightarrow> int \<Rightarrow> user_row list \<Rightarrow> signup_row list \<Rightarrow> string list \<Rightarrow>
   gerror + unit \<Rightarrow> signup_row list \<Rightarrow> string list \<Rightarrow> bool"
  for rel :: bool and ids :: "string set" and K :: idkey and email :: string and name :: string and password :: string
    and t0 :: int and t1 :: int and users :: "user_row list" and rows :: "signup_row list" and q :: "string list"
where
  failed: "\<not> rel \<or> ids \<inter> set (map sr_id rows) \<noteq> {} \<Longrightarrow>
    request_spec rel ids K email name password t0 t1 users rows q (Inl e) rows q"
| existing: "list_ex (owns_email email) users \<Longrightarrow> is_ok r \<or> \<not> rel \<Longrightarrow>
    request_spec rel ids K email name password t0 t1 users rows q r rows (q @ [marshal_message (existing_mail email)])"
| pending: "\<not> list_ex (owns_email email) users \<Longrightarrow> length buf = 4 \<Longrightarrow>
    stored_pending K email name password (code_of_bytes buf) t0 t1 rows rows' \<Longrightarrow>
    q' = q @ [marshal_message (signup_mail email (code_of_bytes buf))] \<and> (is_ok r \<or> \<not> rel) \<or> q' = q \<and> \<not> rel \<and> \<not> is_ok r \<Longrightarrow>
    request_spec rel ids K email name password t0 t1 users rows q r rows' q'"

definition request_post :: "idkey \<Rightarrow> string \<Rightarrow> string \<Rightarrow> string \<Rightarrow> world \<Rightarrow> gerror + unit \<Rightarrow> world \<Rightarrow> bool" where
  "request_post K email name password w r w' \<longleftrightarrow>
     db_changes {T_signup_request} (w_db w) (w_db w') \<and> tb_security_event (w_db w') = tb_security_event (w_db w) \<and>
     w_tx w' = w_tx w \<and> same_oracles w w' \<and>
     request_spec (reliable w) (range (w_uuid w)) K (normalize_email email) name password (w_clock w) (w_clock w')
       (tb_user (w_db w)) (signup_rows w) (w_mq w) r (signup_rows w') (w_mq w')"

lemma request_postI:
  assumes "moves w ((w_db w)\<lparr>tb_signup_request := rows\<rparr>) (w_tx w) q w'"
    and "request_spec (reliable w) (range (w_uuid w)) K (normalize_email email) name password (w_clock w) (w_clock w')
       (tb_user (w_db w)) (signup_rows w) (w_mq w) r rows q"
  shows "request_post K email name password w r w'"
  using assms movesD [OF assms(1)] unfolding request_post_def by simp

lemma request_post_kept:
  assumes "moves w (w_db w) (w_tx w) q w'"
  shows "q = w_mq w \<Longrightarrow> \<not> reliable w \<or> range (w_uuid w) \<inter> set (map sr_id (signup_rows w)) \<noteq> {} \<Longrightarrow>
      request_post K email name password w (Inl e) w'"
    and "list_ex (owns_email (normalize_email email)) (tb_user (w_db w)) \<Longrightarrow> is_ok r \<or> \<not> reliable w \<Longrightarrow>
      q = w_mq w @ [marshal_message (existing_mail (normalize_email email))] \<Longrightarrow>
      request_post K email name password w r w'"
  by (rule request_postI [where rows = "signup_rows w" and q = q];
      use assms in \<open>simp add: request_spec.failed request_spec.existing\<close>)+

lemma upsert_row_ok:
  assumes "upsert_row p t i d = Inr d'"
  shows "\<exists>rows' n. d' = d\<lparr>tb_signup_request := rows'\<rparr> \<and> pending_of (pn_email p) rows' = Some n \<and>
    sr_name n = pn_name p \<and> sr_hash n = pn_code p \<and> sr_attempts n = 0 \<and> sr_password n = pn_password p \<and>
    sr_expires n = pn_expires p \<and>
    filter (\<lambda>r. sr_email r \<noteq> pn_email p) rows' = filter (\<lambda>r. sr_email r \<noteq> pn_email p) (tb_signup_request d)"
proof (cases "pn_email p \<in> set (map sr_email (tb_signup_request d))")
  case True
  let ?rows = "update_where (\<lambda>r. sr_email r = pn_email p) (replaced_row p t) (tb_signup_request d)"
  obtain r where r: "pending_of (pn_email p) (tb_signup_request d) = Some r" "sr_email r = pn_email p"
    using True by (cases "pending_of (pn_email p) (tb_signup_request d)")
      (auto simp: pending_of_def dest: select_one_SomeD)
  have "pending_of (pn_email p) ?rows = map_option (\<lambda>r. if sr_email r = pn_email p then replaced_row p t r else r)
      (pending_of (pn_email p) (tb_signup_request d))"
    unfolding pending_of_def by (rule select_one_update_where) (simp add: replaced_row_def)
  moreover have "filter (\<lambda>r. sr_email r \<noteq> pn_email p) ?rows = filter (\<lambda>r. sr_email r \<noteq> pn_email p) (tb_signup_request d)"
    by (rule filter_update_where) (simp_all add: replaced_row_def)
  ultimately show ?thesis using assms True r
    by (intro exI [of _ ?rows] exI [of _ "replaced_row p t r"]) (auto simp: upsert_row_def replaced_row_def)
next
  case False
  then have "select_one (\<lambda>r. sr_email r = pn_email p) (tb_signup_request d) = None" by (auto simp: image_iff)
  then have "pending_of (pn_email p) (tb_signup_request d @ [fresh_row p t i]) = Some (fresh_row p t i)"
    by (simp only: pending_of_def select_one_append option.case) (simp add: fresh_row_def)
  then show ?thesis using assms False
    by (intro exI [of _ "tb_signup_request d @ [fresh_row p t i]"] exI [of _ "fresh_row p t i"])
      (auto simp: upsert_row_def fresh_row_def split: if_splits)
qed

lemma upsert_row_fails: "upsert_row p t i d = Inl e \<Longrightarrow> i \<in> ids \<Longrightarrow> ids \<inter> set (map sr_id (tb_signup_request d)) \<noteq> {}"
  by (auto simp: upsert_row_def split: if_splits)

lemma request_post_pending:
  assumes "moves w d' (w_tx w) q w'" and "\<not> list_ex (owns_email (normalize_email email)) (tb_user (w_db w))"
    and "upsert_row \<lparr>pn_email = normalize_email email, pn_name = trim_space name,
       pn_password = encode_hash salt (K password salt argon_time argon_memory argon_threads argon_key_len),
       pn_code = hash_code (code_of_bytes (map (w_entropy w k) [0..<4])), pn_expires = now + code_lifetime\<rparr> t i (w_db w) = Inr d'"
    and "length salt = 16" and "w_clock w \<le> now" and "now \<le> w_clock w'"
    and "q = w_mq w @ [marshal_message (signup_mail (normalize_email email) (code_of_bytes (map (w_entropy w k) [0..<4])))]
         \<and> (is_ok r \<or> \<not> reliable w) \<or> q = w_mq w \<and> \<not> reliable w \<and> \<not> is_ok r"
  shows "request_post K email name password w r w'"
proof -
  obtain rows' where rows: "d' = (w_db w)\<lparr>tb_signup_request := rows'\<rparr>"
    and sp: "stored_pending K (normalize_email email) name password (code_of_bytes (map (w_entropy w k) [0..<4]))
        (w_clock w) (w_clock w') (signup_rows w) rows'"
    using upsert_row_ok [OF assms(3)] assms(4-6) by (fastforce simp: stored_pending_def)
  show ?thesis
    by (rule request_postI [OF assms(1) [unfolded rows] request_spec.pending [OF assms(2) _ sp assms(7)]]) simp
qed

context mail_publisher
begin

lemma request_effect:
  assumes "sg_publisher s = publish" and "sg_generate s = generate_code" and "sg_hash s = hash_password K"
    and "sg_store s = pg_signup_store"
  shows "wp (request_signup s email name password) (request_post K email name password w) w"
proof (rule wp_start)
  fix w' assume m: "moves w (w_db w) (w_tx w) (w_mq w) w'" "w_clock w \<le> w_clock w'"
  show "wp (request_signup s email name password) (request_post K email name password w) w'"
    unfolding request_signup_def signup_publish_def Let_def
    apply (insert m)
    apply (((erule wp_steps publish_law)+)?; clarsimp simp: wp_code assms request_post_kept; (intro conjI impI)?)+
    apply (drule upsert_row_fails [OF _ rangeI [of "w_uuid w"]], simp add: request_post_kept)
    apply ((((erule publish_law)+)?; clarsimp simp: wp_code assms;
      (erule request_post_pending, assumption, assumption, assumption; clarsimp)?)+)?
    by (erule request_post_pending, assumption, assumption, assumption; clarsimp)
qed

end

section \<open>The services of the program\<close>

definition pg_signup_service :: "idkey \<Rightarrow> string \<Rightarrow> signup_service" where
  "pg_signup_service K queue = new_signup K pg_signup_store (amqp_publish queue)"

definition pg_verifier :: "jwt_lib \<Rightarrow> session_config \<Rightarrow> string \<Rightarrow> verifier" where
  "pg_verifier J cfg k =
     (new_verifier pg_begin_verify (issue J cfg pg_store_refresh_token))\<lparr>vf_auditor := Some (pg_record k)\<rparr>"

lemma request_run:
  assumes "run_state (request_signup (pg_signup_service K queue) email name password) w = (r, w')"
  shows "request_post K email name password w r w'"
  by (rule wpD [OF amqp.request_effect assms]) (simp_all add: pg_signup_service_def new_signup_def)

lemma verify_run:
  assumes "w_tx w = None" and "run_state (verify_signup (pg_verifier J cfg k) email meta code) w = (r, w')"
  shows "verify_post email code w r w'"
  by (rule wpD [OF pg_signup.verify_effect [OF _ _ _ assms(1)] assms(2)]) (simp_all add: pg_verifier_def new_verifier_def)

abbreviation pending_row_in :: "string \<Rightarrow> world \<Rightarrow> signup_row option" where
  "pending_row_in email w \<equiv> pending_of (normalize_email email) (signup_rows w)"

text \<open>The code an attempt is compared with.\<close>

definition signup_code_in :: "string \<Rightarrow> world \<Rightarrow> (string \<times> int \<times> int) option" where
  "signup_code_in email w = map_option (\<lambda>p. (sr_hash p, sr_attempts p, sr_expires p)) (pending_row_in email w)"

lemma pending_failed_once:
  "pending_of e (update_where (\<lambda>r. sr_email r = e) (failed_once t) rows)
     = map_option (failed_once t) (pending_of e rows)"
  unfolding pending_of_def by (rule select_one_update_key) (simp add: failed_once_def)

lemma pending_discarded: "pending_of e (filter (\<lambda>r. sr_email r \<noteq> e) rows) = None"
  by (auto simp: pending_of_def)

interpretation signup_guard: code_guard "verify_signup (pg_verifier J cfg k) email meta" "signup_code_in email"
    err_invalid_code signup_max_attempts for J cfg k email meta
proof
  fix g :: string and w r w' h and a x :: int
  assume "w_tx w = None" and "run_state (verify_signup (pg_verifier J cfg k) email meta g) w = (r, w')"
  then have post: "verify_post email g w r w'" by (rule verify_run)
  assume row: "signup_code_in email w = Some (h, a, x)"
  then obtain p where p: "pending_row_in email w = Some p" "h = sr_hash p" "a = sr_attempts p" "x = sr_expires p"
    by (auto simp: signup_code_in_def)
  show "\<not> is_ok r \<and> w_tx w' = None \<and> w_clock w \<le> w_clock w' \<and>
      (signup_code_in email w' = Some (h, a, x) \<and> (r = Inl err_invalid_code \<longrightarrow> x \<le> w_clock w')
       \<or> signup_code_in email w' = Some (h, a + 1, x) \<and> a < signup_max_attempts)" if "hash_code g \<noteq> h"
    using post that p
    by (auto simp: verify_post_def verify_spec.simps signup_code_in_def pending_failed_once failed_once_def same_oracles_clock)
  show "\<not> is_ok r \<and> w_tx w' = None \<and> signup_code_in email w' = Some (h, a, x)" if "signup_max_attempts \<le> a"
    using post that p
    by (auto simp: verify_post_def verify_spec.simps signup_code_in_def pending_failed_once failed_once_def same_oracles_clock)
qed

section \<open>Who becomes a user\<close>

text \<open>C23: An account appears only through its code: whenever a verification succeeds, or adds a user
  in spite of a failure later on, the address had a pending registration with attempts left, not
  expired, whose stored digest is that of the presented code; the new user is that registration,
  ACTIVE and verified, for an address no other live account has; the registration is gone, so the
  code cannot be used again; and a success opened exactly one session, for that user.\<close>

theorem signup_only_with_code:
  assumes "w_tx w = None" and "run_state (verify_signup (pg_verifier J cfg k) email meta code) w = (r, w')"
    and "is_ok r \<or> tb_user (w_db w') \<noteq> tb_user (w_db w)"
  shows "\<exists>p u. pending_row_in email w = Some p \<and> sr_attempts p < signup_max_attempts \<and> w_clock w < sr_expires p
     \<and> sr_hash p = hash_code code \<and> becomes p (normalize_email email) (tb_user (w_db w)) u
     \<and> tb_user (w_db w') = tb_user (w_db w) @ [u] \<and> pending_row_in email w' = None
     \<and> (is_ok r \<longrightarrow> (\<exists>n. token_rows w' = token_rows w @ [n] \<and> rt_user n = u_id u \<and> rt_revoked n = None))"
  using verify_run [OF assms(1,2)] assms(3)
  by (auto simp: verify_post_def verify_spec.simps pending_discarded)

text \<open>Six digits are protected by the counter: however many wrong codes are tried against a pending
  registration, in whatever worlds, none is accepted, the counter never passes five, and until
  the code expires at most as many are told they are wrong as attempts were left.\<close>

theorem signup_codes_bounded:
  assumes "w_tx w = None" and "try_codes (verify_signup (pg_verifier J cfg k) email meta) gs w = (rs, w')"
    and "pending_row_in email w = Some p" and "sr_attempts p \<le> signup_max_attempts"
    and "\<forall>g \<in> set gs. hash_code g \<noteq> sr_hash p"
  shows "(\<forall>r \<in> set rs. \<not> is_ok r) \<and> (\<exists>p'. pending_row_in email w' = Some p' \<and> sr_hash p' = sr_hash p
     \<and> sr_attempts p' \<le> signup_max_attempts
     \<and> (w_clock w' < sr_expires p \<longrightarrow> answered err_invalid_code rs \<le> sr_attempts p' - sr_attempts p))"
proof -
  have "signup_code_in email w = Some (sr_hash p, sr_attempts p, sr_expires p)"
    using assms(3) by (simp add: signup_code_in_def)
  from signup_guard.misses_bounded [OF assms(1,2) this assms(4,5)] show ?thesis
    by (auto simp: signup_code_in_def)
qed

text \<open>Once five attempts are used the registration is dead: not even the right code is accepted,
  however often it is tried.\<close>

theorem signup_spent_refuses:
  assumes "w_tx w = None" and "try_codes (verify_signup (pg_verifier J cfg k) email meta) gs w = (rs, w')"
    and "pending_row_in email w = Some p" and "signup_max_attempts \<le> sr_attempts p"
  shows "\<forall>r \<in> set rs. \<not> is_ok r"
proof -
  have "signup_code_in email w = Some (sr_hash p, sr_attempts p, sr_expires p)"
    using assms(3) by (simp add: signup_code_in_def)
  from signup_guard.spent_refuses [OF assms(1,2) this assms(4)] show ?thesis by blast
qed

section \<open>What a request tells\<close>

lemma request_reliable:
  assumes "run_state (request_signup (pg_signup_service K queue) email name password) w = (r, w')"
    and "reliable w" and "range (w_uuid w) \<inter> set (map sr_id (signup_rows w)) = {}"
  shows "r = Inr ()" and "list_ex (owns_email (normalize_email email)) (tb_user (w_db w)) \<Longrightarrow>
      signup_rows w' = signup_rows w \<and> w_mq w' = w_mq w @ [marshal_message (existing_mail (normalize_email email))]"
    and "\<not> list_ex (owns_email (normalize_email email)) (tb_user (w_db w)) \<Longrightarrow>
      \<exists>buf. w_mq w' = w_mq w @ [marshal_message (signup_mail (normalize_email email) (code_of_bytes buf))] \<and>
        stored_pending K (normalize_email email) name password (code_of_bytes buf) (w_clock w) (w_clock w') (signup_rows w) (signup_rows w')"
  using request_run [OF assms(1)] assms(2,3)
  by (auto simp: request_post_def request_spec.simps elim: is_ok.elims)

text \<open>Asking for a code does not tell who has an account: when nothing fails the answer is the same
  for every address, no user is touched, and exactly one mail goes to that address and no other.\<close>

theorem signup_request_uniform:
  assumes "run_state (request_signup (pg_signup_service K queue) email name password) w = (r, w')"
    and "reliable w" and "range (w_uuid w) \<inter> set (map sr_id (signup_rows w)) = {}"
  shows "r = Inr () \<and> db_changes {T_signup_request} (w_db w) (w_db w') \<and>
    (\<exists>m. w_mq w' = w_mq w @ [marshal_message m] \<and> mm_to m = normalize_email email)"
proof -
  have "mm_to (existing_mail e) = e" "mm_to (signup_mail e c) = e" for e c
    by (simp_all add: existing_mail_def signup_mail_def)
  then show ?thesis
    using request_reliable [OF assms] request_run [OF assms(1)]
    by (cases "list_ex (owns_email (normalize_email email)) (tb_user (w_db w))") (auto simp: request_post_def)
qed

text \<open>Registration works end to end: when nothing fails, a request for a free address mails a code
  of six digits, and presenting that code within ten minutes creates the user, whose stored hash
  accepts the password that was chosen.\<close>

theorem signup_roundtrip:
  assumes "run_state (request_signup (pg_signup_service K queue) email name password) w = (r, w1)"
    and "reliable w" and "w_tx w = None"
    and "range (w_uuid w) \<inter> set (map sr_id (signup_rows w) @ map u_id (tb_user (w_db w))) = {}"
    and "\<not> list_ex (owns_email (normalize_email email)) (tb_user (w_db w))"
    and "\<And>salt. length (K password salt argon_time argon_memory argon_threads argon_key_len) = argon_key_len"
  shows "\<exists>code. length code = 6 \<and> list_all is_digit code
    \<and> w_mq w1 = w_mq w @ [marshal_message (signup_mail (normalize_email email) code)]
    \<and> (\<forall>r2 w2. run_state (verify_signup (pg_verifier J cfg k) email meta code) w1 = (r2, w2)
         \<and> w_clock w2 < w_clock w + code_lifetime \<longrightarrow>
       (\<exists>u. tb_user (w_db w2) = tb_user (w_db w) @ [u] \<and> u_email u = Some (normalize_email email)
          \<and> u_status u = status_active \<and> verify_password K (coalesce_empty (u_password u)) password = Inr True))"
proof -
  from request_reliable(3) [OF assms(1,2) _ assms(5)] assms(4) obtain buf where
    mail: "w_mq w1 = w_mq w @ [marshal_message (signup_mail (normalize_email email) (code_of_bytes buf))]" and
    sp: "stored_pending K (normalize_email email) name password (code_of_bytes buf) (w_clock w) (w_clock w1) (signup_rows w) (signup_rows w1)"
    by auto
  from request_run [OF assms(1)] have w1: "w_tx w1 = None" "tb_user (w_db w1) = tb_user (w_db w)" "w_uuid w1 = w_uuid w" "reliable w1"
    using assms(2,3) db_changesD [of "{T_signup_request}" "w_db w" "w_db w1" T_user]
    by (auto simp: request_post_def same_oracles_def reliable_def)
  have "\<exists>u. tb_user (w_db w2) = tb_user (w_db w) @ [u] \<and> u_email u = Some (normalize_email email)
      \<and> u_status u = status_active \<and> verify_password K (coalesce_empty (u_password u)) password = Inr True"
    if run: "run_state (verify_signup (pg_verifier J cfg k) email meta (code_of_bytes buf)) w1 = (r2, w2)"
      and early: "w_clock w2 < w_clock w + code_lifetime" for r2 w2
    using verify_run [OF w1(1) run] w1 sp early assms(4-6)
    by (auto simp: verify_post_def verify_spec.simps stored_pending_def signup_max_attempts_def becomes_def
        promote_blocked_def status_active_def coalesce_empty_def verify_encoded)
  then show ?thesis using mail length_code_of_bytes code_of_bytes_digits by blast
qed

section \<open>Worked examples\<close>

text \<open>A pending registration whose code is \<open>123456\<close>, with some attempts used.\<close>

definition demo_pending :: "int \<Rightarrow> signup_row" where
  "demo_pending n = \<lparr>sr_id = ''p1'', sr_email = ''ana@example.com'', sr_name = ''Ana'', sr_password = ''h'',
     sr_hash = hash_code ''123456'', sr_attempts = n, sr_expires = 600, sr_created = 0, sr_updated = 0\<rparr>"

definition demo_signup_world :: "int \<Rightarrow> world" where
  "demo_signup_world n = calm (empty_db\<lparr>tb_signup_request := [demo_pending n]\<rparr>)"

lemma demo_pending_row: "pending_row_in ''ana@example.com'' (demo_signup_world n) = Some (demo_pending n)"
  by (simp add: normal_ana demo_signup_world_def demo_pending_def pending_of_def)

lemma demo_pending_simps [simp]:
  "sr_attempts (demo_pending n) = n" "sr_expires (demo_pending n) = 600" "sr_hash (demo_pending n) = hash_code ''123456''"
  "signup_rows (demo_signup_world n) = [demo_pending n]" "tb_user (w_db (demo_signup_world n)) = []"
  "w_clock (demo_signup_world n) = 0" "w_tx (demo_signup_world n) = None" "reliable (demo_signup_world n)"
  by (simp_all add: demo_pending_def demo_signup_world_def empty_db_def)

abbreviation demo_verify :: "string \<Rightarrow> tokens io" where
  "demo_verify \<equiv> verify_signup (pg_verifier demo_jwt demo_config ''k'') ''ana@example.com'' demo_meta"

lemma demo_wrong_codes: "hash_code ''000000'' \<noteq> hash_code ''123456''"
  by (simp add: hash_code_def sha256_123456 sha256_000000)

lemma signup_codes_bounded_witness:
  "list_all (\<lambda>r. \<not> is_ok r) (fst (try_codes demo_verify (replicate 9 ''000000'') (demo_signup_world 0)))"
  using signup_codes_bounded [OF demo_pending_simps(7) [of 0] prod.collapse [symmetric] demo_pending_row [of 0], where gs = "replicate 9 ''000000''" and J = demo_jwt
      and cfg = demo_config and k = "''k''" and meta = demo_meta] demo_wrong_codes
  by (simp add: list_all_iff signup_max_attempts_def del: try_codes.simps replicate.simps)

lemma signup_spent_refuses_witness:
  "list_all (\<lambda>r. \<not> is_ok r) (fst (try_codes demo_verify [''123456'', ''123456''] (demo_signup_world 5)))"
  using signup_spent_refuses [OF demo_pending_simps(7) [of 5] prod.collapse [symmetric] demo_pending_row [of 5], where gs = "[''123456'', ''123456'']"
      and J = demo_jwt and cfg = demo_config and k = "''k''" and meta = demo_meta]
  by (simp add: list_all_iff signup_max_attempts_def del: try_codes.simps)

lemma demo_verify_adds: "tb_user (w_db (snd (run_state (demo_verify ''123456'') (demo_signup_world 0)))) \<noteq> []"
proof -
  obtain r w' where run: "run_state (demo_verify ''123456'') (demo_signup_world 0) = (r, w')" by fastforce
  from verify_run [OF demo_pending_simps(7) run] have post: "verify_post ''ana@example.com'' ''123456'' (demo_signup_world 0) r w'" .
  moreover from post have "w_clock w' = 0"
    using calm_clock by (auto simp: verify_post_def demo_signup_world_def)
  ultimately show ?thesis using demo_pending_row [of 0]
    by (auto simp: verify_post_def verify_spec.simps run signup_max_attempts_def promote_blocked_def)
qed

lemma signup_only_with_code_witness:
  "\<exists>u. tb_user (w_db (snd (run_state (demo_verify ''123456'') (demo_signup_world 0)))) = [u] \<and> u_email u = Some ''ana@example.com''"
proof -
  show ?thesis
    using signup_only_with_code [OF demo_pending_simps(7) [of 0] prod.collapse [symmetric], where code = "''123456''" and email = "''ana@example.com''"
        and J = demo_jwt and cfg = demo_config and k = "''k''" and meta = demo_meta] demo_verify_adds
    by (fastforce simp: becomes_def normal_ana)
qed

lemma demo_empty: "w_tx (calm empty_db) = None" "reliable (calm empty_db)"
  by simp_all

lemma signup_request_uniform_witness:
  "fst (run_state (request_signup (pg_signup_service (\<lambda>p s t m q n. replicate n (CHR ''k'')) ''mail'') ''ana@example.com'' ''Ana'' ''pw'')
     (calm empty_db)) = Inr ()"
  using signup_request_uniform [OF prod.collapse [symmetric] demo_empty(2), where email = "''ana@example.com''" and name = "''Ana''"
      and password = "''pw''" and K = "\<lambda>p s t m q n. replicate n (CHR ''k'')" and queue = "''mail''"]
  by simp

lemma signup_roundtrip_witness:
  "\<exists>code. length code = 6 \<and> w_mq (snd (run_state (request_signup (pg_signup_service (\<lambda>p s t m q n. replicate n (CHR ''k'')) ''mail'')
      ''ana@example.com'' ''Ana'' ''pw'') (calm empty_db))) = [marshal_message (signup_mail ''ana@example.com'' code)]"
  using signup_roundtrip [OF prod.collapse [symmetric] demo_empty(2,1), where email = "''ana@example.com''" and name = "''Ana''"
      and password = "''pw''" and K = "\<lambda>p s t m q n. replicate n (CHR ''k'')" and queue = "''mail''"
      and J = demo_jwt and cfg = demo_config and k = "''k''" and meta = demo_meta]
  by (simp add: normal_ana) blast

end
