(* ===== verification/Email_Change.thy ===== *)
theory Email_Change
  imports Codes
begin

text \<open>
  Package \<open>emailchange\<close>: moving an account to another address, confirmed by a code mailed to the new
  one (\<open>service.go\<close>), with the PostgreSQL store (\<open>postgres.go\<close>). As in \<open>Password\<close>, the field \<open>token\<close> of
  the Go transaction is passed explicitly. \<open>AddressTaken\<close> reads through the pool, also while the
  transaction of \<open>Verify\<close> is open, and so sees only committed rows.
\<close>

section \<open>service.go\<close>

definition err_change_invalid_code :: gerror where
  "err_change_invalid_code = Err ''emailchange: code is invalid or expired''"

definition err_change_too_many :: gerror where
  "err_change_too_many = Err ''emailchange: too many attempts''"

definition err_email_taken :: gerror where
  "err_email_taken = Err ''emailchange: the address already belongs to an account''"

definition err_change_password :: gerror where
  "err_change_password = Err ''emailchange: password does not match''"

definition err_same_email :: gerror where
  "err_same_email = Err ''emailchange: the address is already the account's''"

definition err_change_collision :: gerror where
  "err_change_collision = Err ''emailchange: code collision''"

definition change_code_lifetime :: int where
  "change_code_lifetime = 10 * minute"

definition change_max_attempts :: int where
  "change_max_attempts = 5"

definition change_code_tries :: nat where
  "change_code_tries = 3"

record change_row =
  ch_token :: string
  ch_user :: string
  ch_code :: string
  ch_target :: string
  ch_attempts :: int
  ch_expires :: int
  ch_used :: "int option"

record change_tx =
  chx_token :: "change_row io"
  chx_record_failed :: "string \<Rightarrow> unit io"
  chx_consume :: "string \<Rightarrow> unit io"
  chx_set_email :: "string \<Rightarrow> string \<Rightarrow> unit io"
  chx_revoke_all :: "string \<Rightarrow> unit io"
  chx_commit :: "unit io"
  chx_rollback :: "unit eff"

record change_store =
  cst_password_hash :: "string \<Rightarrow> string io"
  cst_current_email :: "string \<Rightarrow> string io"
  cst_address_taken :: "string \<Rightarrow> bool io"
  cst_create :: "string \<Rightarrow> string \<Rightarrow> string \<Rightarrow> int \<Rightarrow> unit io"
  cst_last_request :: "string \<Rightarrow> int option io"
  cst_count_since :: "string \<Rightarrow> int \<Rightarrow> int io"
  cst_begin_verify :: "string \<Rightarrow> change_tx io"

record change_service =
  ec_store :: change_store
  ec_publisher :: publisher
  ec_auditor :: "recorder option"
  ec_generate :: "string io"
  ec_verify :: "string \<Rightarrow> string \<Rightarrow> gerror + bool"
  ec_quota :: quota

definition change_quota :: quota where
  "change_quota = \<lparr>cooldown = 0, window = 0, limit = 1\<rparr>"

definition new_change_service :: "idkey \<Rightarrow> change_store \<Rightarrow> publisher \<Rightarrow> recorder option \<Rightarrow> change_service" where
  "new_change_service K store p aud = \<lparr>ec_store = store, ec_publisher = p, ec_auditor = aud,
     ec_generate = generate_code, ec_verify = verify_password K, ec_quota = change_quota\<rparr>"

definition change_window :: "change_service \<Rightarrow> int" where
  "change_window s = (if 0 < window (ec_quota s) then window (ec_quota s) else default_window)"

definition change_publish :: "change_service \<Rightarrow> mail_message \<Rightarrow> unit io" where
  "change_publish s m = check ''emailchange: queueing mail: '' (ec_publisher s (marshal_message m)) ok"

definition change_mail :: "string \<Rightarrow> string \<Rightarrow> mail_message" where
  "change_mail code new_email = \<lparr>mm_to = new_email, mm_subject = ''Confirm'' @ [CHR 0xC3, CHR 0xA1] @ '' tu nuevo email'',
     mm_text = ''Tu c'' @ [CHR 0xC3, CHR 0xB3] @ ''digo para confirmar esta direcci'' @ [CHR 0xC3, CHR 0xB3] @ ''n es '' @ code @
       ''.'' @ [CHR 0x0A] @ ''Vence en 10 minutos y sirve una sola vez. Si no lo pediste, ignor'' @ [CHR 0xC3, CHR 0xA1] @ '' este mensaje.''\<rparr>"

definition change_event :: "string \<Rightarrow> string \<Rightarrow> string \<Rightarrow> (string \<times> jval) list \<Rightarrow> audit_event" where
  "change_event name uid email md = (event name)\<lparr>ev_user := uid, ev_email := email, ev_metadata := md\<rparr>"

text \<open>The loop over at most three codes; before the first draw \<open>err\<close> is nil, a value no exit shows.\<close>

definition draw_change_code :: "change_service \<Rightarrow> string \<Rightarrow> string \<Rightarrow> int \<Rightarrow> string io" where
  "draw_change_code s uid new_email now =
     code_loop ''emailchange: generating code: '' ''emailchange: storing token: ''
       ''emailchange: no free code after 3 tries: '' (ec_generate s) err_change_collision
       (\<lambda>code. cst_create (ec_store s) uid new_email (hash_code code) (now + change_code_lifetime))
       change_code_tries err_change_collision"

definition request_change :: "change_service \<Rightarrow> string \<Rightarrow> string \<Rightarrow> string \<Rightarrow> unit io" where
  "request_change s uid raw_email current_password = (
     let new_email = normalize_email raw_email in
     check ''emailchange: reading current email: '' (cst_current_email (ec_store s) uid) (\<lambda>current.
     if normalize_email current = new_email then fail err_same_email
     else check ''emailchange: checking address: '' (cst_address_taken (ec_store s) new_email) (\<lambda>taken.
     if taken then fail err_email_taken
     else check ''emailchange: reading password hash: '' (cst_password_hash (ec_store s) uid) (\<lambda>stored.
     if stored = [] then fail err_change_password
     else if ec_verify s stored current_password \<noteq> Inr True then do {
       best_effort (ec_auditor s) (change_event event_email_change_failed uid [] [(''reason'', JStr ''wrong_password'')]);
       fail err_change_password }
     else do {
       now \<leftarrow> read_clock;
       check ''emailchange: reading last request: '' (cst_last_request (ec_store s) uid) (\<lambda>last_at.
       check ''emailchange: counting requests: '' (cst_count_since (ec_store s) uid (now - change_window s)) (\<lambda>n.
       (case quota_check (ec_quota s) now last_at n of
          Inl e \<Rightarrow> do {
            best_effort (ec_auditor s) (change_event event_email_change_failed uid [] [(''reason'', JStr ''quota'')]);
            fail e }
        | Inr _ \<Rightarrow>
            attempt (draw_change_code s uid new_email now) (\<lambda>code.
            attempt (change_publish s (change_mail code new_email)) (\<lambda>_. do {
              best_effort (ec_auditor s) (change_event event_email_change_requested uid new_email []);
              ok () }))))) }))))"

definition verify_change :: "change_service \<Rightarrow> string \<Rightarrow> string \<Rightarrow> unit io" where
  "verify_change s uid code =
     check ''emailchange: opening verification: '' (cst_begin_verify (ec_store s) uid) (\<lambda>tx.
     deferred (chx_rollback tx) (do {
       t \<leftarrow> chx_token tx;
       case t of
         Inl e \<Rightarrow>
           if errors_is e err_change_invalid_code then leave False (Inl err_change_invalid_code)
           else leave False (Inl (wrap ''emailchange: reading token: '' e))
       | Inr row \<Rightarrow> do {
           now \<leftarrow> read_clock;
           if ch_used row \<noteq> None \<or> \<not> now < ch_expires row then leave False (Inl err_change_invalid_code)
           else if change_max_attempts \<le> ch_attempts row then leave False (Inl err_change_too_many)
           else if \<not> codes_equal (hash_code code) (ch_code row) then
             tcheck ''emailchange: recording attempt: '' (chx_record_failed tx (ch_token row)) (\<lambda>_.
             tcheck ''emailchange: committing attempt: '' (chx_commit tx) (\<lambda>_. do {
               best_effort (ec_auditor s) (change_event event_email_change_failed uid [] [(''reason'', JStr ''wrong_code'')]);
               leave True (Inl err_change_invalid_code) }))
           else
             tcheck ''emailchange: rechecking address: '' (cst_address_taken (ec_store s) (ch_target row)) (\<lambda>taken.
             if taken then leave False (Inl err_email_taken)
             else
               tcheck ''emailchange: setting email: '' (chx_set_email tx uid (ch_target row)) (\<lambda>_.
               tcheck ''emailchange: consuming token: '' (chx_consume tx (ch_token row)) (\<lambda>_.
               tcheck ''emailchange: revoking sessions: '' (chx_revoke_all tx uid) (\<lambda>_.
               tcheck ''emailchange: committing: '' (chx_commit tx) (\<lambda>_. do {
                 best_effort (ec_auditor s) (change_event event_email_changed uid (ch_target row) []);
                 leave True (Inr ()) }))))) } }))"

section \<open>postgres.go\<close>

definition purpose_change :: string where
  "purpose_change = ''EMAIL_CHANGE''"

definition pg_change_password_hash :: "string \<Rightarrow> string io" where
  "pg_change_password_hash uid = do {
     r \<leftarrow> pool_exec (query_stmt (\<lambda>d. select_one (live_user uid) (tb_user d)));
     case r of
       Inl e \<Rightarrow> fail (wrap ''selecting password hash: '' e)
     | Inr None \<Rightarrow> fail err_change_password
     | Inr (Some u) \<Rightarrow> ok (coalesce_empty (u_password u)) }"

definition pg_current_email :: "string \<Rightarrow> string io" where
  "pg_current_email uid = do {
     r \<leftarrow> pool_exec (query_stmt (\<lambda>d. select_one (live_user uid) (tb_user d)));
     case r of
       Inl e \<Rightarrow> fail (wrap ''selecting email: '' e)
     | Inr None \<Rightarrow> fail err_change_password
     | Inr (Some u) \<Rightarrow> ok (coalesce_empty (u_email u)) }"

definition pg_address_taken :: "string \<Rightarrow> bool io" where
  "pg_address_taken email =
     check ''checking address: '' (pool_exec (query_stmt (\<lambda>d. list_ex (owns_email email) (tb_user d)))) ok"

definition pending_change :: "string \<Rightarrow> user_token_row \<Rightarrow> bool" where
  "pending_change uid r \<longleftrightarrow> ut_user r = uid \<and> ut_purpose r = purpose_change \<and> ut_used r = None"

definition change_token_row :: "string \<Rightarrow> string \<Rightarrow> string \<Rightarrow> int \<Rightarrow> int \<Rightarrow> string \<Rightarrow> user_token_row" where
  "change_token_row uid target code_hash expires t uuid = \<lparr>ut_id = uuid, ut_user = uid, ut_purpose = purpose_change,
     ut_hash = code_hash, ut_target = target, ut_attempts = 0, ut_expires = expires, ut_used = None,
     ut_created = t, ut_updated = t\<rparr>"

definition pg_create_change_token :: "string \<Rightarrow> string \<Rightarrow> string \<Rightarrow> int \<Rightarrow> unit io" where
  "pg_create_change_token uid target code_hash expires =
     check ''beginning transaction: '' pool_begin (\<lambda>_.
     deferred tx_rollback (
       tcheck ''invalidating previous tokens: '' (tx_exec (update_stmt (\<lambda>t d.
         d\<lparr>tb_user_token := update_where (pending_change uid) (token_used t) (tb_user_token d)\<rparr>))) (\<lambda>_. do {
       r \<leftarrow> tx_exec (insert_stmt (\<lambda>t uuid d. insert_user_token (change_token_row uid target code_hash expires t uuid) d));
       case r of
         Inl e \<Rightarrow> (case as_pg_error e of
             Some (c, _) \<Rightarrow> if c = ''23505'' then leave False (Inl err_change_collision)
                             else leave False (Inl (wrap ''inserting tb_user_token: '' e))
           | None \<Rightarrow> leave False (Inl (wrap ''inserting tb_user_token: '' e)))
       | Inr _ \<Rightarrow> tcheck ''committing token: '' tx_commit (\<lambda>_. leave True (Inr ())) })))"

definition pg_change_last_request :: "string \<Rightarrow> int option io" where
  "pg_change_last_request uid = check ''selecting last request: ''
     (pool_exec (query_stmt (\<lambda>d. last_request (requests_of purpose_change uid (tb_user_token d))))) ok"

definition pg_change_count_since :: "string \<Rightarrow> int \<Rightarrow> int io" where
  "pg_change_count_since uid since = check ''counting requests: ''
     (pool_exec (query_stmt (\<lambda>d. requests_since since (requests_of purpose_change uid (tb_user_token d))))) ok"

definition change_token :: "string \<Rightarrow> user_token_row list \<Rightarrow> user_token_row option" where
  "change_token uid rows = newest (filter (pending_change uid) rows)"

definition change_row_of :: "user_token_row \<Rightarrow> change_row" where
  "change_row_of r = \<lparr>ch_token = ut_id r, ch_user = ut_user r, ch_code = ut_hash r, ch_target = ut_target r,
     ch_attempts = ut_attempts r, ch_expires = ut_expires r, ch_used = ut_used r\<rparr>"

definition pg_change_token :: "string \<Rightarrow> change_row io" where
  "pg_change_token uid = do {
     r \<leftarrow> tx_exec (query_stmt (\<lambda>d. change_token uid (tb_user_token d)));
     case r of
       Inl e \<Rightarrow> fail (wrap ''selecting token: '' e)
     | Inr None \<Rightarrow> fail err_change_invalid_code
     | Inr (Some row) \<Rightarrow> ok (change_row_of row) }"

definition pg_change_record_failed :: "string \<Rightarrow> unit io" where
  "pg_change_record_failed token = check ''incrementing attempts: '' (tx_exec (update_stmt (\<lambda>t d.
     d\<lparr>tb_user_token := update_where (\<lambda>r. ut_id r = token) (attempt_counted t) (tb_user_token d)\<rparr>))) ok"

definition pg_change_consume :: "string \<Rightarrow> unit io" where
  "pg_change_consume token = check ''consuming token: '' (tx_exec (update_stmt (\<lambda>t d.
     d\<lparr>tb_user_token := update_where (\<lambda>r. ut_id r = token) (token_used t) (tb_user_token d)\<rparr>))) ok"

definition email_set :: "string \<Rightarrow> int \<Rightarrow> user_row \<Rightarrow> user_row" where
  "email_set email t u = u\<lparr>u_email := Some email, u_updated := t\<rparr>"

text \<open>\<open>UPDATE ... SET tx_email\<close>: the partial unique index rejects an address another live row has.\<close>

definition update_email :: "string \<Rightarrow> string \<Rightarrow> int \<Rightarrow> db \<Rightarrow> gerror + db" where
  "update_email uid email t d =
     (let users = update_where (\<lambda>u. u_id u = uid) (email_set email t) (tb_user d)
      in if distinct (live_emails users) then Inr (d\<lparr>tb_user := users\<rparr>)
         else Inl (unique_violation ''ux_tb_user_email_active''))"

definition pg_set_email :: "string \<Rightarrow> string \<Rightarrow> unit io" where
  "pg_set_email uid email =
     check ''updating email: '' (tx_exec (insert_stmt (\<lambda>t uuid d. update_email uid email t d))) ok"

definition pg_change_revoke_all :: "string \<Rightarrow> unit io" where
  "pg_change_revoke_all uid = check ''revoking sessions: '' (tx_exec (update_stmt (\<lambda>t d.
     d\<lparr>tb_refresh_token := revoke_where (\<lambda>r. rt_user r = uid) t (tb_refresh_token d)\<rparr>))) ok"

definition pg_change_tx :: "string \<Rightarrow> change_tx" where
  "pg_change_tx uid = \<lparr>chx_token = pg_change_token uid, chx_record_failed = pg_change_record_failed,
     chx_consume = pg_change_consume, chx_set_email = pg_set_email, chx_revoke_all = pg_change_revoke_all,
     chx_commit = tx_commit, chx_rollback = tx_rollback\<rparr>"

definition pg_begin_change :: "string \<Rightarrow> change_tx io" where
  "pg_begin_change uid = check ''beginning transaction: '' pool_begin (\<lambda>_. ok (pg_change_tx uid))"

definition pg_change_store :: change_store where
  "pg_change_store = \<lparr>cst_password_hash = pg_change_password_hash, cst_current_email = pg_current_email,
     cst_address_taken = pg_address_taken, cst_create = pg_create_change_token,
     cst_last_request = pg_change_last_request, cst_count_since = pg_change_count_since,
     cst_begin_verify = pg_begin_change\<rparr>"

end
