(* ===== verification/Password.thy ===== *)
theory Password
  imports Codes
begin

text \<open>
  Package \<open>password\<close>: recovery by a mailed code and change of the password (\<open>service.go\<close>), with the
  PostgreSQL store (\<open>postgres.go\<close>). The field \<open>token\<close> of the Go transaction, which \<open>Token\<close> sets and
  the later statements read, is passed to them explicitly.
\<close>

section \<open>service.go\<close>

definition err_reset_invalid_code :: gerror where
  "err_reset_invalid_code = Err ''password: code is invalid or expired''"

definition err_reset_too_many :: gerror where
  "err_reset_too_many = Err ''password: too many attempts''"

definition err_no_user :: gerror where
  "err_no_user = Err ''password: no active user''"

definition err_invalid_current :: gerror where
  "err_invalid_current = Err ''password: current password does not match''"

definition err_reset_collision :: gerror where
  "err_reset_collision = Err ''password: code collision''"

definition reset_code_lifetime :: int where
  "reset_code_lifetime = 10 * minute"

definition reset_max_attempts :: int where
  "reset_max_attempts = 5"

definition reset_code_tries :: nat where
  "reset_code_tries = 3"

record reset_row =
  rs_token :: string
  rs_user :: string
  rs_code :: string
  rs_attempts :: int
  rs_expires :: int
  rs_used :: "int option"

record reset_tx =
  rsx_token :: "reset_row io"
  rsx_record_failed :: "string \<Rightarrow> unit io"
  rsx_consume :: "string \<Rightarrow> unit io"
  rsx_set_password :: "string \<Rightarrow> string \<Rightarrow> unit io"
  rsx_revoke_all :: "string \<Rightarrow> unit io"
  rsx_commit :: "unit io"
  rsx_rollback :: "unit eff"

record password_store =
  pst_active_user :: "string \<Rightarrow> string io"
  pst_create :: "string \<Rightarrow> string \<Rightarrow> string \<Rightarrow> int \<Rightarrow> unit io"
  pst_begin_reset :: "string \<Rightarrow> reset_tx io"
  pst_password_hash :: "string \<Rightarrow> string io"
  pst_last_request :: "string \<Rightarrow> int option io"
  pst_count_since :: "string \<Rightarrow> int \<Rightarrow> int io"
  pst_change :: "string \<Rightarrow> string \<Rightarrow> unit io"

record password_service =
  pw_store :: password_store
  pw_publisher :: publisher
  pw_auditor :: "recorder option"
  pw_origin :: string
  pw_generate :: "string io"
  pw_hash :: "string \<Rightarrow> string io"
  pw_verify :: "string \<Rightarrow> string \<Rightarrow> gerror + bool"
  pw_quota :: quota

definition no_quota :: quota where
  "no_quota = \<lparr>cooldown = 0, window = 0, limit = 0\<rparr>"

definition new_password_service :: "idkey \<Rightarrow> password_store \<Rightarrow> publisher \<Rightarrow> recorder option \<Rightarrow> password_service" where
  "new_password_service K store p aud = \<lparr>pw_store = store, pw_publisher = p, pw_auditor = aud, pw_origin = [],
     pw_generate = generate_code, pw_hash = hash_password K, pw_verify = verify_password K, pw_quota = no_quota\<rparr>"

definition reset_window :: "password_service \<Rightarrow> int" where
  "reset_window s = (if 0 < window (pw_quota s) then window (pw_quota s) else default_window)"

definition reset_text :: "string \<Rightarrow> string \<Rightarrow> string \<Rightarrow> string" where
  "reset_text code origin email =
     (let text = ''Tu c'' @ [CHR 0xC3, CHR 0xB3] @ ''digo para cambiar la contrase'' @ [CHR 0xC3, CHR 0xB1] @ ''a es '' @ code @
            ''.'' @ [CHR 0x0A] @ ''Vence en 10 minutos y sirve una sola vez. Si no lo pediste, ignor'' @ [CHR 0xC3, CHR 0xA1] @ '' este mensaje: tu contrase'' @ [CHR 0xC3, CHR 0xB1] @ ''a actual sigue funcionando.'';
          trimmed = trim_right_char (CHR ''/'') (trim_space origin)
      in if trimmed \<noteq> [] then text @ [CHR 0x0A, CHR 0x0A] @ ''Ingresalo en '' @ trimmed @ ''/recuperar?email='' @ query_escape email
         else text)"

definition reset_mail :: "string \<Rightarrow> string \<Rightarrow> string \<Rightarrow> mail_message" where
  "reset_mail code origin email = \<lparr>mm_to = email,
     mm_subject = ''Recuper'' @ [CHR 0xC3, CHR 0xA1] @ '' tu contrase'' @ [CHR 0xC3, CHR 0xB1] @ ''a'', mm_text = reset_text code origin email\<rparr>"

definition password_publish :: "password_service \<Rightarrow> mail_message \<Rightarrow> unit io" where
  "password_publish s m = check ''password: queueing mail: '' (pw_publisher s (marshal_message m)) ok"

definition password_event :: "string \<Rightarrow> string \<Rightarrow> string \<Rightarrow> (string \<times> jval) list \<Rightarrow> audit_event" where
  "password_event name uid email md = (event name)\<lparr>ev_user := uid, ev_email := email, ev_metadata := md\<rparr>"

text \<open>The loop over at most three codes; before the first draw \<open>err\<close> is nil, a value no exit shows.\<close>

definition draw_reset_code :: "password_service \<Rightarrow> string \<Rightarrow> string \<Rightarrow> int \<Rightarrow> string io" where
  "draw_reset_code s uid email now =
     code_loop ''password: generating code: '' ''password: storing reset token: ''
       ''password: no free code after 3 tries: '' (pw_generate s) err_reset_collision
       (\<lambda>code. pst_create (pw_store s) uid email (hash_code code) (now + reset_code_lifetime))
       reset_code_tries err_reset_collision"

definition request_reset :: "password_service \<Rightarrow> string \<Rightarrow> unit io" where
  "request_reset s raw_email = do {
     let email = normalize_email raw_email;
     u \<leftarrow> pst_active_user (pw_store s) email;
     case u of
       Inl e \<Rightarrow>
         if errors_is e err_no_user then do {
           best_effort (pw_auditor s) (password_event event_password_reset_requested [] email
             [(''delivered'', JBool False)]);
           ok () }
         else fail (wrap ''password: looking up user: '' e)
     | Inr uid \<Rightarrow> do {
         now \<leftarrow> read_clock;
         check ''password: reading last request: '' (pst_last_request (pw_store s) uid) (\<lambda>last_at.
         check ''password: counting requests: '' (pst_count_since (pw_store s) uid (now - reset_window s)) (\<lambda>n.
         (case quota_check (pw_quota s) now last_at n of
            Inl _ \<Rightarrow> do {
              best_effort (pw_auditor s) (password_event event_password_reset_requested uid email
                [(''delivered'', JBool False), (''reason'', JStr ''quota'')]);
              ok () }
          | Inr _ \<Rightarrow>
              attempt (draw_reset_code s uid email now) (\<lambda>code.
              attempt (password_publish s (reset_mail code (pw_origin s) email)) (\<lambda>_. do {
                best_effort (pw_auditor s) (password_event event_password_reset_requested uid email
                  [(''delivered'', JBool True)]);
                ok () }))))) } }"

definition reset_password :: "password_service \<Rightarrow> string \<Rightarrow> string \<Rightarrow> string \<Rightarrow> unit io" where
  "reset_password s raw_email new_password code = (
     let email = normalize_email raw_email in
     check ''password: opening reset: '' (pst_begin_reset (pw_store s) email) (\<lambda>tx.
     deferred (rsx_rollback tx) (do {
       t \<leftarrow> rsx_token tx;
       case t of
         Inl e \<Rightarrow>
           if errors_is e err_reset_invalid_code then leave False (Inl err_reset_invalid_code)
           else leave False (Inl (wrap ''password: reading reset token: '' e))
       | Inr row \<Rightarrow> do {
           now \<leftarrow> read_clock;
           if rs_used row \<noteq> None \<or> \<not> now < rs_expires row then leave False (Inl err_reset_invalid_code)
           else if reset_max_attempts \<le> rs_attempts row then leave False (Inl err_reset_too_many)
           else if \<not> codes_equal (hash_code code) (rs_code row) then
             tcheck ''password: recording failed attempt: '' (rsx_record_failed tx (rs_token row)) (\<lambda>_.
             tcheck ''password: committing failed attempt: '' (rsx_commit tx) (\<lambda>_. do {
               best_effort (pw_auditor s) (password_event event_password_reset_failed (rs_user row) email
                 [(''reason'', JStr ''wrong_code'')]);
               leave True (Inl err_reset_invalid_code) }))
           else
             tcheck ''password: hashing: '' (pw_hash s new_password) (\<lambda>hash.
             tcheck ''password: setting password: '' (rsx_set_password tx (rs_user row) hash) (\<lambda>_.
             tcheck ''password: consuming token: '' (rsx_consume tx (rs_token row)) (\<lambda>_.
             tcheck ''password: revoking sessions: '' (rsx_revoke_all tx (rs_user row)) (\<lambda>_.
             tcheck ''password: committing reset: '' (rsx_commit tx) (\<lambda>_. do {
               best_effort (pw_auditor s) (password_event event_password_reset (rs_user row) email []);
               leave True (Inr ()) }))))) } })))"

definition change_password :: "password_service \<Rightarrow> string \<Rightarrow> string \<Rightarrow> string \<Rightarrow> unit io" where
  "change_password s uid current_password new_password =
     check ''password: reading current hash: '' (pst_password_hash (pw_store s) uid) (\<lambda>stored.
       if stored = [] then fail err_invalid_current
       else if pw_verify s stored current_password \<noteq> Inr True then do {
         best_effort (pw_auditor s) (password_event event_password_change_failed uid []
           [(''reason'', JStr ''wrong_current_password'')]);
         fail err_invalid_current }
       else check ''password: hashing: '' (pw_hash s new_password) (\<lambda>hash.
            check ''password: storing new password: '' (pst_change (pw_store s) uid hash) (\<lambda>_. do {
              best_effort (pw_auditor s) (password_event event_password_changed uid [] []);
              ok () })))"

section \<open>postgres.go\<close>

definition purpose_reset :: string where
  "purpose_reset = ''PASSWORD_RESET''"

definition pg_active_user_id :: "string \<Rightarrow> string io" where
  "pg_active_user_id email = do {
     r \<leftarrow> pool_exec (query_stmt (\<lambda>d. select_one (owns_email email) (tb_user d)));
     case r of
       Inl e \<Rightarrow> fail (wrap ''selecting tb_user: '' e)
     | Inr None \<Rightarrow> fail err_no_user
     | Inr (Some u) \<Rightarrow> ok (u_id u) }"

definition reset_token_row :: "string \<Rightarrow> string \<Rightarrow> string \<Rightarrow> int \<Rightarrow> int \<Rightarrow> string \<Rightarrow> user_token_row" where
  "reset_token_row uid target code_hash expires t uuid = \<lparr>ut_id = uuid, ut_user = uid, ut_purpose = purpose_reset,
     ut_hash = code_hash, ut_target = target, ut_attempts = 0, ut_expires = expires, ut_used = None,
     ut_created = t, ut_updated = t\<rparr>"

definition pg_create_reset_token :: "string \<Rightarrow> string \<Rightarrow> string \<Rightarrow> int \<Rightarrow> unit io" where
  "pg_create_reset_token uid target code_hash expires = do {
     r \<leftarrow> pool_exec (insert_stmt (\<lambda>t uuid d. insert_user_token (reset_token_row uid target code_hash expires t uuid) d));
     case r of
       Inr _ \<Rightarrow> ok ()
     | Inl e \<Rightarrow> (case as_pg_error e of
         Some (c, _) \<Rightarrow> if c = ''23505'' then fail err_reset_collision else fail (wrap ''inserting tb_user_token: '' e)
       | None \<Rightarrow> fail (wrap ''inserting tb_user_token: '' e)) }"

definition pg_reset_password_hash :: "string \<Rightarrow> string io" where
  "pg_reset_password_hash uid = do {
     r \<leftarrow> pool_exec (query_stmt (\<lambda>d. select_one (live_user uid) (tb_user d)));
     case r of
       Inl e \<Rightarrow> fail (wrap ''selecting password hash: '' e)
     | Inr None \<Rightarrow> fail err_no_user
     | Inr (Some u) \<Rightarrow> ok (coalesce_empty (u_password u)) }"

definition password_set :: "string \<Rightarrow> int \<Rightarrow> user_row \<Rightarrow> user_row" where
  "password_set hash t u = u\<lparr>u_password := Some hash, u_failed := 0, u_locked_until := None, u_updated := t\<rparr>"

definition update_password :: "string \<Rightarrow> string \<Rightarrow> int \<Rightarrow> db \<Rightarrow> db" where
  "update_password uid hash t d = d\<lparr>tb_user := update_where (\<lambda>u. u_id u = uid) (password_set hash t) (tb_user d)\<rparr>"

definition revoke_user :: "string \<Rightarrow> int \<Rightarrow> db \<Rightarrow> db" where
  "revoke_user uid t d = d\<lparr>tb_refresh_token := revoke_where (\<lambda>r. rt_user r = uid) t (tb_refresh_token d)\<rparr>"

definition pg_change_password :: "string \<Rightarrow> string \<Rightarrow> unit io" where
  "pg_change_password uid hash =
     check ''beginning transaction: '' pool_begin (\<lambda>_.
     deferred tx_rollback (
       tcheck ''updating password: '' (tx_exec (update_stmt (update_password uid hash))) (\<lambda>_.
       tcheck ''revoking sessions: '' (tx_exec (update_stmt (revoke_user uid))) (\<lambda>_.
       tcheck ''committing change: '' tx_commit (\<lambda>_. leave True (Inr ()))))))"

text \<open>The token a reset for an address consumes: the newest unused one of a live account that has it.\<close>

definition reset_tokens :: "string \<Rightarrow> user_row list \<Rightarrow> user_token_row list \<Rightarrow> user_token_row list" where
  "reset_tokens email users rows = filter (\<lambda>r. ut_purpose r = purpose_reset \<and> ut_used r = None
     \<and> list_ex (\<lambda>u. u_id u = ut_user r \<and> owns_email email u) users) rows"

definition reset_token :: "string \<Rightarrow> user_row list \<Rightarrow> user_token_row list \<Rightarrow> user_token_row option" where
  "reset_token email users rows = newest (reset_tokens email users rows)"

definition reset_row_of :: "user_token_row \<Rightarrow> reset_row" where
  "reset_row_of r = \<lparr>rs_token = ut_id r, rs_user = ut_user r, rs_code = ut_hash r, rs_attempts = ut_attempts r,
     rs_expires = ut_expires r, rs_used = ut_used r\<rparr>"

definition pg_reset_token :: "string \<Rightarrow> reset_row io" where
  "pg_reset_token email = do {
     r \<leftarrow> tx_exec (query_stmt (\<lambda>d. reset_token email (tb_user d) (tb_user_token d)));
     case r of
       Inl e \<Rightarrow> fail (wrap ''selecting reset token: '' e)
     | Inr None \<Rightarrow> fail err_reset_invalid_code
     | Inr (Some row) \<Rightarrow> ok (reset_row_of row) }"

definition pg_reset_record_failed :: "string \<Rightarrow> unit io" where
  "pg_reset_record_failed token = check ''incrementing attempts: '' (tx_exec (update_stmt (\<lambda>t d.
     d\<lparr>tb_user_token := update_where (\<lambda>r. ut_id r = token) (attempt_counted t) (tb_user_token d)\<rparr>))) ok"

definition pg_reset_consume :: "string \<Rightarrow> unit io" where
  "pg_reset_consume token = check ''consuming token: '' (tx_exec (update_stmt (\<lambda>t d.
     d\<lparr>tb_user_token := update_where (\<lambda>r. ut_id r = token) (token_used t) (tb_user_token d)\<rparr>))) ok"

definition pg_set_password :: "string \<Rightarrow> string \<Rightarrow> unit io" where
  "pg_set_password uid hash = check ''updating password: '' (tx_exec (update_stmt (update_password uid hash))) ok"

definition pg_reset_revoke_all :: "string \<Rightarrow> unit io" where
  "pg_reset_revoke_all uid = check ''revoking sessions: '' (tx_exec (update_stmt (revoke_user uid))) ok"

definition pg_reset_tx :: "string \<Rightarrow> reset_tx" where
  "pg_reset_tx email = \<lparr>rsx_token = pg_reset_token email, rsx_record_failed = pg_reset_record_failed,
     rsx_consume = pg_reset_consume, rsx_set_password = pg_set_password, rsx_revoke_all = pg_reset_revoke_all,
     rsx_commit = tx_commit, rsx_rollback = tx_rollback\<rparr>"

definition pg_begin_reset :: "string \<Rightarrow> reset_tx io" where
  "pg_begin_reset email = check ''beginning transaction: '' pool_begin (\<lambda>_. ok (pg_reset_tx email))"

definition pg_reset_last_request :: "string \<Rightarrow> int option io" where
  "pg_reset_last_request uid = check ''selecting last request: ''
     (pool_exec (query_stmt (\<lambda>d. last_request (requests_of purpose_reset uid (tb_user_token d))))) ok"

definition pg_reset_count_since :: "string \<Rightarrow> int \<Rightarrow> int io" where
  "pg_reset_count_since uid since = check ''counting requests: ''
     (pool_exec (query_stmt (\<lambda>d. requests_since since (requests_of purpose_reset uid (tb_user_token d))))) ok"

definition pg_password_store :: password_store where
  "pg_password_store = \<lparr>pst_active_user = pg_active_user_id, pst_create = pg_create_reset_token,
     pst_begin_reset = pg_begin_reset, pst_password_hash = pg_reset_password_hash,
     pst_last_request = pg_reset_last_request, pst_count_since = pg_reset_count_since,
     pst_change = pg_change_password\<rparr>"

end
