(* ===== verification/Password_Safety.thy ===== *)
theory Password_Safety
  imports Password Login_Safety
begin

text \<open>
  What recovery and change of the password guarantee: a reset needs the mailed code and ends every
  session, password and sessions change together or not at all, codes are rationed and guessing
  them is bounded, and the answers do not tell who has an account.
\<close>

section \<open>The steps of the store\<close>

lemma password_store_simps [simp]:
  "pst_active_user pg_password_store = pg_active_user_id" "pst_create pg_password_store = pg_create_reset_token"
  "pst_begin_reset pg_password_store = pg_begin_reset" "pst_password_hash pg_password_store = pg_reset_password_hash"
  "pst_last_request pg_password_store = pg_reset_last_request" "pst_count_since pg_password_store = pg_reset_count_since"
  "pst_change pg_password_store = pg_change_password"
  by (simp_all add: pg_password_store_def)

lemma reset_tx_simps [simp]:
  "rsx_token (pg_reset_tx e) = pg_reset_token e" "rsx_record_failed (pg_reset_tx e) = pg_reset_record_failed"
  "rsx_consume (pg_reset_tx e) = pg_reset_consume" "rsx_set_password (pg_reset_tx e) = pg_set_password"
  "rsx_revoke_all (pg_reset_tx e) = pg_reset_revoke_all" "rsx_commit (pg_reset_tx e) = tx_commit"
  "rsx_rollback (pg_reset_tx e) = tx_rollback"
  by (simp_all add: pg_reset_tx_def)

lemma reset_row_of_simps [simp]:
  "rs_token (reset_row_of r) = ut_id r" "rs_user (reset_row_of r) = ut_user r" "rs_code (reset_row_of r) = ut_hash r"
  "rs_attempts (reset_row_of r) = ut_attempts r" "rs_expires (reset_row_of r) = ut_expires r" "rs_used (reset_row_of r) = ut_used r"
  by (simp_all add: reset_row_of_def)

definition reset_answer :: "gerror \<Rightarrow> bool" where
  "reset_answer e \<longleftrightarrow> e = err_reset_invalid_code \<or> e = err_reset_too_many"

lemma password_errors [simp]:
  "errors_is err_reset_invalid_code err_reset_invalid_code" "ExtError m \<noteq> err_reset_invalid_code"
  "Wrapf p e x \<noteq> err_reset_invalid_code" "Wrapf p e x \<noteq> err_reset_too_many" "err_reset_invalid_code \<noteq> err_reset_too_many"
  "err_reset_too_many \<noteq> err_reset_invalid_code" "err_reset_invalid_code \<noteq> Wrapf p e x" "err_reset_too_many \<noteq> Wrapf p e x"
  "\<not> reset_answer (Wrapf p e x)" "reset_answer err_reset_invalid_code" "reset_answer err_reset_too_many"
  "errors_is err_no_user err_no_user" "ExtError m \<noteq> err_no_user" "Wrapf p e x \<noteq> err_no_user"
  "ExtError m \<noteq> err_reset_collision" "Wrapf p e x \<noteq> err_reset_collision"
  by (auto simp: reset_answer_def err_reset_invalid_code_def err_reset_too_many_def err_no_user_def err_reset_collision_def)

lemma reset_token_D: "reset_token email users rows = Some p \<Longrightarrow> p \<in> set rows \<and> ut_purpose p = purpose_reset \<and> ut_used p = None
    \<and> (\<exists>u \<in> set users. u_id u = ut_user p \<and> owns_email email u)"
  by (auto simp: reset_token_def reset_tokens_def list_ex_iff dest: newest_SomeD)

lemmas reset_ops = pg_reset_token_def pg_reset_record_failed_def pg_reset_consume_def pg_set_password_def
  pg_reset_revoke_all_def pg_begin_reset_def

section \<open>Consuming a reset code\<close>

text \<open>The database after a reset with the token \<open>p\<close>.\<close>

abbreviation reset_db :: "string \<Rightarrow> int \<Rightarrow> user_token_row \<Rightarrow> db \<Rightarrow> db" where
  "reset_db hash t p d \<equiv> d\<lparr>tb_user := update_where (\<lambda>u. u_id u = ut_user p) (password_set hash t) (tb_user d),
     tb_user_token := update_where (\<lambda>r. ut_id r = ut_id p) (token_used t) (tb_user_token d),
     tb_refresh_token := revoke_where (\<lambda>r. rt_user r = ut_user p) t (tb_refresh_token d)\<rparr>"

inductive reset_spec ::
  "bool \<Rightarrow> (string \<Rightarrow> bool) \<Rightarrow> string \<Rightarrow> string \<Rightarrow> int \<Rightarrow> int \<Rightarrow> db \<Rightarrow> gerror + unit \<Rightarrow> db \<Rightarrow> bool"
  for rel :: bool and encoded :: "string \<Rightarrow> bool" and email :: string and code :: string and t0 :: int and t1 :: int and d :: db
where
  absent: "reset_token email (tb_user d) (tb_user_token d) = None \<Longrightarrow>
    reset_spec rel encoded email code t0 t1 d (Inl err_reset_invalid_code) d"
| expired: "reset_token email (tb_user d) (tb_user_token d) = Some p \<Longrightarrow> ut_expires p \<le> t1 \<Longrightarrow>
    reset_spec rel encoded email code t0 t1 d (Inl err_reset_invalid_code) d"
| spent: "reset_token email (tb_user d) (tb_user_token d) = Some p \<Longrightarrow> reset_max_attempts \<le> ut_attempts p \<Longrightarrow>
    reset_spec rel encoded email code t0 t1 d (Inl err_reset_too_many) d"
| broken: "\<not> rel \<Longrightarrow> \<not> reset_answer e \<Longrightarrow> reset_spec rel encoded email code t0 t1 d (Inl e) d"
| wrong: "reset_token email (tb_user d) (tb_user_token d) = Some p \<Longrightarrow> ut_attempts p < reset_max_attempts \<Longrightarrow>
    t0 < ut_expires p \<Longrightarrow> hash_code code \<noteq> ut_hash p \<Longrightarrow>
    r = Inl err_reset_invalid_code \<or> \<not> rel \<and> (\<exists>e. r = Inl e \<and> \<not> reset_answer e) \<Longrightarrow>
    reset_spec rel encoded email code t0 t1 d r
      (d\<lparr>tb_user_token := update_where (\<lambda>r. ut_id r = ut_id p) (attempt_counted t) (tb_user_token d)\<rparr>)"
| completed: "reset_token email (tb_user d) (tb_user_token d) = Some p \<Longrightarrow> ut_attempts p < reset_max_attempts \<Longrightarrow>
    t0 < ut_expires p \<Longrightarrow> hash_code code = ut_hash p \<Longrightarrow> encoded hash \<Longrightarrow>
    r = Inr () \<or> \<not> rel \<and> \<not> is_ok r \<Longrightarrow>
    reset_spec rel encoded email code t0 t1 d r (reset_db hash t p d)"

text \<open>What one service can have stored for a password.\<close>

definition encodes :: "idkey \<Rightarrow> string \<Rightarrow> string \<Rightarrow> bool" where
  "encodes K password hash \<longleftrightarrow> (\<exists>salt. length salt = 16 \<and>
     hash = encode_hash salt (K password salt argon_time argon_memory argon_threads argon_key_len))"

text \<open>Up to the security log, which any audit write extends.\<close>

definition no_log :: "db \<Rightarrow> db" where
  "no_log d = d\<lparr>tb_security_event := []\<rparr>"

definition reset_post :: "idkey \<Rightarrow> string \<Rightarrow> string \<Rightarrow> string \<Rightarrow> world \<Rightarrow> gerror + unit \<Rightarrow> world \<Rightarrow> bool" where
  "reset_post K email password code w r w' \<longleftrightarrow> w_tx w' = None \<and> w_mq w' = w_mq w \<and> same_oracles w w' \<and>
     log_grows (w_db w) (w_db w') \<and>
     (\<exists>d. reset_spec (reliable w) (encodes K password) (normalize_email email) code (w_clock w) (w_clock w') (w_db w) r d
        \<and> no_log (w_db w') = no_log d)"

lemma reset_postI:
  assumes "moves w (d\<lparr>tb_security_event := tb_security_event (w_db w) @ es\<rparr>) None (w_mq w) w'"
    and "reset_spec (reliable w) (encodes K password) (normalize_email email) code (w_clock w) (w_clock w') (w_db w) r d"
  shows "reset_post K email password code w r w'"
  using assms movesD [OF assms(1)] unfolding reset_post_def
  by (auto simp: no_log_def log_grows_def intro!: exI [of _ d])

lemma reset_post_plain:
  assumes "moves w d None (w_mq w) w'" and "tb_security_event d = tb_security_event (w_db w)"
    and "reset_spec (reliable w) (encodes K password) (normalize_email email) code (w_clock w) (w_clock w') (w_db w) r d"
  shows "reset_post K email password code w r w'"
  using assms movesD [OF assms(1)] unfolding reset_post_def
  by (auto simp: log_grows_def intro!: exI [of _ d])

lemma reset_post_kept:
  assumes "moves w (w_db w) None (w_mq w) w'"
  shows "reset_token (normalize_email email) (tb_user (w_db w)) (tb_user_token (w_db w)) = None \<Longrightarrow>
      reset_post K email password code w (Inl err_reset_invalid_code) w'"
    and "reset_token (normalize_email email) (tb_user (w_db w)) (tb_user_token (w_db w)) = Some p \<Longrightarrow> ut_expires p \<le> w_clock w' \<Longrightarrow>
      reset_post K email password code w (Inl err_reset_invalid_code) w'"
    and "reset_token (normalize_email email) (tb_user (w_db w)) (tb_user_token (w_db w)) = Some p \<Longrightarrow> reset_max_attempts \<le> ut_attempts p \<Longrightarrow>
      reset_post K email password code w (Inl err_reset_too_many) w'"
    and "\<not> reliable w \<Longrightarrow> \<not> reset_answer e \<Longrightarrow> reset_post K email password code w (Inl e) w'"
  by (rule reset_post_plain [OF assms]; simp add: reset_spec.absent reset_spec.expired reset_spec.spent reset_spec.broken)+

lemma reset_post_wrong:
  assumes "reset_token (normalize_email email) (tb_user (w_db w)) (tb_user_token (w_db w)) = Some p"
    and "ut_attempts p < reset_max_attempts" and "w_clock w < ut_expires p" and "hash_code code \<noteq> ut_hash p"
  shows "moves w ((w_db w)\<lparr>tb_user_token := update_where (\<lambda>r. ut_id r = ut_id p) (attempt_counted t) (tb_user_token (w_db w)),
        tb_security_event := tb_security_event (w_db w) @ es\<rparr>) None (w_mq w) w' \<Longrightarrow>
      reset_post K email password code w (Inl err_reset_invalid_code) w'"
    and "moves w ((w_db w)\<lparr>tb_user_token := update_where (\<lambda>r. ut_id r = ut_id p) (attempt_counted t) (tb_user_token (w_db w))\<rparr>) None (w_mq w) w' \<Longrightarrow>
      \<not> reliable w \<Longrightarrow> reset_post K email password code w (Inl (wrap s e)) w'"
  by (erule reset_postI, simp add: reset_spec.wrong [OF assms])
    (erule reset_post_plain, simp, simp add: reset_spec.wrong [OF assms])

lemma reset_post_done:
  assumes "reset_token (normalize_email email) (tb_user (w_db w)) (tb_user_token (w_db w)) = Some p"
    and "ut_attempts p < reset_max_attempts" and "w_clock w < ut_expires p" and "hash_code code = ut_hash p"
    and "encodes K password hash"
  shows "moves w (reset_db hash t p (w_db w)\<lparr>tb_security_event := tb_security_event (w_db w) @ es\<rparr>) None (w_mq w) w' \<Longrightarrow>
      reset_post K email password code w (Inr ()) w'"
    and "moves w (reset_db hash t p (w_db w)) None (w_mq w) w' \<Longrightarrow> \<not> reliable w \<Longrightarrow>
      reset_post K email password code w (Inl e) w'"
  by (erule reset_postI, rule reset_spec.completed [where encoded = "encodes K password", OF assms], simp)
    (erule reset_post_plain, simp, rule reset_spec.completed [where encoded = "encodes K password", OF assms], simp)

lemma encodesI: "length salt = 16 \<Longrightarrow> encodes K password (encode_hash salt (K password salt argon_time argon_memory argon_threads argon_key_len))"
  by (auto simp: encodes_def)

context auditing
begin

lemma reset_effect:
  assumes "pw_auditor s = auditor" and "pw_store s = pg_password_store" and "pw_hash s = hash_password K" and "w_tx w = None"
  shows "wp (reset_password s email password code) (reset_post K email password code w) w"
proof (rule wp_start_idle [OF assms(4)])
  fix w' assume m: "moves w (w_db w) None (w_mq w) w'" "w_clock w \<le> w_clock w'"
  show "wp (reset_password s email password code) (reset_post K email password code w) w'"
    unfolding reset_password_def Let_def codes_equal_def
    apply (insert m)
    apply (((erule wp_steps best_effort_step)+)?; clarsimp simp: wp_code assms(1-3) reset_ops reset_post_kept reset_token_D
       reset_post_wrong not_less not_le update_password_def revoke_user_def; (intro conjI impI)?; (rule state_cases)?)+
    by ((erule wp_steps)?, (rule reset_post_done, assumption, assumption, simp, assumption, erule encodesI, assumption, assumption?))+
qed

end

section \<open>Asking for a reset code\<close>

text \<open>The token a request stores for a user, and the databases that differ by it.\<close>

definition stored_reset :: "string \<Rightarrow> string \<Rightarrow> string \<Rightarrow> int \<Rightarrow> int \<Rightarrow> int \<Rightarrow> db \<Rightarrow> db \<Rightarrow> bool" where
  "stored_reset uid email code now t0 t1 d d' \<longleftrightarrow> (\<exists>t i. t0 \<le> t \<and> t \<le> t1 \<and>
     insert_user_token (reset_token_row uid email (hash_code code) (now + reset_code_lifetime) t i) d = Inr d')"

definition token_blocked :: "world \<Rightarrow> bool" where
  "token_blocked w \<longleftrightarrow>
     (\<exists>k. w_uuid w k \<in> set (map ut_id (tb_user_token (w_db w)))) \<or>
     (\<exists>k. hash_code (code_of_bytes (map (w_entropy w k) [0..<4])) \<in> set (map ut_hash (tb_user_token (w_db w))))"

inductive request_reset_spec ::
  "bool \<Rightarrow> bool \<Rightarrow> quota \<Rightarrow> string \<Rightarrow> string \<Rightarrow> int \<Rightarrow> int \<Rightarrow> db \<Rightarrow> string list \<Rightarrow> gerror + unit \<Rightarrow> db \<Rightarrow> string list \<Rightarrow> bool"
  for rel :: bool and blocked :: bool and qt :: quota and email :: string and origin :: string and t0 :: int and t1 :: int
    and d :: db and q :: "string list"
where
  unknown: "select_one (owns_email email) (tb_user d) = None \<Longrightarrow>
    request_reset_spec rel blocked qt email origin t0 t1 d q (Inr ()) d q"
| limited: "select_one (owns_email email) (tb_user d) = Some u \<Longrightarrow> t0 \<le> now \<Longrightarrow> now \<le> t1 \<Longrightarrow>
    quota_of qt purpose_reset (u_id u) now (tb_user_token d) \<noteq> Inr () \<Longrightarrow>
    request_reset_spec rel blocked qt email origin t0 t1 d q (Inr ()) d q"
| failed: "\<not> rel \<or> blocked \<Longrightarrow> request_reset_spec rel blocked qt email origin t0 t1 d q (Inl e) d q"
| created: "select_one (owns_email email) (tb_user d) = Some u \<Longrightarrow> t0 \<le> now \<Longrightarrow>
    quota_of qt purpose_reset (u_id u) now (tb_user_token d) = Inr () \<Longrightarrow> length code = 6 \<Longrightarrow>
    stored_reset (u_id u) email code now now t1 d d' \<Longrightarrow>
    q' = q @ [marshal_message (reset_mail code origin email)] \<and> (r = Inr () \<or> \<not> rel)
      \<or> q' = q \<and> \<not> rel \<and> \<not> is_ok r \<Longrightarrow>
    request_reset_spec rel blocked qt email origin t0 t1 d q r d' q'"

definition request_reset_post :: "quota \<Rightarrow> string \<Rightarrow> string \<Rightarrow> world \<Rightarrow> gerror + unit \<Rightarrow> world \<Rightarrow> bool" where
  "request_reset_post qt origin email w r w' \<longleftrightarrow> w_tx w' = w_tx w \<and> same_oracles w w' \<and> log_grows (w_db w) (w_db w') \<and>
     (\<exists>d. request_reset_spec (reliable w) (token_blocked w) qt (normalize_email email) origin (w_clock w) (w_clock w')
            (w_db w) (w_mq w) r d (w_mq w') \<and> no_log (w_db w') = no_log d)"

lemma request_reset_postI:
  assumes "moves w d' (w_tx w) q w'" and "d' = d \<and> tb_security_event d = tb_security_event (w_db w)
      \<or> d' = d\<lparr>tb_security_event := tb_security_event (w_db w) @ es\<rparr>"
    and "request_reset_spec (reliable w) (token_blocked w) qt (normalize_email email) origin (w_clock w) (w_clock w')
            (w_db w) (w_mq w) r d q"
  shows "request_reset_post qt origin email w r w'"
  using assms(2,3) movesD [OF assms(1)] unfolding request_reset_post_def
  by (auto simp: no_log_def log_grows_def intro!: exI [of _ d])

lemma request_reset_post_kept:
  assumes "moves w ((w_db w)\<lparr>tb_security_event := tb_security_event (w_db w) @ es\<rparr>) (w_tx w) (w_mq w) w'"
  shows "select_one (owns_email (normalize_email email)) (tb_user (w_db w)) = None \<Longrightarrow>
      request_reset_post qt origin email w (Inr ()) w'"
    and "select_one (owns_email (normalize_email email)) (tb_user (w_db w)) = Some u \<Longrightarrow> w_clock w \<le> now \<Longrightarrow> now \<le> w_clock w' \<Longrightarrow>
      quota_of qt purpose_reset (u_id u) now (tb_user_token (w_db w)) \<noteq> Inr () \<Longrightarrow>
      request_reset_post qt origin email w (Inr ()) w'"
  by (rule request_reset_postI [OF assms disjI2 [OF refl]], rule request_reset_spec.unknown, assumption)
    (rule request_reset_postI [OF assms disjI2 [OF refl]], rule request_reset_spec.limited)

lemma request_reset_post_limited:
  assumes "quota_of qt purpose_reset (u_id u) now (tb_user_token (w_db w)) = Inl x"
    and "moves w ((w_db w)\<lparr>tb_security_event := tb_security_event (w_db w) @ es\<rparr>) (w_tx w) (w_mq w) w'"
    and "account email w = Some u" and "w_clock w \<le> now" and "now \<le> w_clock w'"
  shows "request_reset_post qt origin email w (Inr ()) w'"
  by (rule request_reset_post_kept(2) [OF assms(2-5)]) (simp add: assms(1))

lemma request_reset_post_failed:
  "moves w (w_db w) (w_tx w) (w_mq w) w' \<Longrightarrow> \<not> reliable w \<or> token_blocked w \<Longrightarrow>
    request_reset_post qt origin email w (Inl e) w'"
  by (erule request_reset_postI [where d = "w_db w"]) (simp_all add: request_reset_spec.failed)

lemma stored_resetI: "insert_user_token (reset_token_row uid email (hash_code code) (now + reset_code_lifetime) t i) d = Inr d' \<Longrightarrow>
    t0 \<le> t \<Longrightarrow> t \<le> t1 \<Longrightarrow> stored_reset uid email code now t0 t1 d d'"
  by (auto simp: stored_reset_def)

lemma stored_reset_mono: "stored_reset uid email code now t0 t1 d d' \<Longrightarrow> t0' \<le> t0 \<Longrightarrow> t1 \<le> t1' \<Longrightarrow>
    stored_reset uid email code now t0' t1' d d'"
  unfolding stored_reset_def by (meson order_trans)

lemma stored_reset_log: "stored_reset uid email code now t0 t1 d d' \<Longrightarrow> tb_security_event d' = tb_security_event d"
  by (auto simp: stored_reset_def insert_user_token_Inr)

lemma request_reset_post_created:
  assumes "account email w = Some u"
    and "quota_of qt purpose_reset (u_id u) now (tb_user_token (w_db w)) = Inr x"
    and "stored_reset (u_id u) (normalize_email email) (code_of_bytes buf) now t0 t1 (w_db w) d"
    and "w_clock w \<le> now" and "now \<le> t0" and "t1 \<le> w_clock w'"
    and m_def: "m = marshal_message (reset_mail (code_of_bytes buf) origin (normalize_email email))"
  shows "moves w (d\<lparr>tb_security_event := tb_security_event d @ es\<rparr>) (w_tx w) (w_mq w @ [m]) w' \<Longrightarrow>
      request_reset_post qt origin email w (Inr ()) w'"
    and "moves w d (w_tx w) (w_mq w @ [m]) w' \<Longrightarrow> \<not> reliable w \<Longrightarrow> request_reset_post qt origin email w r w'"
    and "moves w d (w_tx w) (w_mq w) w' \<Longrightarrow> \<not> reliable w \<Longrightarrow> request_reset_post qt origin email w (Inl e) w'"
proof -
  have st: "stored_reset (u_id u) (normalize_email email) (code_of_bytes buf) now now (w_clock w') (w_db w) d"
    using assms(3,5,6) by (rule stored_reset_mono)
  note sp = request_reset_spec.created [OF assms(1,4) assms(2) [simplified] length_code_of_bytes st]
  note lg = stored_reset_log [OF st]
  show "moves w (d\<lparr>tb_security_event := tb_security_event d @ es\<rparr>) (w_tx w) (w_mq w @ [m]) w' \<Longrightarrow>
      request_reset_post qt origin email w (Inr ()) w'"
    by (rule request_reset_postI [where d = d, OF _ disjI2]) (assumption, simp add: lg, rule sp, simp add: m_def)
  show "moves w d (w_tx w) (w_mq w @ [m]) w' \<Longrightarrow> \<not> reliable w \<Longrightarrow> request_reset_post qt origin email w r w'"
    by (erule request_reset_postI [where d = d]) (simp_all add: lg m_def sp)
  show "moves w d (w_tx w) (w_mq w) w' \<Longrightarrow> \<not> reliable w \<Longrightarrow> request_reset_post qt origin email w (Inl e) w'"
    by (erule request_reset_postI [where d = d]) (simp_all add: lg sp)
qed

lemma insert_token_fails:
  assumes "insert_user_token (reset_token_row uid email (hash_code (code_of_bytes (map (w_entropy w k) [0..<4]))) x t (w_uuid w j)) (w_db w) = Inl e"
    and "uid \<in> set (map u_id (tb_user (w_db w)))"
  shows "token_blocked w"
  using assms by (auto simp: insert_user_token_def reset_token_row_def token_blocked_def split: if_splits)

lemma pg_create_reset_step:
  assumes "moves w0 (w_db w0) t q w" and "code \<in> range (\<lambda>k. code_of_bytes (map (w_entropy w0 k) [0..<4]))"
    and uid: "uid \<in> set (map u_id (tb_user (w_db w0)))"
    and "\<And>e w'. \<not> reliable w0 \<Longrightarrow> \<not> errors_is e err_reset_collision \<Longrightarrow> moves w0 (w_db w0) t q w' \<Longrightarrow>
           w_clock w \<le> w_clock w' \<Longrightarrow> Q (Inl e) w'"
    and "\<And>e w'. token_blocked w0 \<Longrightarrow> moves w0 (w_db w0) t q w' \<Longrightarrow> w_clock w \<le> w_clock w' \<Longrightarrow> Q (Inl e) w'"
    and "\<And>d' w'. stored_reset uid email code now (w_clock w) (w_clock w') (w_db w0) d' \<Longrightarrow> moves w0 d' t q w' \<Longrightarrow>
           w_clock w \<le> w_clock w' \<Longrightarrow> Q (Inr ()) w'"
    and "\<And>e d' w'. \<not> reliable w0 \<Longrightarrow> \<not> errors_is e err_reset_collision \<Longrightarrow>
           stored_reset uid email code now (w_clock w) (w_clock w') (w_db w0) d' \<Longrightarrow> moves w0 d' t q w' \<Longrightarrow>
           w_clock w \<le> w_clock w' \<Longrightarrow> Q (Inl e) w'"
  shows "wp (pg_create_reset_token uid email (hash_code code) (now + reset_code_lifetime)) Q w"
proof -
  from assms(2) obtain j where code: "code = code_of_bytes (map (w_entropy w0 j) [0..<4])" by blast
  show ?thesis
    unfolding pg_create_reset_token_def wp_code
  proof (rule pool_exec_step [OF assms(1)], goal_cases)
    case (1 m w')
    then show ?case by (simp add: assms(4))
  next
    case (2 k e w')
    then have "token_blocked w0"
      using insert_token_fails [OF _ uid] by (auto simp: code split: sum.splits)
    then show ?case using 2 by (auto intro: assms(5) split: option.splits)
  next
    case (3 k x d' w')
    then show ?case by (auto split: sum.splits intro!: assms(6) elim!: stored_resetI)
  next
    case (4 k x d' m w')
    then show ?case by (auto split: sum.splits intro!: assms(7) elim!: stored_resetI)
  qed
qed

lemma draw_reset_step:
  assumes "moves w0 (w_db w0) t q w" and "pw_store s = pg_password_store" and "pw_generate s = generate_code"
    and "uid \<in> set (map u_id (tb_user (w_db w0)))"
    and "\<And>p e w'. \<not> reliable w0 \<or> token_blocked w0 \<Longrightarrow> moves w0 (w_db w0) t q w' \<Longrightarrow> w_clock w \<le> w_clock w' \<Longrightarrow>
           Q (Inl (wrap p e)) w'"
    and "\<And>buf d' w'. stored_reset uid email (code_of_bytes buf) now (w_clock w) (w_clock w') (w_db w0) d' \<Longrightarrow>
           moves w0 d' t q w' \<Longrightarrow> w_clock w \<le> w_clock w' \<Longrightarrow> Q (Inr (code_of_bytes buf)) w'"
    and "\<And>buf p e d' w'. \<not> reliable w0 \<Longrightarrow>
           stored_reset uid email (code_of_bytes buf) now (w_clock w) (w_clock w') (w_db w0) d' \<Longrightarrow>
           moves w0 d' t q w' \<Longrightarrow> w_clock w \<le> w_clock w' \<Longrightarrow> Q (Inl (wrap p e)) w'"
  shows "wp (draw_reset_code s uid email now) Q w"
  unfolding draw_reset_code_def assms(2,3) password_store_simps
proof (rule code_loop_step [where blocked = "token_blocked w0" and
    stored = "\<lambda>code t0 t1 d'. stored_reset uid email code now t0 t1 (w_db w0) d'", OF assms(1)], goal_cases)
  case (1 code w Q)
  then show ?case by (intro pg_create_reset_step [OF 1(1,2) assms(4)])
next
  case (2 code t0 t0' t1 d')
  then show ?case by (meson stored_reset_mono order_refl)
next
  case (3 p e w')
  then show ?case by (auto simp: reset_code_tries_def intro: assms(5))
qed (auto intro: assms(6,7))

lemma account_id: "account email w = Some u \<Longrightarrow> u_id u \<in> set (map u_id (tb_user (w_db w)))"
  by (auto dest: select_one_SomeD)

context mail_service
begin

lemma request_reset_effect:
  assumes "pw_auditor s = auditor" and "pw_store s = pg_password_store" and "pw_publisher s = publish"
    and "pw_generate s = generate_code"
  shows "wp (request_reset s email) (request_reset_post (pw_quota s) (pw_origin s) email w) w"
proof (rule wp_start)
  fix w' assume m: "moves w (w_db w) (w_tx w) (w_mq w) w'" "w_clock w \<le> w_clock w'"
  have window: "reset_window s = or_default (window (pw_quota s)) default_window"
    by (simp add: reset_window_def or_default_def)
  show "wp (request_reset s email) (request_reset_post (pw_quota s) (pw_origin s) email w) w'"
    unfolding request_reset_def password_publish_def Let_def
    apply (insert m)
    apply (((erule wp_steps publish_law best_effort_step)+)?; clarsimp simp: wp_code assms pg_active_user_id_def pg_reset_last_request_def
       pg_reset_count_since_def window quota_of_def [symmetric] request_reset_post_failed request_reset_post_kept simp del: select_one_None;
        (intro conjI impI)?; (rule state_cases)?)+
     apply (erule best_effort_step, erule request_reset_post_limited, assumption, assumption; simp)
    apply (simp only: wp_code)
    apply (erule draw_reset_step, rule assms, rule assms, erule account_id)
      apply (simp add: request_reset_post_failed)
    apply ((((erule wp_steps publish_law best_effort_step)+)?; clarsimp simp: wp_code assms)+)?
    by ((simp only: sum.case)?, (erule best_effort_step)?, (rule request_reset_post_created, assumption,
       assumption, assumption, simp, simp, simp, rule refl, assumption, assumption?))+
qed

end

section \<open>Changing a known password\<close>

abbreviation change_db :: "string \<Rightarrow> string \<Rightarrow> int \<Rightarrow> db \<Rightarrow> db" where
  "change_db uid hash t d \<equiv> d\<lparr>tb_user := update_where (\<lambda>u. u_id u = uid) (password_set hash t) (tb_user d),
     tb_refresh_token := revoke_where (\<lambda>r. rt_user r = uid) t (tb_refresh_token d)\<rparr>"

inductive change_spec ::
  "bool \<Rightarrow> (string \<Rightarrow> string \<Rightarrow> gerror + bool) \<Rightarrow> (string \<Rightarrow> bool) \<Rightarrow> string \<Rightarrow> string \<Rightarrow> db \<Rightarrow> gerror + unit \<Rightarrow> db \<Rightarrow> bool"
  for rel :: bool and verify :: "string \<Rightarrow> string \<Rightarrow> gerror + bool" and encoded :: "string \<Rightarrow> bool" and uid :: string
    and current :: string and d :: db
where
  refused: "select_one (live_user uid) (tb_user d) = Some u \<Longrightarrow>
    coalesce_empty (u_password u) = [] \<or> verify (coalesce_empty (u_password u)) current \<noteq> Inr True \<Longrightarrow>
    change_spec rel verify encoded uid current d (Inl err_invalid_current) d"
| unread: "\<not> rel \<or> select_one (live_user uid) (tb_user d) = None \<Longrightarrow>
    change_spec rel verify encoded uid current d (Inl e) d"
| changed: "select_one (live_user uid) (tb_user d) = Some u \<Longrightarrow> coalesce_empty (u_password u) \<noteq> [] \<Longrightarrow>
    verify (coalesce_empty (u_password u)) current = Inr True \<Longrightarrow> encoded hash \<Longrightarrow> r = Inr () \<or> \<not> rel \<Longrightarrow>
    change_spec rel verify encoded uid current d r (change_db uid hash t d)"

definition change_post :: "idkey \<Rightarrow> (string \<Rightarrow> string \<Rightarrow> gerror + bool) \<Rightarrow> string \<Rightarrow> string \<Rightarrow> string \<Rightarrow> world \<Rightarrow> gerror + unit \<Rightarrow> world \<Rightarrow> bool" where
  "change_post K verify uid current password w r w' \<longleftrightarrow> w_tx w' = None \<and> w_mq w' = w_mq w \<and> same_oracles w w' \<and>
     log_grows (w_db w) (w_db w') \<and>
     (\<exists>d. change_spec (reliable w) verify (encodes K password) uid current (w_db w) r d \<and> no_log (w_db w') = no_log d)"

lemma change_postI:
  assumes "moves w d' None (w_mq w) w'"
    and "d' = d \<and> tb_security_event d = tb_security_event (w_db w) \<or> d' = d\<lparr>tb_security_event := tb_security_event (w_db w) @ es\<rparr>"
    and "change_spec (reliable w) verify (encodes K password) uid current (w_db w) r d"
  shows "change_post K verify uid current password w r w'"
  using assms(2,3) movesD [OF assms(1)] unfolding change_post_def
  by (auto simp: no_log_def log_grows_def intro!: exI [of _ d])

lemma change_post_kept:
  "moves w ((w_db w)\<lparr>tb_security_event := tb_security_event (w_db w) @ es\<rparr>) None (w_mq w) w' \<Longrightarrow>
    select_one (live_user uid) (tb_user (w_db w)) = Some u \<Longrightarrow>
    verify (coalesce_empty (u_password u)) current \<noteq> Inr True \<Longrightarrow>
    change_post K verify uid current password w (Inl err_invalid_current) w'"
  "moves w (w_db w) None (w_mq w) w' \<Longrightarrow> select_one (live_user uid) (tb_user (w_db w)) = Some u \<Longrightarrow>
    coalesce_empty (u_password u) = [] \<Longrightarrow> change_post K verify uid current password w (Inl err_invalid_current) w'"
  "moves w (w_db w) None (w_mq w) w' \<Longrightarrow> \<not> reliable w \<or> select_one (live_user uid) (tb_user (w_db w)) = None \<Longrightarrow>
    change_post K verify uid current password w (Inl e) w'"
  by (erule change_postI [where d = "w_db w", OF _ disjI2], simp, erule change_spec.refused, simp)
    (erule change_postI [where d = "w_db w", OF _ disjI1], simp, erule change_spec.refused, simp,
     erule change_postI [where d = "w_db w", OF _ disjI1], simp, erule change_spec.unread)

lemma change_post_changed:
  assumes "select_one (live_user uid) (tb_user (w_db w)) = Some u" and "coalesce_empty (u_password u) \<noteq> []"
    and "verify (coalesce_empty (u_password u)) current = Inr True" and "encodes K password hash"
  shows "moves w (change_db uid hash t (w_db w)\<lparr>tb_security_event := tb_security_event (w_db w) @ es\<rparr>) None (w_mq w) w' \<Longrightarrow>
      change_post K verify uid current password w (Inr ()) w'"
    and "moves w (change_db uid hash t (w_db w)) None (w_mq w) w' \<Longrightarrow> \<not> reliable w \<Longrightarrow>
      change_post K verify uid current password w (Inl e) w'"
proof -
  note sp = change_spec.changed [where encoded = "encodes K password" and verify = verify, OF assms]
  show "moves w (change_db uid hash t (w_db w)\<lparr>tb_security_event := tb_security_event (w_db w) @ es\<rparr>) None (w_mq w) w' \<Longrightarrow>
      change_post K verify uid current password w (Inr ()) w'"
    by (erule change_postI [where d = "change_db uid hash t (w_db w)", OF _ disjI2]) (simp, rule sp, simp)
  show "moves w (change_db uid hash t (w_db w)) None (w_mq w) w' \<Longrightarrow> \<not> reliable w \<Longrightarrow>
      change_post K verify uid current password w (Inl e) w'"
    by (erule change_postI [where d = "change_db uid hash t (w_db w)", OF _ disjI1]) (simp, rule sp, simp)
qed

context auditing
begin

lemma change_effect:
  assumes "pw_auditor s = auditor" and "pw_store s = pg_password_store" and "pw_hash s = hash_password K" and "w_tx w = None"
  shows "wp (change_password s uid current password) (change_post K (pw_verify s) uid current password w) w"
proof (rule wp_start_idle [OF assms(4)])
  fix w' assume m: "moves w (w_db w) None (w_mq w) w'" "w_clock w \<le> w_clock w'"
  show "wp (change_password s uid current password) (change_post K (pw_verify s) uid current password w) w'"
    unfolding change_password_def Let_def
    apply (insert m)
    apply (((erule wp_steps best_effort_step)+)?; clarsimp simp: wp_code assms(1-3) pg_reset_password_hash_def pg_change_password_def
       change_post_kept update_password_def revoke_user_def simp del: select_one_None; (intro conjI impI)?; (rule state_cases)?)+
    by ((erule wp_steps)?, (rule change_post_changed, assumption, assumption, assumption, erule encodesI, assumption, assumption?))+
qed

end

end
