(* ===== verification/Recovery.thy ===== *)
theory Recovery
  imports Password_Safety
begin

text \<open>
  The guarantees of password recovery and password change, from the specifications of
  \<open>Password_Safety\<close>: what a reset needs and what it leaves, how codes are rationed, what a request
  tells, and what happens to the sessions. Two properties record where the code is weaker than the
  comments of the schema say: a code is not compared with the address it was sent to, and a new
  code does not invalidate the older ones.
\<close>

section \<open>The service of the program\<close>

definition pg_password_service :: "idkey \<Rightarrow> string \<Rightarrow> string \<Rightarrow> string \<Rightarrow> password_service" where
  "pg_password_service K queue k origin =
     (new_password_service K pg_password_store (amqp_publish queue) (Some (pg_record k)))\<lparr>pw_origin := origin\<rparr>"

lemma pg_password_service_simps [simp]:
  "pw_store (pg_password_service K queue k origin) = pg_password_store"
  "pw_publisher (pg_password_service K queue k origin) = amqp_publish queue"
  "pw_auditor (pg_password_service K queue k origin) = Some (pg_record k)"
  "pw_origin (pg_password_service K queue k origin) = origin"
  "pw_generate (pg_password_service K queue k origin) = generate_code"
  "pw_hash (pg_password_service K queue k origin) = hash_password K"
  "pw_verify (pg_password_service K queue k origin) = verify_password K"
  "pw_quota (pg_password_service K queue k origin) = no_quota"
  by (simp_all add: pg_password_service_def new_password_service_def)

lemma reset_run:
  assumes "w_tx w = None" and "run_state (reset_password (pg_password_service K queue k origin) email password code) w = (r, w')"
  shows "reset_post K email password code w r w'"
  by (rule wpD [OF pg_audit.reset_effect [OF _ _ _ assms(1)] assms(2)]) simp_all

lemma change_run:
  assumes "w_tx w = None" and "run_state (change_password (pg_password_service K queue k origin) uid current password) w = (r, w')"
  shows "change_post K (verify_password K) uid current password w r w'"
  using wpD [OF pg_audit.change_effect [OF _ _ _ assms(1)] assms(2)] by simp

lemma request_reset_run:
  assumes "run_state (request_reset (pg_password_service K queue k origin) email) w = (r, w')"
  shows "request_reset_post no_quota origin email w r w'"
  using wpD [OF pg_mail.request_reset_effect assms] by simp

lemma no_log_eq:
  assumes "no_log d = no_log d'"
  shows "tb_user d = tb_user d'" "tb_refresh_token d = tb_refresh_token d'" "tb_user_token d = tb_user_token d'"
  using assms by (metis (no_types, lifting) no_log_def db.ext_inject db.surjective db.update_convs(10))+

abbreviation user_tokens :: "world \<Rightarrow> user_token_row list" where
  "user_tokens w \<equiv> tb_user_token (w_db w)"

abbreviation reset_token_in :: "string \<Rightarrow> world \<Rightarrow> user_token_row option" where
  "reset_token_in email w \<equiv> reset_token (normalize_email email) (tb_user (w_db w)) (user_tokens w)"

text \<open>What a call left in the tables, with the log forgotten.\<close>

lemma reset_spec_run:
  assumes "w_tx w = None" and "run_state (reset_password (pg_password_service K queue k origin) email password code) w = (r, w')"
  shows "\<exists>d. reset_spec (reliable w) (encodes K password) (normalize_email email) code (w_clock w) (w_clock w') (w_db w) r d
      \<and> tb_user (w_db w') = tb_user d \<and> token_rows w' = tb_refresh_token d \<and> user_tokens w' = tb_user_token d
      \<and> w_tx w' = None \<and> w_clock w \<le> w_clock w'"
  using reset_run [OF assms] no_log_eq unfolding reset_post_def by (metis same_oracles_clock)

lemma request_reset_spec_run:
  assumes "run_state (request_reset (pg_password_service K queue k origin) email) w = (r, w')"
  shows "\<exists>d. request_reset_spec (reliable w) (token_blocked w) no_quota (normalize_email email) origin (w_clock w) (w_clock w')
      (w_db w) (w_mq w) r d (w_mq w') \<and> user_tokens w' = tb_user_token d"
  using request_reset_run [OF assms] no_log_eq unfolding request_reset_post_def by metis

section \<open>Guessing\<close>

definition reset_code_in :: "string \<Rightarrow> world \<Rightarrow> (string \<times> int \<times> int) option" where
  "reset_code_in email w = map_option (\<lambda>p. (ut_hash p, ut_attempts p, ut_expires p)) (reset_token_in email w)"

lemma reset_token_attempt:
  assumes "reset_token e users rows = Some p"
  shows "reset_token e users (update_where (\<lambda>r. ut_id r = ut_id p) (attempt_counted t) rows) = Some (attempt_counted t p)"
  using assms unfolding reset_token_def reset_tokens_def
  by (subst filter_update_commute, simp, subst newest_update, simp_all)

interpretation reset_guard: code_guard "reset_password (pg_password_service K queue k origin) email password" "reset_code_in email"
    err_reset_invalid_code reset_max_attempts for K queue k origin email password
proof
  fix g :: string and w r w' h and a x :: int
  assume "w_tx w = None" and "run_state (reset_password (pg_password_service K queue k origin) email password g) w = (r, w')"
  then obtain d where sp: "reset_spec (reliable w) (encodes K password) (normalize_email email) g (w_clock w) (w_clock w') (w_db w) r d"
    and d: "tb_user (w_db w') = tb_user d" "user_tokens w' = tb_user_token d" "w_tx w' = None" "w_clock w \<le> w_clock w'"
    using reset_spec_run by blast
  assume "reset_code_in email w = Some (h, a, x)"
  then obtain p where p: "reset_token_in email w = Some p" "h = ut_hash p" "a = ut_attempts p" "x = ut_expires p"
    by (auto simp: reset_code_in_def)
  show "\<not> is_ok r \<and> w_tx w' = None \<and> w_clock w \<le> w_clock w' \<and>
      (reset_code_in email w' = Some (h, a, x) \<and> (r = Inl err_reset_invalid_code \<longrightarrow> x \<le> w_clock w')
       \<or> reset_code_in email w' = Some (h, a + 1, x) \<and> a < reset_max_attempts)" if "hash_code g \<noteq> h"
    using sp d that p by (auto simp: reset_spec.simps reset_code_in_def reset_token_attempt)
  show "\<not> is_ok r \<and> w_tx w' = None \<and> reset_code_in email w' = Some (h, a, x)" if "reset_max_attempts \<le> a"
    using sp d that p by (auto simp: reset_spec.simps reset_code_in_def reset_token_attempt)
qed

text \<open>Guessing a recovery code is bounded: however many wrong codes are tried against the code an
  address has, none is accepted, its counter never passes five, and until it expires at most as
  many are answered with a plain rejection as attempts were left.\<close>

theorem reset_codes_bounded:
  assumes "w_tx w = None"
    and "try_codes (reset_password (pg_password_service K queue k origin) email password) gs w = (rs, w')"
    and "reset_token_in email w = Some p" and "ut_attempts p \<le> reset_max_attempts"
    and "\<forall>g \<in> set gs. hash_code g \<noteq> ut_hash p"
  shows "(\<forall>r \<in> set rs. \<not> is_ok r) \<and> (\<exists>p'. reset_token_in email w' = Some p' \<and> ut_hash p' = ut_hash p
     \<and> ut_attempts p' \<le> reset_max_attempts
     \<and> (w_clock w' < ut_expires p \<longrightarrow> answered err_reset_invalid_code rs \<le> ut_attempts p' - ut_attempts p))"
proof -
  have "reset_code_in email w = Some (ut_hash p, ut_attempts p, ut_expires p)"
    using assms(3) by (simp add: reset_code_in_def)
  from reset_guard.misses_bounded [OF assms(1,2) this assms(4,5)] show ?thesis
    by (auto simp: reset_code_in_def)
qed

section \<open>What a reset needs and what it leaves\<close>

lemma encodes_verifies:
  assumes "encodes K password hash"
    and "\<And>salt. length (K password salt argon_time argon_memory argon_threads argon_key_len) = argon_key_len"
  shows "verify_password K hash password = Inr True"
  using assms by (auto simp: encodes_def verify_encoded)

lemma filter_password_set:
  "filter (\<lambda>u. u_id u \<noteq> uid) (update_where (\<lambda>u. u_id u = uid) (password_set hash t) users) = filter (\<lambda>u. u_id u \<noteq> uid) users"
  by (rule filter_update_where) (simp_all add: password_set_def)

lemma revoked_all: "r \<in> set (revoke_where (\<lambda>r. rt_user r = uid) t rows) \<Longrightarrow> rt_user r = uid \<Longrightarrow> rt_revoked r \<noteq> None"
  by (erule revoke_whereE) (auto split: if_splits)

text \<open>C24: A password is reset only with its code: whenever a reset reports success, or changes a user in
  spite of a failure, the address had an unused, unexpired code with attempts left whose digest is
  that of the presented code; only the owner's row changed, it now accepts the new password and is
  unlocked, every session of the owner is revoked and the code is marked used.\<close>

theorem reset_requires_code:
  assumes "w_tx w = None" and "run_state (reset_password (pg_password_service K queue k origin) email password code) w = (r, w')"
    and "is_ok r \<or> tb_user (w_db w') \<noteq> tb_user (w_db w)"
    and "\<And>salt. length (K password salt argon_time argon_memory argon_threads argon_key_len) = argon_key_len"
  shows "\<exists>p. reset_token_in email w = Some p \<and> ut_attempts p < reset_max_attempts \<and> w_clock w < ut_expires p
     \<and> ut_used p = None \<and> ut_hash p = hash_code code
     \<and> filter (\<lambda>u. u_id u \<noteq> ut_user p) (tb_user (w_db w')) = filter (\<lambda>u. u_id u \<noteq> ut_user p) (tb_user (w_db w))
     \<and> (\<forall>u \<in> set (tb_user (w_db w')). u_id u = ut_user p \<longrightarrow>
          verify_password K (coalesce_empty (u_password u)) password = Inr True \<and> u_failed u = 0 \<and> u_locked_until u = None)
     \<and> (\<forall>s \<in> set (token_rows w'). rt_user s = ut_user p \<longrightarrow> rt_revoked s \<noteq> None)
     \<and> (\<forall>q \<in> set (user_tokens w'). ut_id q = ut_id p \<longrightarrow> ut_used q \<noteq> None)"
proof -
  from reset_spec_run [OF assms(1,2)] obtain d where
    sp: "reset_spec (reliable w) (encodes K password) (normalize_email email) code (w_clock w) (w_clock w') (w_db w) r d"
    and d: "tb_user (w_db w') = tb_user d" "token_rows w' = tb_refresh_token d" "user_tokens w' = tb_user_token d" by blast
  have changed: "is_ok r \<or> tb_user d \<noteq> tb_user (w_db w)" using assms(3) d(1) by simp
  from sp show ?thesis
  proof cases
    case (completed p hash t)
    have "ut_used p = None" using completed reset_token_D by blast
    moreover have "verify_password K hash password = Inr True"
      using completed encodes_verifies [of K password hash] assms(4) by blast
    ultimately show ?thesis
      using completed by (auto simp: d filter_password_set password_set_def coalesce_empty_def
          elim!: in_update_whereE split: if_splits dest: revoked_all)
  qed (use changed in auto)
qed

text \<open>A code resets a password once: after a reset that succeeded, the same code is refused in every
  later state that keeps the used rows, as long as digests are unique.\<close>

theorem reset_single_use:
  assumes "w_tx w = None" and "run_state (reset_password (pg_password_service K queue k origin) email password code) w = (Inr (), w1)"
    and "distinct (map ut_hash (user_tokens w2))" and "w_tx w2 = None"
    and "\<forall>q \<in> set (user_tokens w1). ut_used q \<noteq> None \<longrightarrow> q \<in> set (user_tokens w2)"
    and "run_state (reset_password (pg_password_service K queue k origin) email' password' code) w2 = (r, w3)"
  shows "\<not> is_ok r"
proof
  assume "is_ok r"
  from reset_spec_run [OF assms(1,2)] obtain d where
    sp: "reset_spec (reliable w) (encodes K password) (normalize_email email) code (w_clock w) (w_clock w1) (w_db w) (Inr ()) d"
    and d: "user_tokens w1 = tb_user_token d" by blast
  from sp obtain p t where p: "reset_token_in email w = Some p" "ut_hash p = hash_code code"
    and upd: "tb_user_token d = update_where (\<lambda>r. ut_id r = ut_id p) (token_used t) (user_tokens w)"
    by cases auto
  from p(1) have "p \<in> set (user_tokens w)" using reset_token_D by blast
  then have "token_used t p \<in> set (user_tokens w1)"
    unfolding d upd update_where_def by force
  then have used: "token_used t p \<in> set (user_tokens w2)" using assms(5) by auto
  from reset_spec_run [OF assms(4,6)] \<open>is_ok r\<close> obtain q where
    q: "reset_token_in email' w2 = Some q" "ut_hash q = hash_code code" by (auto simp: reset_spec.simps)
  then have "q \<in> set (user_tokens w2)" "ut_used q = None" using reset_token_D by blast+
  moreover have "q = token_used t p"
    using distinct_map_unique [OF assms(3) \<open>q \<in> _\<close> used] p(2) q(2) by simp
  ultimately show False by simp
qed


text \<open>When nothing fails the right code works until it expires, for whatever address it was mailed
  to: the address recorded with the code is not compared.\<close>

theorem reset_succeeds:
  assumes "w_tx w = None" and "run_state (reset_password (pg_password_service K queue k origin) email password code) w = (r, w')"
    and "reliable w" and "reset_token_in email w = Some p" and "ut_hash p = hash_code code"
    and "ut_attempts p < reset_max_attempts" and "w_clock w' < ut_expires p"
  shows "r = Inr ()"
  using reset_spec_run [OF assms(1,2)] assms(3-7) by (auto simp: reset_spec.simps)

lemma owner_password_set:
  "list_ex (\<lambda>u. u_id u = x \<and> owns_email e u) (update_where (\<lambda>u. u_id u = uid) (password_set hash t) users)
     = list_ex (\<lambda>u. u_id u = x \<and> owns_email e u) users"
  by (induction users) (auto simp: password_set_def owns_email_def)

lemma reset_tokens_used:
  "reset_tokens e (update_where (\<lambda>u. u_id u = uid) (password_set hash t) users)
       (update_where (\<lambda>r. ut_id r = i) (token_used t) rows)
     = filter (\<lambda>r. ut_id r \<noteq> i) (reset_tokens e users rows)"
  unfolding reset_tokens_def owner_password_set by (induction rows) auto

lemma newest_without:
  assumes "newest rows = Some p" and "q \<in> set rows" and "ut_id q \<noteq> ut_id p"
    and "\<forall>r \<in> set rows. ut_id r \<noteq> ut_id p \<longrightarrow> r \<noteq> q \<longrightarrow> ut_created r < ut_created q"
  shows "newest (filter (\<lambda>r. ut_id r \<noteq> ut_id p) rows) = Some q"
proof -
  let ?rows = "filter (\<lambda>r. ut_id r \<noteq> ut_id p) rows"
  have q: "q \<in> set ?rows" using assms(2,3) by simp
  then obtain r where r: "newest ?rows = Some r" using newest_None [of ?rows] by (cases "newest ?rows") (auto simp: filter_empty_conv)
  then have "r \<in> set ?rows" "ut_created q \<le> ut_created r" using newest_SomeD q by blast+
  then have "r = q" using assms(4) by fastforce
  then show ?thesis using r by simp
qed

text \<open>A reset does not invalidate the codes mailed before: when it succeeds, the next newest unused
  code of the address becomes the one a reset accepts.\<close>

theorem reset_revives_older_code:
  assumes "w_tx w = None" and "run_state (reset_password (pg_password_service K queue k origin) email password code) w = (Inr (), w')"
    and "reset_token_in email w = Some p"
    and "q \<in> set (reset_tokens (normalize_email email) (tb_user (w_db w)) (user_tokens w))" and "ut_id q \<noteq> ut_id p"
    and "\<forall>r \<in> set (reset_tokens (normalize_email email) (tb_user (w_db w)) (user_tokens w)).
           ut_id r \<noteq> ut_id p \<longrightarrow> r \<noteq> q \<longrightarrow> ut_created r < ut_created q"
  shows "reset_token_in email w' = Some q"
proof -
  from reset_spec_run [OF assms(1,2)] obtain d where
    sp: "reset_spec (reliable w) (encodes K password) (normalize_email email) code (w_clock w) (w_clock w') (w_db w) (Inr ()) d"
    and d: "tb_user (w_db w') = tb_user d" "user_tokens w' = tb_user_token d" by blast
  from sp obtain t hash where tok: "tb_user_token d = update_where (\<lambda>r. ut_id r = ut_id p) (token_used t) (user_tokens w)"
    and usr: "tb_user d = update_where (\<lambda>u. u_id u = ut_user p) (password_set hash t) (tb_user (w_db w))"
    using assms(3) by cases auto
  have "reset_tokens e (tb_user d) (tb_user_token d)
      = filter (\<lambda>r. ut_id r \<noteq> ut_id p) (reset_tokens e (tb_user (w_db w)) (user_tokens w))" for e
    unfolding usr tok by (rule reset_tokens_used)
  then show ?thesis
    using newest_without [OF _ assms(4-6)] assms(3) by (simp add: reset_token_def d)
qed

section \<open>Rationing, and what a request tells\<close>

text \<open>Recovery codes are rationed: a request that stores a code stores one, for the owner of the
  address, at least a minute after every earlier one of that owner and as at most the fifth within
  twenty-four hours; the code starts with no attempts used and lives ten minutes at most.\<close>

theorem reset_quota_enforced:
  assumes "run_state (request_reset (pg_password_service K queue k origin) email) w = (r, w')"
    and "user_tokens w' \<noteq> user_tokens w"
  shows "\<exists>u n. account email w = Some u \<and> user_tokens w' = user_tokens w @ [n] \<and> ut_user n = u_id u
     \<and> ut_purpose n = purpose_reset \<and> ut_attempts n = 0 \<and> ut_expires n \<le> ut_created n + reset_code_lifetime
     \<and> (\<forall>q \<in> set (requests_of purpose_reset (u_id u) (user_tokens w)). ut_created q + 60 * second \<le> ut_created n)
     \<and> requests_since (ut_created n - 24 * hour) (requests_of purpose_reset (u_id u) (user_tokens w)) < 5"
proof -
  have dflt: "or_default (cooldown no_quota) default_cooldown = 60 * second"
    "or_default (window no_quota) default_window = 24 * hour" "or_default (limit no_quota) default_limit = 5"
    by (simp_all add: or_default_def no_quota_def default_cooldown_def default_window_def default_limit_def)
  from request_reset_spec_run [OF assms(1)] obtain d where
    sp: "request_reset_spec (reliable w) (token_blocked w) no_quota (normalize_email email) origin (w_clock w) (w_clock w')
            (w_db w) (w_mq w) r d (w_mq w')" and d: "user_tokens w' = tb_user_token d" by blast
  from sp show ?thesis
  proof cases
    case (created u now code)
    then obtain t i where t: "now \<le> t" and ins: "insert_user_token
        (reset_token_row (u_id u) (normalize_email email) (hash_code code) (now + reset_code_lifetime) t i) (w_db w) = Inr d"
      by (auto simp: stored_reset_def)
    let ?n = "reset_token_row (u_id u) (normalize_email email) (hash_code code) (now + reset_code_lifetime) t i"
    let ?old = "requests_of purpose_reset (u_id u) (user_tokens w)"
    have n: "user_tokens w' = user_tokens w @ [?n]" using ins by (simp add: d insert_user_token_Inr)
    note q = quota_of_ok [OF created(3), unfolded dflt]
    have "requests_since (t - 24 * hour) ?old \<le> requests_since (now - 24 * hour) ?old"
      using t by (intro requests_since_mono) simp
    then have "requests_since (t - 24 * hour) ?old < 5" using q(2) by simp
    moreover have "\<forall>x \<in> set ?old. ut_created x + 60 * second \<le> t" using q(1) t by fastforce
    ultimately show ?thesis using created(1) n t
      by (intro exI [of _ u] exI [of _ ?n]) (simp add: reset_token_row_def)
  qed (use assms(2) d in auto)
qed

text \<open>A recovery request does not tell who has an account: when nothing fails and a free code is drawn
  it reports success for every address, known, unknown or over its quota; and a mail, if any is
  queued, goes to that address.\<close>

theorem reset_request_uniform:
  assumes "run_state (request_reset (pg_password_service K queue k origin) email) w = (r, w')"
    and "reliable w" and "\<not> token_blocked w"
  shows "r = Inr () \<and> (w_mq w' = w_mq w \<or> (\<exists>m. w_mq w' = w_mq w @ [marshal_message m] \<and> mm_to m = normalize_email email))"
proof -
  have "mm_to (reset_mail code origin e) = e" for code e by (simp add: reset_mail_def)
  then show ?thesis
    using request_reset_run [OF assms(1)] assms(2,3)
    by (auto simp: request_reset_post_def request_reset_spec.simps)
qed

text \<open>C33: A change of password is all or nothing: either no user and no session changed, and the caller
  is told so unless the change was refused; or the presented password was the stored one, the
  account accepts the new one and is unlocked, and every session of it is revoked, even when the
  acknowledgement of the commit was lost.\<close>

theorem change_all_or_nothing:
  assumes "w_tx w = None" and "run_state (change_password (pg_password_service K queue k origin) uid current password) w = (r, w')"
    and "\<And>salt. length (K password salt argon_time argon_memory argon_threads argon_key_len) = argon_key_len"
  shows "tb_user (w_db w') = tb_user (w_db w) \<and> token_rows w' = token_rows w \<and> \<not> is_ok r
    \<or> (\<exists>u. select_one (live_user uid) (tb_user (w_db w)) = Some u
         \<and> verify_password K (coalesce_empty (u_password u)) current = Inr True
         \<and> (\<forall>u \<in> set (tb_user (w_db w')). u_id u = uid \<longrightarrow>
              verify_password K (coalesce_empty (u_password u)) password = Inr True \<and> u_locked_until u = None)
         \<and> (\<forall>s \<in> set (token_rows w'). rt_user s = uid \<longrightarrow> rt_revoked s \<noteq> None))"
proof -
  from change_run [OF assms(1,2)] obtain d where
    sp: "change_spec (reliable w) (verify_password K) (encodes K password) uid current (w_db w) r d"
    and d: "tb_user (w_db w') = tb_user d" "token_rows w' = tb_refresh_token d"
    using no_log_eq unfolding change_post_def by metis
  from sp show ?thesis
  proof cases
    case (changed u hash t)
    have "verify_password K hash password = Inr True"
      using changed encodes_verifies [of K password hash] assms(3) by blast
    then show ?thesis
      using changed by (intro disjI2 exI [of _ u]) (auto simp: d password_set_def coalesce_empty_def
          elim!: in_update_whereE split: if_splits dest: revoked_all)
  qed (auto simp: d)
qed

section \<open>Worked examples\<close>

text \<open>An account with one live session and some recovery codes; \<open>123456\<close> was mailed to an address the
  account had before.\<close>

definition demo_key :: idkey where
  "demo_key = (\<lambda>p s t m q n. replicate n (CHR ''k''))"

definition demo_token :: "string \<Rightarrow> string \<Rightarrow> int \<Rightarrow> user_token_row" where
  "demo_token i code created = \<lparr>ut_id = i, ut_user = ''u1'', ut_purpose = purpose_reset, ut_hash = hash_code code,
     ut_target = ''old@example.com'', ut_attempts = 0, ut_expires = 600, ut_used = None, ut_created = created, ut_updated = created\<rparr>"

definition demo_reset_world :: "user_token_row list \<Rightarrow> world" where
  "demo_reset_world ts = calm (empty_db\<lparr>tb_user := [demo_user], tb_refresh_token := [demo_row None], tb_user_token := ts\<rparr>)"

abbreviation demo_reset :: "string \<Rightarrow> unit io" where
  "demo_reset \<equiv> reset_password (pg_password_service demo_key ''mail'' ''k'' []) ''ana@example.com'' ''new''"

lemma demo_reset_simps [simp]:
  "w_tx (demo_reset_world ts) = None" "reliable (demo_reset_world ts)" "w_clock (demo_reset_world ts) = 0"
  "tb_user (w_db (demo_reset_world ts)) = [demo_user]" "token_rows (demo_reset_world ts) = [demo_row None]"
  "user_tokens (demo_reset_world ts) = ts" "w_mq (demo_reset_world ts) = []"
  "ut_id (demo_token i c n) = i" "ut_hash (demo_token i c n) = hash_code c" "ut_attempts (demo_token i c n) = 0"
  "ut_expires (demo_token i c n) = 600" "ut_created (demo_token i c n) = n" "ut_user (demo_token i c n) = ''u1''"
  "ut_used (demo_token i c n) = None" "ut_purpose (demo_token i c n) = purpose_reset"
  "length (demo_key p x t m q argon_key_len) = argon_key_len"
  by (simp_all add: demo_reset_world_def demo_token_def demo_key_def)

lemma demo_owns [simp]: "owns_email ''ana@example.com'' demo_user"
  by (simp add: owns_email_def demo_user_def)

lemma demo_reset_token: "reset_token_in ''ana@example.com'' (demo_reset_world [demo_token ''t2'' c 5]) = Some (demo_token ''t2'' c 5)"
  "reset_token_in ''ana@example.com'' (demo_reset_world [demo_token ''t1'' c' 1, demo_token ''t2'' c 5]) = Some (demo_token ''t2'' c 5)"
  by (simp_all add: normal_ana reset_token_def reset_tokens_def newest_def)

lemma demo_reset_clock:
  assumes "run_state (reset_password (pg_password_service K queue k origin) email password code) (demo_reset_world ts) = (r, w')"
  shows "w_clock w' = 0"
  using reset_run [OF demo_reset_simps(1) assms] calm_clock by (auto simp: reset_post_def demo_reset_world_def)

lemma demo_reset_ok: "fst (run_state (demo_reset ''123456'') (demo_reset_world [demo_token ''t2'' ''123456'' 5])) = Inr ()"
  "fst (run_state (demo_reset ''123456'') (demo_reset_world [demo_token ''t1'' c' 1, demo_token ''t2'' ''123456'' 5])) = Inr ()"
proof -
  have "fst (run_state (demo_reset ''123456'') (demo_reset_world ts)) = Inr ()"
    if "reset_token_in ''ana@example.com'' (demo_reset_world ts) = Some (demo_token ''t2'' ''123456'' 5)" for ts
  proof -
    obtain r w' where run: "run_state (demo_reset ''123456'') (demo_reset_world ts) = (r, w')" by fastforce
    show ?thesis
      using reset_spec_run [OF demo_reset_simps(1) run] demo_reset_clock [OF run] that run
      by (auto simp: reset_spec.simps reset_max_attempts_def)
  qed
  then show "fst (run_state (demo_reset ''123456'') (demo_reset_world [demo_token ''t2'' ''123456'' 5])) = Inr ()"
    "fst (run_state (demo_reset ''123456'') (demo_reset_world [demo_token ''t1'' c' 1, demo_token ''t2'' ''123456'' 5])) = Inr ()"
    using demo_reset_token by blast+
qed

lemma demo_reset_run: "run_state (demo_reset ''123456'') (demo_reset_world [demo_token ''t2'' ''123456'' 5])
    = (Inr (), snd (run_state (demo_reset ''123456'') (demo_reset_world [demo_token ''t2'' ''123456'' 5])))"
  using demo_reset_ok(1) by (metis prod.collapse)

lemma reset_codes_bounded_witness:
  "list_all (\<lambda>r. \<not> is_ok r) (fst (try_codes demo_reset (replicate 9 ''000000'') (demo_reset_world [demo_token ''t2'' ''123456'' 5])))"
  using reset_codes_bounded [OF demo_reset_simps(1) prod.collapse [symmetric] demo_reset_token(1) [of "''123456''"],
      where K = demo_key and queue = "''mail''" and k = "''k''" and origin = "[]" and password = "''new''" and gs = "replicate 9 ''000000''"]
  by (simp add: list_all_iff reset_max_attempts_def hash_code_def sha256_123456 sha256_000000 del: try_codes.simps replicate.simps)

lemma reset_requires_code_witness:
  "list_all (\<lambda>s. rt_revoked s \<noteq> None) (filter (\<lambda>s. rt_user s = ''u1'')
     (token_rows (snd (run_state (demo_reset ''123456'') (demo_reset_world [demo_token ''t2'' ''123456'' 5])))))"
proof -
  let ?w = "demo_reset_world [demo_token ''t2'' ''123456'' 5]"
  obtain p where "reset_token_in ''ana@example.com'' ?w = Some p"
    and "\<forall>s \<in> set (token_rows (snd (run_state (demo_reset ''123456'') ?w))). rt_user s = ut_user p \<longrightarrow> rt_revoked s \<noteq> None"
    using reset_requires_code [OF demo_reset_simps(1) demo_reset_run] by auto
  moreover from this(1) have "p = demo_token ''t2'' ''123456'' 5" by (simp only: demo_reset_token(1) option.inject)
  ultimately show ?thesis by (simp add: list_all_iff)
qed

lemma reset_single_use_witness:
  "\<not> is_ok (fst (run_state (demo_reset ''123456'')
     (snd (run_state (demo_reset ''123456'') (demo_reset_world [demo_token ''t2'' ''123456'' 5])))))"
proof -
  let ?w1 = "snd (run_state (demo_reset ''123456'') (demo_reset_world [demo_token ''t2'' ''123456'' 5]))"
  have "length (user_tokens ?w1) = 1" and "w_tx ?w1 = None"
    using reset_spec_run [OF demo_reset_simps(1) demo_reset_run] by (auto simp: reset_spec.simps)
  then have "distinct (map ut_hash (user_tokens ?w1))" by (cases "user_tokens ?w1") auto
  then show ?thesis
    using reset_single_use [OF demo_reset_simps(1) demo_reset_run _ \<open>w_tx ?w1 = None\<close> _ prod.collapse [symmetric]] by blast
qed


lemma reset_succeeds_witness:
  "ut_target (demo_token ''t2'' ''123456'' 5) \<noteq> ''ana@example.com''
   \<and> fst (run_state (demo_reset ''123456'') (demo_reset_world [demo_token ''t2'' ''123456'' 5])) = Inr ()"
proof -
  have "ut_target (demo_token ''t2'' ''123456'' 5) \<noteq> ''ana@example.com''" by (simp add: demo_token_def)
  then show ?thesis
    using reset_succeeds [OF demo_reset_simps(1) prod.collapse [symmetric] demo_reset_simps(2) demo_reset_token(1) [of "''123456''"],
        where K = demo_key and queue = "''mail''" and k = "''k''" and origin = "[]" and password = "''new''" and code = "''123456''"]
      demo_reset_clock [OF prod.collapse [symmetric]]
    by (simp add: reset_max_attempts_def)
qed

lemma reset_revives_older_code_witness:
  "reset_token_in ''ana@example.com'' (snd (run_state (demo_reset ''123456'')
     (demo_reset_world [demo_token ''t1'' ''000000'' 1, demo_token ''t2'' ''123456'' 5]))) = Some (demo_token ''t1'' ''000000'' 1)"
proof -
  let ?ts = "[demo_token ''t1'' ''000000'' 1, demo_token ''t2'' ''123456'' 5]"
  have run: "run_state (demo_reset ''123456'') (demo_reset_world ?ts) = (Inr (), snd (run_state (demo_reset ''123456'') (demo_reset_world ?ts)))"
    using demo_reset_ok(2) by (metis prod.collapse)
  show ?thesis
    by (rule reset_revives_older_code [OF demo_reset_simps(1) run demo_reset_token(2)])
      (simp_all add: reset_tokens_def normal_ana)
qed

lemma demo_not_blocked: "\<not> token_blocked (demo_reset_world [])"
  by (simp add: token_blocked_def)

abbreviation demo_ask :: "unit io" where
  "demo_ask \<equiv> request_reset (pg_password_service demo_key ''mail'' ''k'' []) ''ana@example.com''"

lemma demo_ask_stores: "user_tokens (snd (run_state demo_ask (demo_reset_world []))) \<noteq> []"
proof -
  obtain r w' where run: "run_state demo_ask (demo_reset_world []) = (r, w')" by fastforce
  have "quota_of no_quota purpose_reset x now [] = Inr ()" for x now
    by (simp add: quota_of_def requests_of_def last_request_def requests_since_def quota_check_ok no_quota_def or_default_def default_limit_def)
  note quota = this
  from request_reset_spec_run [OF run] obtain d where
    sp: "request_reset_spec (reliable (demo_reset_world [])) (token_blocked (demo_reset_world [])) no_quota
      (normalize_email ''ana@example.com'') [] (w_clock (demo_reset_world [])) (w_clock w') (w_db (demo_reset_world []))
      (w_mq (demo_reset_world [])) r d (w_mq w')" and d: "user_tokens w' = tb_user_token d" by blast
  from sp have "tb_user_token d \<noteq> []"
  proof cases
    case (created u now code)
    then show ?thesis by (auto simp: stored_reset_def insert_user_token_Inr)
  qed (simp_all add: normal_ana quota demo_not_blocked)
  then show ?thesis by (simp add: run d)
qed

lemma reset_quota_enforced_witness:
  "\<exists>n. user_tokens (snd (run_state demo_ask (demo_reset_world []))) = [n] \<and> ut_expires n \<le> ut_created n + reset_code_lifetime"
proof -
  have "user_tokens (snd (run_state demo_ask (demo_reset_world []))) \<noteq> user_tokens (demo_reset_world [])"
    using demo_ask_stores by simp
  from reset_quota_enforced [OF prod.collapse [symmetric] this] show ?thesis
    by (simp only: demo_reset_simps append_Nil) blast
qed

lemma reset_request_uniform_witness: "fst (run_state demo_ask (demo_reset_world [])) = Inr ()"
  using reset_request_uniform [OF prod.collapse [symmetric] demo_reset_simps(2) demo_not_blocked] by blast

lemma change_all_or_nothing_witness:
  "\<not> is_ok (fst (run_state (change_password (pg_password_service demo_key ''mail'' ''k'' []) ''u1'' ''old'' ''new'') (demo_reset_world [])))"
proof -
  have "select_one (live_user ''u1'') [demo_user] = Some demo_user" "coalesce_empty (u_password demo_user) = []"
    "verify_password demo_key [] ''old'' \<noteq> Inr True"
    by (simp_all add: live_user_def demo_user_def coalesce_empty_def verify_password_def)
  then show ?thesis
    using change_all_or_nothing [OF demo_reset_simps(1) prod.collapse [symmetric], where K = demo_key and queue = "''mail''"
        and k = "''k''" and origin = "[]" and uid = "''u1''" and current = "''old''" and password = "''new''", of "[]"]
    by auto
qed

end
