(* ===== verification/Email_Change_Safety.thy ===== *)
theory Email_Change_Safety
  imports Email_Change Recovery
begin

text \<open>
  What a change of address guarantees: the account moves only with the code mailed to the new
  address, to that address and nowhere else; the sessions end with it; the address stays unique
  among live accounts; and codes are rationed to one a day, the newest being the only one valid.
\<close>

section \<open>The steps of the store\<close>

lemma change_store_simps [simp]:
  "cst_password_hash pg_change_store = pg_change_password_hash" "cst_current_email pg_change_store = pg_current_email"
  "cst_address_taken pg_change_store = pg_address_taken" "cst_create pg_change_store = pg_create_change_token"
  "cst_last_request pg_change_store = pg_change_last_request" "cst_count_since pg_change_store = pg_change_count_since"
  "cst_begin_verify pg_change_store = pg_begin_change"
  by (simp_all add: pg_change_store_def)

lemma change_tx_simps [simp]:
  "chx_token (pg_change_tx u) = pg_change_token u" "chx_record_failed (pg_change_tx u) = pg_change_record_failed"
  "chx_consume (pg_change_tx u) = pg_change_consume" "chx_set_email (pg_change_tx u) = pg_set_email"
  "chx_revoke_all (pg_change_tx u) = pg_change_revoke_all" "chx_commit (pg_change_tx u) = tx_commit"
  "chx_rollback (pg_change_tx u) = tx_rollback"
  by (simp_all add: pg_change_tx_def)

lemma change_row_of_simps [simp]:
  "ch_token (change_row_of r) = ut_id r" "ch_user (change_row_of r) = ut_user r" "ch_code (change_row_of r) = ut_hash r"
  "ch_target (change_row_of r) = ut_target r" "ch_attempts (change_row_of r) = ut_attempts r"
  "ch_expires (change_row_of r) = ut_expires r" "ch_used (change_row_of r) = ut_used r"
  by (simp_all add: change_row_of_def)

definition change_answer :: "gerror \<Rightarrow> bool" where
  "change_answer e \<longleftrightarrow> e = err_change_invalid_code \<or> e = err_change_too_many \<or> e = err_email_taken"

lemma change_errors [simp]:
  "errors_is err_change_invalid_code err_change_invalid_code" "ExtError m \<noteq> err_change_invalid_code"
  "Wrapf p e x \<noteq> err_change_invalid_code" "err_change_invalid_code \<noteq> Wrapf p e x"
  "Wrapf p e x \<noteq> err_change_too_many" "err_change_too_many \<noteq> Wrapf p e x"
  "Wrapf p e x \<noteq> err_email_taken" "err_email_taken \<noteq> Wrapf p e x"
  "err_change_invalid_code \<noteq> err_change_too_many" "err_change_too_many \<noteq> err_change_invalid_code"
  "err_change_invalid_code \<noteq> err_email_taken" "err_email_taken \<noteq> err_change_invalid_code"
  "err_email_taken \<noteq> err_change_too_many" "err_change_too_many \<noteq> err_email_taken"
  "\<not> change_answer (Wrapf p e x)" "change_answer err_change_invalid_code" "change_answer err_change_too_many"
  "change_answer err_email_taken" "ExtError m \<noteq> err_change_collision" "Wrapf p e x \<noteq> err_change_collision"
  by (auto simp: change_answer_def err_change_invalid_code_def err_change_too_many_def err_email_taken_def err_change_collision_def)

lemma change_token_D: "change_token uid rows = Some p \<Longrightarrow> p \<in> set rows \<and> ut_user p = uid \<and> ut_purpose p = purpose_change \<and> ut_used p = None"
  by (auto simp: change_token_def pending_change_def dest: newest_SomeD)

lemmas change_ops = pg_change_token_def pg_change_record_failed_def pg_change_consume_def pg_set_email_def
  pg_change_revoke_all_def pg_begin_change_def pg_address_taken_def

section \<open>Moving the account\<close>

lemma email_set_simps [simp]:
  "u_id (email_set e t u) = u_id u" "u_email (email_set e t u) = Some e" "u_deleted (email_set e t u) = u_deleted u"
  "u_password (email_set e t u) = u_password u" "u_status (email_set e t u) = u_status u"
  by (simp_all add: email_set_def)

lemma live_emails_moved:
  assumes "distinct (map u_id us)" and "distinct (live_emails us)" and "\<not> list_ex (owns_email e) us"
  shows "distinct (live_emails (update_where (\<lambda>u. u_id u = uid) (email_set e t) us))"
proof -
  have other: "update_where (\<lambda>u. u_id u = uid) (email_set e t) us = us" if "uid \<notin> u_id ` set us" for us
    using that by (induction us) auto
  have sub: "set (live_emails (update_where (\<lambda>u. u_id u = uid) (email_set e t) us)) \<subseteq> insert e (set (live_emails us))" for us
    by (induction us) (auto simp: live_emails_Cons split: option.splits)
  show ?thesis
    using assms
  proof (induction us)
    case (Cons u us)
    have free: "e \<notin> set (live_emails (u # us))" using Cons.prems(3) set_live_emails by blast
    show ?case
      using Cons sub [of us] free other [of us]
      by (auto simp: live_emails_Cons split: option.splits if_splits)
  qed simp
qed

lemma update_email_free:
  assumes "db_ok d" and "\<not> list_ex (owns_email e) (tb_user d)"
  shows "update_email uid e t d = Inr (d\<lparr>tb_user := update_where (\<lambda>u. u_id u = uid) (email_set e t) (tb_user d)\<rparr>)"
  using live_emails_moved [of "tb_user d"] assms by (simp add: update_email_def db_ok_def)

lemma update_email_Inr: "update_email uid e t d = Inr d' \<Longrightarrow>
    d' = d\<lparr>tb_user := update_where (\<lambda>u. u_id u = uid) (email_set e t) (tb_user d)\<rparr>"
  by (auto simp: update_email_def Let_def split: if_splits)

abbreviation moved_db :: "string \<Rightarrow> int \<Rightarrow> user_token_row \<Rightarrow> db \<Rightarrow> db" where
  "moved_db uid t p d \<equiv> d\<lparr>tb_user := update_where (\<lambda>u. u_id u = uid) (email_set (ut_target p) t) (tb_user d),
     tb_user_token := update_where (\<lambda>r. ut_id r = ut_id p) (token_used t) (tb_user_token d),
     tb_refresh_token := revoke_where (\<lambda>r. rt_user r = uid) t (tb_refresh_token d)\<rparr>"

inductive verify_change_spec ::
  "bool \<Rightarrow> string \<Rightarrow> string \<Rightarrow> int \<Rightarrow> int \<Rightarrow> db \<Rightarrow> gerror + unit \<Rightarrow> db \<Rightarrow> bool"
  for rel :: bool and uid :: string and code :: string and t0 :: int and t1 :: int and d :: db
where
  absent: "change_token uid (tb_user_token d) = None \<Longrightarrow>
    verify_change_spec rel uid code t0 t1 d (Inl err_change_invalid_code) d"
| expired: "change_token uid (tb_user_token d) = Some p \<Longrightarrow> ut_expires p \<le> t1 \<Longrightarrow>
    verify_change_spec rel uid code t0 t1 d (Inl err_change_invalid_code) d"
| spent: "change_token uid (tb_user_token d) = Some p \<Longrightarrow> change_max_attempts \<le> ut_attempts p \<Longrightarrow>
    verify_change_spec rel uid code t0 t1 d (Inl err_change_too_many) d"
| broken: "\<not> rel \<or> \<not> db_ok d \<Longrightarrow> \<not> change_answer e \<Longrightarrow> verify_change_spec rel uid code t0 t1 d (Inl e) d"
| wrong: "change_token uid (tb_user_token d) = Some p \<Longrightarrow> ut_attempts p < change_max_attempts \<Longrightarrow>
    t0 < ut_expires p \<Longrightarrow> hash_code code \<noteq> ut_hash p \<Longrightarrow>
    r = Inl err_change_invalid_code \<or> \<not> rel \<and> (\<exists>e. r = Inl e \<and> \<not> change_answer e) \<Longrightarrow>
    verify_change_spec rel uid code t0 t1 d r
      (d\<lparr>tb_user_token := update_where (\<lambda>r. ut_id r = ut_id p) (attempt_counted t) (tb_user_token d)\<rparr>)"
| taken: "change_token uid (tb_user_token d) = Some p \<Longrightarrow> ut_attempts p < change_max_attempts \<Longrightarrow>
    hash_code code = ut_hash p \<Longrightarrow> list_ex (owns_email (ut_target p)) (tb_user d) \<Longrightarrow>
    verify_change_spec rel uid code t0 t1 d (Inl err_email_taken) d"
| moved: "change_token uid (tb_user_token d) = Some p \<Longrightarrow> ut_attempts p < change_max_attempts \<Longrightarrow>
    t0 < ut_expires p \<Longrightarrow> hash_code code = ut_hash p \<Longrightarrow> \<not> list_ex (owns_email (ut_target p)) (tb_user d) \<Longrightarrow>
    r = Inr () \<or> \<not> rel \<and> \<not> is_ok r \<Longrightarrow>
    verify_change_spec rel uid code t0 t1 d r (moved_db uid t p d)"

definition verify_change_post :: "string \<Rightarrow> string \<Rightarrow> world \<Rightarrow> gerror + unit \<Rightarrow> world \<Rightarrow> bool" where
  "verify_change_post uid code w r w' \<longleftrightarrow> w_tx w' = None \<and> w_mq w' = w_mq w \<and> same_oracles w w' \<and>
     log_grows (w_db w) (w_db w') \<and>
     (\<exists>d. verify_change_spec (reliable w) uid code (w_clock w) (w_clock w') (w_db w) r d \<and> no_log (w_db w') = no_log d)"

lemma verify_change_postI:
  assumes "moves w d' None (w_mq w) w'" and "d' = d \<and> tb_security_event d = tb_security_event (w_db w)
      \<or> d' = d\<lparr>tb_security_event := tb_security_event (w_db w) @ es\<rparr>"
    and "verify_change_spec (reliable w) uid code (w_clock w) (w_clock w') (w_db w) r d"
  shows "verify_change_post uid code w r w'"
  using assms(2,3) movesD [OF assms(1)] unfolding verify_change_post_def
  by (auto simp: no_log_def log_grows_def intro!: exI [of _ d])

abbreviation change_token_in :: "string \<Rightarrow> world \<Rightarrow> user_token_row option" where
  "change_token_in uid w \<equiv> change_token uid (user_tokens w)"

lemma verify_change_kept:
  assumes "moves w (w_db w) None (w_mq w) w'"
  shows "change_token_in uid w = None \<Longrightarrow> verify_change_post uid code w (Inl err_change_invalid_code) w'"
    and "change_token_in uid w = Some p \<Longrightarrow> ut_expires p \<le> w_clock w' \<Longrightarrow>
      verify_change_post uid code w (Inl err_change_invalid_code) w'"
    and "change_token_in uid w = Some p \<Longrightarrow> change_max_attempts \<le> ut_attempts p \<Longrightarrow>
      verify_change_post uid code w (Inl err_change_too_many) w'"
    and "\<not> reliable w \<or> \<not> db_ok (w_db w) \<Longrightarrow> \<not> change_answer e \<Longrightarrow> verify_change_post uid code w (Inl e) w'"
    and "change_token_in uid w = Some p \<Longrightarrow> ut_attempts p < change_max_attempts \<Longrightarrow>
      hash_code code = ut_hash p \<Longrightarrow> list_ex (owns_email (ut_target p)) (tb_user (w_db w)) \<Longrightarrow>
      verify_change_post uid code w (Inl err_email_taken) w'"
  by (rule verify_change_postI [where d = "w_db w", OF assms disjI1 [OF conjI [OF refl refl]]];
      simp add: verify_change_spec.absent verify_change_spec.expired verify_change_spec.spent verify_change_spec.broken
        verify_change_spec.taken)+

lemma verify_change_wrong:
  assumes "change_token_in uid w = Some p"
    and "ut_attempts p < change_max_attempts" and "w_clock w < ut_expires p" and "hash_code code \<noteq> ut_hash p"
  shows "moves w ((w_db w)\<lparr>tb_user_token := update_where (\<lambda>r. ut_id r = ut_id p) (attempt_counted t) (user_tokens w),
        tb_security_event := tb_security_event (w_db w) @ es\<rparr>) None (w_mq w) w' \<Longrightarrow>
      verify_change_post uid code w (Inl err_change_invalid_code) w'"
    and "moves w ((w_db w)\<lparr>tb_user_token := update_where (\<lambda>r. ut_id r = ut_id p) (attempt_counted t) (user_tokens w)\<rparr>) None (w_mq w) w' \<Longrightarrow>
      \<not> reliable w \<Longrightarrow> verify_change_post uid code w (Inl (wrap s e)) w'"
  by (erule verify_change_postI [OF _ disjI2], simp, simp add: verify_change_spec.wrong [OF assms])
    (erule verify_change_postI [OF _ disjI1 [OF conjI [OF refl]]], simp, simp add: verify_change_spec.wrong [OF assms])

lemma verify_change_moved:
  assumes "change_token_in uid w = Some p"
    and "ut_attempts p < change_max_attempts" and "w_clock w < ut_expires p" and "hash_code code = ut_hash p"
    and "\<not> list_ex (owns_email (ut_target p)) (tb_user (w_db w))"
  shows "moves w (moved_db uid t p (w_db w)\<lparr>tb_security_event := tb_security_event (w_db w) @ es\<rparr>) None (w_mq w) w' \<Longrightarrow>
      verify_change_post uid code w (Inr ()) w'"
    and "moves w (moved_db uid t p (w_db w)) None (w_mq w) w' \<Longrightarrow> \<not> reliable w \<Longrightarrow> verify_change_post uid code w (Inl e) w'"
  by (erule verify_change_postI [OF _ disjI2], simp, rule verify_change_spec.moved [OF assms], simp)
    (erule verify_change_postI [OF _ disjI1 [OF conjI [OF refl]]], simp, rule verify_change_spec.moved [OF assms], simp)

lemma verify_change_conflict:
  assumes "update_email uid e t (w_db w) = Inl x" and "moves w (w_db w) None (w_mq w) w'"
    and "\<not> list_ex (owns_email e) (tb_user (w_db w))" and "\<not> change_answer y"
  shows "verify_change_post uid code w (Inl y) w'"
  using assms update_email_free verify_change_kept(4) by fastforce

lemma case_insert [simp]:
  "(case x of Inl e \<Rightarrow> Inl e | Inr d \<Rightarrow> Inr ((), d)) = Inr ((), d') \<longleftrightarrow> x = Inr d'"
  "(case x of Inl e \<Rightarrow> Inl e | Inr d \<Rightarrow> Inr ((), d)) = Inl e' \<longleftrightarrow> x = Inl e'"
  by (cases x; simp)+

context auditing
begin

lemma verify_change_effect:
  assumes "ec_auditor s = auditor" and "ec_store s = pg_change_store" and "w_tx w = None"
  shows "wp (verify_change s uid code) (verify_change_post uid code w) w"
proof (rule wp_start_idle [OF assms(3)])
  fix w' assume m: "moves w (w_db w) None (w_mq w) w'" "w_clock w \<le> w_clock w'"
  show "wp (verify_change s uid code) (verify_change_post uid code w) w'"
    unfolding verify_change_def Let_def codes_equal_def
    apply (insert m)
    apply (((erule wp_steps best_effort_step)+)?; clarsimp simp: wp_code assms(1-2) change_ops verify_change_kept change_token_D verify_change_conflict
       verify_change_wrong not_less not_le dest!: update_email_Inr; (intro conjI impI)?; (rule state_cases)?)+
    by ((erule wp_steps)?, ((rule verify_change_moved, assumption, assumption, simp, assumption, assumption, assumption, assumption?)
      | simp add: verify_change_kept))+
qed

end

section \<open>Asking for a change\<close>

abbreviation change_retired :: "string \<Rightarrow> int \<Rightarrow> user_token_row list \<Rightarrow> user_token_row list" where
  "change_retired uid t rows \<equiv> update_where (pending_change uid) (token_used t) rows"

text \<open>The code a request stores, the pending ones of the user being marked used in the same transaction.\<close>

definition stored_change :: "string \<Rightarrow> string \<Rightarrow> string \<Rightarrow> int \<Rightarrow> int \<Rightarrow> int \<Rightarrow> db \<Rightarrow> db \<Rightarrow> bool" where
  "stored_change uid target code now t0 t1 d d' \<longleftrightarrow> (\<exists>t i. t0 \<le> t \<and> t \<le> t1 \<and>
     insert_user_token (change_token_row uid target (hash_code code) (now + change_code_lifetime) t i)
       (d\<lparr>tb_user_token := change_retired uid t (tb_user_token d)\<rparr>) = Inr d')"

text \<open>What the quota, the password and the addresses let through.\<close>

definition change_allowed :: "(string \<Rightarrow> string \<Rightarrow> gerror + bool) \<Rightarrow> string \<Rightarrow> string \<Rightarrow> string \<Rightarrow> db \<Rightarrow> bool" where
  "change_allowed verify uid new_email password d \<longleftrightarrow> (\<exists>u. select_one (live_user uid) (tb_user d) = Some u \<and>
     normalize_email (coalesce_empty (u_email u)) \<noteq> new_email \<and> \<not> list_ex (owns_email new_email) (tb_user d) \<and>
     coalesce_empty (u_password u) \<noteq> [] \<and> verify (coalesce_empty (u_password u)) password = Inr True)"

inductive request_change_spec ::
  "bool \<Rightarrow> bool \<Rightarrow> (string \<Rightarrow> string \<Rightarrow> gerror + bool) \<Rightarrow> quota \<Rightarrow> string \<Rightarrow> string \<Rightarrow> string \<Rightarrow> int \<Rightarrow> int \<Rightarrow> db \<Rightarrow> string list \<Rightarrow>
     gerror + unit \<Rightarrow> db \<Rightarrow> string list \<Rightarrow> bool"
  for rel :: bool and blocked :: bool and verify :: "string \<Rightarrow> string \<Rightarrow> gerror + bool" and qt :: quota and uid :: string
    and new_email :: string and password :: string and t0 :: int and t1 :: int and d :: db and q :: "string list"
where
  refused: "\<not> rel \<or> blocked \<or> \<not> change_allowed verify uid new_email password d
      \<or> (\<exists>now. t0 \<le> now \<and> now \<le> t1 \<and> quota_of qt purpose_change uid now (tb_user_token d) \<noteq> Inr ()) \<Longrightarrow>
    request_change_spec rel blocked verify qt uid new_email password t0 t1 d q (Inl e) d q"
| created: "change_allowed verify uid new_email password d \<Longrightarrow> t0 \<le> now \<Longrightarrow>
    quota_of qt purpose_change uid now (tb_user_token d) = Inr () \<Longrightarrow> length code = 6 \<Longrightarrow>
    stored_change uid new_email code now now t1 d d' \<Longrightarrow>
    q' = q @ [marshal_message (change_mail code new_email)] \<and> (r = Inr () \<or> \<not> rel)
      \<or> q' = q \<and> \<not> rel \<and> \<not> is_ok r \<Longrightarrow>
    request_change_spec rel blocked verify qt uid new_email password t0 t1 d q r d' q'"

definition request_change_post ::
  "(string \<Rightarrow> string \<Rightarrow> gerror + bool) \<Rightarrow> quota \<Rightarrow> string \<Rightarrow> string \<Rightarrow> string \<Rightarrow> world \<Rightarrow> gerror + unit \<Rightarrow> world \<Rightarrow> bool" where
  "request_change_post verify qt uid email password w r w' \<longleftrightarrow> w_tx w' = None \<and> same_oracles w w' \<and> log_grows (w_db w) (w_db w') \<and>
     (\<exists>d. request_change_spec (reliable w) (token_blocked w) verify qt uid (normalize_email email) password (w_clock w) (w_clock w')
            (w_db w) (w_mq w) r d (w_mq w') \<and> no_log (w_db w') = no_log d)"

lemma request_change_postI:
  assumes "moves w d' None q w'" and "d' = d \<and> tb_security_event d = tb_security_event (w_db w)
      \<or> d' = d\<lparr>tb_security_event := tb_security_event (w_db w) @ es\<rparr>"
    and "request_change_spec (reliable w) (token_blocked w) verify qt uid (normalize_email email) password (w_clock w) (w_clock w')
            (w_db w) (w_mq w) r d q"
  shows "request_change_post verify qt uid email password w r w'"
  using assms(2,3) movesD [OF assms(1)] unfolding request_change_post_def
  by (auto simp: no_log_def log_grows_def intro!: exI [of _ d])

lemma request_change_kept:
  "moves w (w_db w) None (w_mq w) w' \<Longrightarrow> \<not> reliable w \<or> token_blocked w \<or> \<not> change_allowed verify uid (normalize_email email) password (w_db w) \<Longrightarrow>
     request_change_post verify qt uid email password w (Inl e) w'"
  "moves w ((w_db w)\<lparr>tb_security_event := tb_security_event (w_db w) @ es\<rparr>) None (w_mq w) w' \<Longrightarrow>
     \<not> change_allowed verify uid (normalize_email email) password (w_db w) \<Longrightarrow>
     request_change_post verify qt uid email password w (Inl e) w'"
  "quota_of qt purpose_change uid now (user_tokens w) = Inl x \<Longrightarrow>
     moves w ((w_db w)\<lparr>tb_security_event := tb_security_event (w_db w) @ es\<rparr>) None (w_mq w) w' \<Longrightarrow>
     w_clock w \<le> now \<Longrightarrow> now \<le> w_clock w' \<Longrightarrow> request_change_post verify qt uid email password w (Inl e) w'"
  by (erule request_change_postI [where d = "w_db w", OF _ disjI1], simp, rule request_change_spec.refused, blast)
    (erule request_change_postI [where d = "w_db w", OF _ disjI2], simp, rule request_change_spec.refused, blast,
     erule request_change_postI [where d = "w_db w", OF _ disjI2], simp, rule request_change_spec.refused, metis sum.distinct(1))

lemma change_allowedI:
  "select_one (live_user uid) (tb_user d) = None \<Longrightarrow> \<not> change_allowed verify uid email password d"
  "select_one (live_user uid) (tb_user d) = Some u \<Longrightarrow> normalize_email (coalesce_empty (u_email u)) = email \<Longrightarrow>
     \<not> change_allowed verify uid email password d"
  "list_ex (owns_email email) (tb_user d) \<Longrightarrow> \<not> change_allowed verify uid email password d"
  "select_one (live_user uid) (tb_user d) = Some u \<Longrightarrow> coalesce_empty (u_password u) = [] \<Longrightarrow>
     \<not> change_allowed verify uid email password d"
  "select_one (live_user uid) (tb_user d) = Some u \<Longrightarrow> verify (coalesce_empty (u_password u)) password \<noteq> Inr True \<Longrightarrow>
     \<not> change_allowed verify uid email password d"
  "select_one (live_user uid) (tb_user d) = Some u \<Longrightarrow> normalize_email (coalesce_empty (u_email u)) \<noteq> email \<Longrightarrow>
     \<not> list_ex (owns_email email) (tb_user d) \<Longrightarrow> coalesce_empty (u_password u) \<noteq> [] \<Longrightarrow>
     verify (coalesce_empty (u_password u)) password = Inr True \<Longrightarrow> change_allowed verify uid email password d"
  by (simp_all add: change_allowed_def del: select_one_None)

lemma stored_change_mono: "stored_change uid email code now t0 t1 d d' \<Longrightarrow> t0' \<le> t0 \<Longrightarrow> t1 \<le> t1' \<Longrightarrow>
    stored_change uid email code now t0' t1' d d'"
  unfolding stored_change_def by (meson order_trans)

lemma stored_change_log: "stored_change uid email code now t0 t1 d d' \<Longrightarrow> tb_security_event d' = tb_security_event d"
  by (auto simp: stored_change_def insert_user_token_Inr)

lemma request_change_created:
  assumes "change_allowed verify uid (normalize_email email) password (w_db w)"
    and "quota_of qt purpose_change uid now (user_tokens w) = Inr x"
    and "stored_change uid (normalize_email email) (code_of_bytes buf) now t0 t1 (w_db w) d"
    and "w_clock w \<le> now" and "now \<le> t0" and "t1 \<le> w_clock w'"
    and m_def: "m = marshal_message (change_mail (code_of_bytes buf) (normalize_email email))"
  shows "moves w (d\<lparr>tb_security_event := tb_security_event d @ es\<rparr>) None (w_mq w @ [m]) w' \<Longrightarrow>
      request_change_post verify qt uid email password w (Inr ()) w'"
    and "moves w d None (w_mq w @ [m]) w' \<Longrightarrow> \<not> reliable w \<Longrightarrow> request_change_post verify qt uid email password w r w'"
    and "moves w d None (w_mq w) w' \<Longrightarrow> \<not> reliable w \<Longrightarrow> request_change_post verify qt uid email password w (Inl e) w'"
proof -
  have st: "stored_change uid (normalize_email email) (code_of_bytes buf) now now (w_clock w') (w_db w) d"
    using assms(3,5,6) by (rule stored_change_mono)
  note sp = request_change_spec.created [OF assms(1,4) assms(2) [simplified] length_code_of_bytes st]
  note lg = stored_change_log [OF st]
  show "moves w (d\<lparr>tb_security_event := tb_security_event d @ es\<rparr>) None (w_mq w @ [m]) w' \<Longrightarrow>
      request_change_post verify qt uid email password w (Inr ()) w'"
    by (rule request_change_postI [where d = d, OF _ disjI2]) (assumption, simp add: lg, rule sp, simp add: m_def)
  show "moves w d None (w_mq w @ [m]) w' \<Longrightarrow> \<not> reliable w \<Longrightarrow> request_change_post verify qt uid email password w r w'"
    by (erule request_change_postI [where d = d]) (simp_all add: lg m_def sp)
  show "moves w d None (w_mq w) w' \<Longrightarrow> \<not> reliable w \<Longrightarrow> request_change_post verify qt uid email password w (Inl e) w'"
    by (erule request_change_postI [where d = d]) (simp_all add: lg sp)
qed

section \<open>Storing a code\<close>

lemma insert_change_fails:
  assumes "insert_user_token (change_token_row uid email (hash_code (code_of_bytes (map (w_entropy w k) [0..<4]))) x t (w_uuid w j))
      ((w_db w)\<lparr>tb_user_token := change_retired uid t (user_tokens w)\<rparr>) = Inl e"
    and "uid \<in> set (map u_id (tb_user (w_db w)))"
  shows "token_blocked w"
proof -
  have k: "map ut_id (change_retired uid t (user_tokens w)) = map ut_id (user_tokens w)"
    "map ut_hash (change_retired uid t (user_tokens w)) = map ut_hash (user_tokens w)"
    by (rule map_update_where, simp)+
  show ?thesis
    using assms by (auto simp: insert_user_token_def change_token_row_def token_blocked_def k simp del: set_map split: if_splits)
qed

lemma pg_create_change_step:
  assumes "moves w0 (w_db w0) None q w" and "code \<in> range (\<lambda>k. code_of_bytes (map (w_entropy w0 k) [0..<4]))"
    and uid: "uid \<in> set (map u_id (tb_user (w_db w0)))"
    and "\<And>e w'. \<not> reliable w0 \<Longrightarrow> \<not> errors_is e err_change_collision \<Longrightarrow> moves w0 (w_db w0) None q w' \<Longrightarrow>
           w_clock w \<le> w_clock w' \<Longrightarrow> Q (Inl e) w'"
    and "\<And>e w'. token_blocked w0 \<Longrightarrow> moves w0 (w_db w0) None q w' \<Longrightarrow> w_clock w \<le> w_clock w' \<Longrightarrow> Q (Inl e) w'"
    and "\<And>d' w'. stored_change uid email code now (w_clock w) (w_clock w') (w_db w0) d' \<Longrightarrow> moves w0 d' None q w' \<Longrightarrow>
           w_clock w \<le> w_clock w' \<Longrightarrow> Q (Inr ()) w'"
    and "\<And>e d' w'. \<not> reliable w0 \<Longrightarrow> \<not> errors_is e err_change_collision \<Longrightarrow>
           stored_change uid email code now (w_clock w) (w_clock w') (w_db w0) d' \<Longrightarrow> moves w0 d' None q w' \<Longrightarrow>
           w_clock w \<le> w_clock w' \<Longrightarrow> Q (Inl e) w'"
  shows "wp (pg_create_change_token uid email (hash_code code) (now + change_code_lifetime)) Q w"
proof -
  from assms(2) obtain j where code: "code = code_of_bytes (map (w_entropy w0 j) [0..<4])" by blast
  have fails: "token_blocked w0" if "insert_user_token (change_token_row uid email (hash_code code) x t (w_uuid w0 k))
      ((w_db w0)\<lparr>tb_user_token := change_retired uid t (user_tokens w0)\<rparr>) = Inl e" for x t k e
    using insert_change_fails [OF _ uid] that by (simp only: code)
  have st: "stored_change uid email code now t0 t1 (w_db w0) d'" if "insert_user_token
      (change_token_row uid email (hash_code code) (now + change_code_lifetime) t (w_uuid w0 k))
      ((w_db w0)\<lparr>tb_user_token := change_retired uid t (user_tokens w0)\<rparr>) = Inr d'" "t0 \<le> t" "t \<le> t1" for t k t0 t1 d'
    using that by (auto simp: stored_change_def)
  show ?thesis
    unfolding pg_create_change_token_def
    apply (insert assms(1))
    by (((erule wp_steps)+)?; clarsimp simp: wp_code assms(4) assms(5) [OF fails] assms(6) [OF st] assms(7) [OF _ _ st] split: option.splits;
       (intro conjI impI allI)?; (rule state_cases)?)+
qed

lemma draw_change_step:
  assumes "moves w0 (w_db w0) None q w" and "ec_store s = pg_change_store" and "ec_generate s = generate_code"
    and "uid \<in> set (map u_id (tb_user (w_db w0)))"
    and "\<And>p e w'. \<not> reliable w0 \<or> token_blocked w0 \<Longrightarrow> moves w0 (w_db w0) None q w' \<Longrightarrow> w_clock w \<le> w_clock w' \<Longrightarrow>
           Q (Inl (wrap p e)) w'"
    and "\<And>buf d' w'. stored_change uid email (code_of_bytes buf) now (w_clock w) (w_clock w') (w_db w0) d' \<Longrightarrow>
           moves w0 d' None q w' \<Longrightarrow> w_clock w \<le> w_clock w' \<Longrightarrow> Q (Inr (code_of_bytes buf)) w'"
    and "\<And>buf p e d' w'. \<not> reliable w0 \<Longrightarrow>
           stored_change uid email (code_of_bytes buf) now (w_clock w) (w_clock w') (w_db w0) d' \<Longrightarrow>
           moves w0 d' None q w' \<Longrightarrow> w_clock w \<le> w_clock w' \<Longrightarrow> Q (Inl (wrap p e)) w'"
  shows "wp (draw_change_code s uid email now) Q w"
  unfolding draw_change_code_def assms(2,3) change_store_simps
proof (rule code_loop_step [where blocked = "token_blocked w0" and
    stored = "\<lambda>code t0 t1 d'. stored_change uid email code now t0 t1 (w_db w0) d'", OF assms(1)], goal_cases)
  case (1 code w Q)
  then show ?case by (intro pg_create_change_step [OF 1(1,2) assms(4)])
next
  case (2 code t0 t0' t1 d')
  then show ?case by (meson stored_change_mono order_refl)
next
  case (3 p e w')
  then show ?case by (auto simp: change_code_tries_def intro: assms(5))
qed (auto intro: assms(6,7))

context mail_service
begin

lemma request_change_effect:
  assumes "ec_auditor s = auditor" and "ec_store s = pg_change_store" and "ec_publisher s = publish"
    and "ec_generate s = generate_code" and "w_tx w = None"
  shows "wp (request_change s uid email password) (request_change_post (ec_verify s) (ec_quota s) uid email password w) w"
proof (rule wp_start_idle [OF assms(5)])
  fix w' assume m: "moves w (w_db w) None (w_mq w) w'" "w_clock w \<le> w_clock w'"
  have window: "change_window s = or_default (window (ec_quota s)) default_window"
    by (simp add: change_window_def or_default_def)
  show "wp (request_change s uid email password) (request_change_post (ec_verify s) (ec_quota s) uid email password w) w'"
    unfolding request_change_def change_publish_def Let_def
    apply (insert m)
    apply (((erule wp_steps publish_law best_effort_step)+)?; clarsimp simp: wp_code assms pg_change_password_hash_def pg_current_email_def
       pg_address_taken_def pg_change_last_request_def change_allowedI
       pg_change_count_since_def window quota_of_def [symmetric] request_change_kept simp del: select_one_None;
        (intro conjI impI)?; (rule state_cases)?)+
     apply (simp only: wp_code)
     apply (erule draw_change_step, rule assms, rule assms)
       apply (clarsimp dest!: select_one_SomeD simp: live_user_def)
      apply (simp add: request_change_kept)
    apply ((((erule wp_steps publish_law best_effort_step)+)?; clarsimp simp: wp_code assms)+)?
    by ((simp only: sum.case)?, (erule best_effort_step)?, ((rule request_change_created, rule change_allowedI(6), assumption,
       assumption, assumption, assumption, assumption, assumption, assumption, simp, simp, simp, rule refl, assumption, assumption?)
      | (erule request_change_kept(3), assumption; simp)))+
qed

end

end
