(* ===== verification/Relocation.thy ===== *)
theory Relocation
  imports Email_Change_Safety
begin

text \<open>
  The guarantees of a change of address, from the specifications of \<open>Email_Change_Safety\<close>.
\<close>

section \<open>The service of the program\<close>

definition pg_email_change :: "idkey \<Rightarrow> string \<Rightarrow> string \<Rightarrow> change_service" where
  "pg_email_change K queue k = new_change_service K pg_change_store (amqp_publish queue) (Some (pg_record k))"

lemma pg_email_change_simps [simp]:
  "ec_store (pg_email_change K queue k) = pg_change_store"
  "ec_publisher (pg_email_change K queue k) = amqp_publish queue"
  "ec_auditor (pg_email_change K queue k) = Some (pg_record k)"
  "ec_generate (pg_email_change K queue k) = generate_code"
  "ec_verify (pg_email_change K queue k) = verify_password K"
  "ec_quota (pg_email_change K queue k) = change_quota"
  by (simp_all add: pg_email_change_def new_change_service_def)

lemma verify_change_run:
  assumes "w_tx w = None" and "run_state (verify_change (pg_email_change K queue k) uid code) w = (r, w')"
  shows "\<exists>d. verify_change_spec (reliable w) uid code (w_clock w) (w_clock w') (w_db w) r d
      \<and> tb_user (w_db w') = tb_user d \<and> token_rows w' = tb_refresh_token d \<and> user_tokens w' = tb_user_token d
      \<and> no_log (w_db w') = no_log d \<and> w_tx w' = None \<and> w_clock w \<le> w_clock w'"
proof -
  have "verify_change_post uid code w r w'"
    by (rule wpD [OF pg_audit.verify_change_effect [OF _ _ assms(1)] assms(2)]) simp_all
  then show ?thesis using no_log_eq unfolding verify_change_post_def by (metis same_oracles_clock)
qed

lemma request_change_run:
  assumes "w_tx w = None" and "run_state (request_change (pg_email_change K queue k) uid email password) w = (r, w')"
  shows "\<exists>d. request_change_spec (reliable w) (token_blocked w) (verify_password K) change_quota uid (normalize_email email) password
      (w_clock w) (w_clock w') (w_db w) (w_mq w) r d (w_mq w')
      \<and> tb_user (w_db w') = tb_user d \<and> token_rows w' = tb_refresh_token d \<and> user_tokens w' = tb_user_token d
      \<and> no_log (w_db w') = no_log d"
proof -
  have "request_change_post (verify_password K) change_quota uid email password w r w'"
    using wpD [OF pg_mail.request_change_effect [OF _ _ _ _ assms(1)] assms(2)] by simp
  then show ?thesis using no_log_eq unfolding request_change_post_def by metis
qed

section \<open>Guessing\<close>

definition change_code_in :: "string \<Rightarrow> world \<Rightarrow> (string \<times> int \<times> int) option" where
  "change_code_in uid w = map_option (\<lambda>p. (ut_hash p, ut_attempts p, ut_expires p)) (change_token_in uid w)"

lemma change_token_attempt:
  assumes "change_token uid rows = Some p"
  shows "change_token uid (update_where (\<lambda>r. ut_id r = ut_id p) (attempt_counted t) rows) = Some (attempt_counted t p)"
  using assms unfolding change_token_def pending_change_def
  by (subst filter_update_commute, simp, subst newest_update, simp_all)

interpretation change_guard: code_guard "verify_change (pg_email_change K queue k) uid" "change_code_in uid"
    err_change_invalid_code change_max_attempts for K queue k uid
proof
  fix g :: string and w r w' h and a x :: int
  assume "w_tx w = None" and "run_state (verify_change (pg_email_change K queue k) uid g) w = (r, w')"
  then obtain d where sp: "verify_change_spec (reliable w) uid g (w_clock w) (w_clock w') (w_db w) r d"
    and d: "user_tokens w' = tb_user_token d" "w_tx w' = None" "w_clock w \<le> w_clock w'"
    using verify_change_run by blast
  assume "change_code_in uid w = Some (h, a, x)"
  then obtain p where p: "change_token_in uid w = Some p" "h = ut_hash p" "a = ut_attempts p" "x = ut_expires p"
    by (auto simp: change_code_in_def)
  show "\<not> is_ok r \<and> w_tx w' = None \<and> w_clock w \<le> w_clock w' \<and>
      (change_code_in uid w' = Some (h, a, x) \<and> (r = Inl err_change_invalid_code \<longrightarrow> x \<le> w_clock w')
       \<or> change_code_in uid w' = Some (h, a + 1, x) \<and> a < change_max_attempts)" if "hash_code g \<noteq> h"
    using sp d that p by (auto simp: verify_change_spec.simps change_code_in_def change_token_attempt)
  show "\<not> is_ok r \<and> w_tx w' = None \<and> change_code_in uid w' = Some (h, a, x)" if "change_max_attempts \<le> a"
    using sp d that p by (auto simp: verify_change_spec.simps change_code_in_def change_token_attempt)
qed

text \<open>Guessing the code of an address change is bounded, with the same ceiling: while wrong codes are
  tried none is accepted, the counter never passes five, and until the code expires at most as many
  are answered with a plain rejection as attempts were left.\<close>

theorem change_codes_bounded:
  assumes "w_tx w = None" and "try_codes (verify_change (pg_email_change K queue k) uid) gs w = (rs, w')"
    and "change_token_in uid w = Some p" and "ut_attempts p \<le> change_max_attempts"
    and "\<forall>g \<in> set gs. hash_code g \<noteq> ut_hash p"
  shows "(\<forall>r \<in> set rs. \<not> is_ok r) \<and> (\<exists>p'. change_token_in uid w' = Some p' \<and> ut_hash p' = ut_hash p
     \<and> ut_attempts p' \<le> change_max_attempts
     \<and> (w_clock w' < ut_expires p \<longrightarrow> answered err_change_invalid_code rs \<le> ut_attempts p' - ut_attempts p))"
proof -
  have "change_code_in uid w = Some (ut_hash p, ut_attempts p, ut_expires p)"
    using assms(3) by (simp add: change_code_in_def)
  from change_guard.misses_bounded [OF assms(1,2) this assms(4,5)] show ?thesis
    by (auto simp: change_code_in_def)
qed

section \<open>What a change needs and what it leaves\<close>

lemma filter_email_set:
  "filter (\<lambda>u. u_id u \<noteq> uid) (update_where (\<lambda>u. u_id u = uid) (email_set e t) users) = filter (\<lambda>u. u_id u \<noteq> uid) users"
  by (rule filter_update_where) simp_all

lemma moved_db_ok:
  assumes "db_ok d" and "\<not> list_ex (owns_email (ut_target p)) (tb_user d)"
  shows "db_ok (moved_db uid t p d)"
proof -
  let ?us = "update_where (\<lambda>u. u_id u = uid) (email_set (ut_target p) t) (tb_user d)"
  have k: "map u_id ?us = map u_id (tb_user d)" by (rule map_update_where) simp
  have "distinct (live_emails ?us)" using live_emails_moved assms by (auto simp: db_ok_def)
  then have "db_ok (d\<lparr>tb_user := ?us\<rparr>)" using assms(1) k by (simp add: db_ok_def del: set_map)
  from revoke_where_ok [OF update_user_token_ok [OF this], of "token_used t"] show ?thesis by simp
qed

text \<open>C25: An account moves only with the code mailed to the new address: whenever a verification reports
  success, or changes a user in spite of a failure, the user had an unused, unexpired change with
  attempts left and this code, and its target belonged to no account; only the row of that user
  changed, to that target, every session of the user is revoked and the change is used. Addresses
  stay unique among live accounts.\<close>

theorem change_needs_code:
  assumes "w_tx w = None" and "run_state (verify_change (pg_email_change K queue k) uid code) w = (r, w')"
    and "db_ok (w_db w)" and "is_ok r \<or> tb_user (w_db w') \<noteq> tb_user (w_db w)"
  shows "\<exists>p. change_token_in uid w = Some p \<and> ut_attempts p < change_max_attempts \<and> w_clock w < ut_expires p
     \<and> ut_hash p = hash_code code \<and> \<not> list_ex (owns_email (ut_target p)) (tb_user (w_db w))
     \<and> filter (\<lambda>u. u_id u \<noteq> uid) (tb_user (w_db w')) = filter (\<lambda>u. u_id u \<noteq> uid) (tb_user (w_db w))
     \<and> (\<forall>u \<in> set (tb_user (w_db w')). u_id u = uid \<longrightarrow> u_email u = Some (ut_target p))
     \<and> (\<forall>s \<in> set (token_rows w'). rt_user s = uid \<longrightarrow> rt_revoked s \<noteq> None)
     \<and> (\<forall>q \<in> set (user_tokens w'). ut_id q = ut_id p \<longrightarrow> ut_used q \<noteq> None)
     \<and> distinct (live_emails (tb_user (w_db w')))"
proof -
  from verify_change_run [OF assms(1,2)] obtain d where
    sp: "verify_change_spec (reliable w) uid code (w_clock w) (w_clock w') (w_db w) r d"
    and d: "tb_user (w_db w') = tb_user d" "token_rows w' = tb_refresh_token d" "user_tokens w' = tb_user_token d" by blast
  have changed: "is_ok r \<or> tb_user d \<noteq> tb_user (w_db w)" using assms(4) d(1) by simp
  from sp show ?thesis
  proof cases
    case (moved p t)
    have "db_ok (moved_db uid t p (w_db w))" using moved_db_ok assms(3) moved by blast
    then have "distinct (live_emails (tb_user d))" using moved by (simp add: db_ok_def)
    then show ?thesis
      using moved by (auto simp: d filter_email_set elim!: in_update_whereE split: if_splits dest: revoked_all)
  qed (use changed in auto)
qed

text \<open>When nothing fails, the answer to a verification is determined: the right code moves the account,
  unless meanwhile the target went to another account, or the code expired or is spent.\<close>

theorem change_answers:
  assumes "w_tx w = None" and "run_state (verify_change (pg_email_change K queue k) uid code) w = (r, w')"
    and "reliable w" and "db_ok (w_db w)" and "change_token_in uid w = Some p" and "w_clock w' < ut_expires p"
  shows "r = (if change_max_attempts \<le> ut_attempts p then Inl err_change_too_many
     else if hash_code code \<noteq> ut_hash p then Inl err_change_invalid_code
     else if list_ex (owns_email (ut_target p)) (tb_user (w_db w)) then Inl err_email_taken else Inr ())"
  using verify_change_run [OF assms(1,2)] assms(3-6) by (auto simp: verify_change_spec.simps)

section \<open>Rationing\<close>

lemma pending_after_retire:
  assumes "insert_user_token n (d\<lparr>tb_user_token := change_retired uid t rows\<rparr>) = Inr d'"
    and "pending_change uid n"
  shows "filter (pending_change uid) (tb_user_token d') = [n]"
proof -
  have "filter (pending_change uid) (change_retired uid t rows) = []"
    by (induction rows) (auto simp: pending_change_def)
  then show ?thesis using assms by (simp add: insert_user_token_Inr)
qed

text \<open>C34: Codes for an address change are rationed to one a day and never accumulate: a request that stores
  a code was made with the account's password, for a free address other than its own; within the
  twenty-four hours before it the user had asked for none; and the stored code is the only one of
  the user still pending.\<close>

theorem change_rationed:
  assumes "w_tx w = None" and "run_state (request_change (pg_email_change K queue k) uid email password) w = (r, w')"
    and "user_tokens w' \<noteq> user_tokens w"
  shows "\<exists>u n. select_one (live_user uid) (tb_user (w_db w)) = Some u
     \<and> verify_password K (coalesce_empty (u_password u)) password = Inr True
     \<and> \<not> list_ex (owns_email (normalize_email email)) (tb_user (w_db w))
     \<and> filter (pending_change uid) (user_tokens w') = [n] \<and> ut_target n = normalize_email email
     \<and> ut_attempts n = 0 \<and> ut_expires n \<le> ut_created n + change_code_lifetime
     \<and> (\<forall>q \<in> set (requests_of purpose_change uid (user_tokens w)). ut_created q < ut_created n - 24 * hour)"
proof -
  have dflt: "or_default (window change_quota) default_window = 24 * hour" "or_default (limit change_quota) default_limit = 1"
    by (simp_all add: or_default_def change_quota_def default_window_def default_limit_def)
  from request_change_run [OF assms(1,2)] obtain d where
    sp: "request_change_spec (reliable w) (token_blocked w) (verify_password K) change_quota uid (normalize_email email) password
      (w_clock w) (w_clock w') (w_db w) (w_mq w) r d (w_mq w')" and d: "user_tokens w' = tb_user_token d" by blast
  from sp show ?thesis
  proof cases
    case (created now code)
    then obtain t i where t: "now \<le> t" and ins: "insert_user_token
        (change_token_row uid (normalize_email email) (hash_code code) (now + change_code_lifetime) t i)
        ((w_db w)\<lparr>tb_user_token := change_retired uid t (user_tokens w)\<rparr>) = Inr d"
      by (auto simp: stored_change_def)
    let ?n = "change_token_row uid (normalize_email email) (hash_code code) (now + change_code_lifetime) t i"
    have "pending_change uid ?n" by (simp add: pending_change_def change_token_row_def)
    with ins have n: "filter (pending_change uid) (user_tokens w') = [?n]" unfolding d by (rule pending_after_retire)
    have "requests_since (now - 24 * hour) (requests_of purpose_change uid (user_tokens w)) < 1"
      using quota_of_ok(2) [OF created(3)] dflt by simp
    then have "\<forall>q \<in> set (requests_of purpose_change uid (user_tokens w)). ut_created q < now - 24 * hour"
      by (auto simp: requests_since_def filter_empty_conv)
    then have "\<forall>q \<in> set (requests_of purpose_change uid (user_tokens w)). ut_created q < t - 24 * hour"
      using t by force
    then show ?thesis using n t created(1)
      by (auto simp: change_allowed_def change_token_row_def)
  qed (use assms(3) d in auto)
qed

section \<open>Worked examples\<close>

text \<open>An account with a password and one session, which may have asked to move to another address.\<close>

definition demo_hash :: string where
  "demo_hash = encode_hash (replicate 16 (CHR ''s''))
     (demo_key ''pw'' (replicate 16 (CHR ''s'')) argon_time argon_memory argon_threads argon_key_len)"

definition demo_change_token :: user_token_row where
  "demo_change_token = \<lparr>ut_id = ''t1'', ut_user = ''u1'', ut_purpose = purpose_change, ut_hash = hash_code ''123456'',
     ut_target = ''new@example.com'', ut_attempts = 0, ut_expires = 600, ut_used = None, ut_created = 0, ut_updated = 0\<rparr>"

definition demo_change_user :: user_row where
  "demo_change_user = demo_user\<lparr>u_password := Some demo_hash\<rparr>"

definition demo_change_world :: "user_token_row list \<Rightarrow> world" where
  "demo_change_world ts = calm (empty_db\<lparr>tb_user := [demo_change_user], tb_refresh_token := [demo_row None], tb_user_token := ts\<rparr>)"

abbreviation demo_verify_change :: "string \<Rightarrow> unit io" where
  "demo_verify_change \<equiv> verify_change (pg_email_change demo_key ''mail'' ''k'') ''u1''"

lemma demo_change_simps [simp]:
  "w_tx (demo_change_world ts) = None" "reliable (demo_change_world ts)" "w_clock (demo_change_world ts) = 0"
  "tb_user (w_db (demo_change_world ts)) = [demo_change_user]" "token_rows (demo_change_world ts) = [demo_row None]"
  "user_tokens (demo_change_world ts) = ts" "w_mq (demo_change_world ts) = []"
  "ut_hash demo_change_token = hash_code ''123456''" "ut_attempts demo_change_token = 0" "ut_id demo_change_token = ''t1''"
  "ut_expires demo_change_token = 600" "ut_target demo_change_token = ''new@example.com''" "ut_user demo_change_token = ''u1''"
  by (simp_all add: demo_change_world_def demo_change_token_def)

lemma demo_change_ok: "db_ok (w_db (demo_change_world [demo_change_token]))"
  by (simp add: demo_change_world_def db_ok_def demo_change_user_def demo_user_def demo_change_token_def live_emails_Cons demo_row_def)

lemma demo_change_pending: "change_token_in ''u1'' (demo_change_world [demo_change_token]) = Some demo_change_token"
  by (simp add: change_token_def pending_change_def newest_def) (simp add: demo_change_token_def)

lemma demo_target_free: "\<not> list_ex (owns_email ''new@example.com'') [demo_change_user]"
  by (simp add: owns_email_def demo_change_user_def demo_user_def)

lemma demo_change_clock:
  assumes "run_state (verify_change (pg_email_change K queue k) uid code) (demo_change_world ts) = (r, w')"
  shows "w_clock w' = 0"
proof -
  have "verify_change_post uid code (demo_change_world ts) r w'"
    by (rule wpD [OF pg_audit.verify_change_effect assms]) simp_all
  then show ?thesis using calm_clock by (auto simp: verify_change_post_def demo_change_world_def)
qed

lemma change_answers_witness:
  "fst (run_state (demo_verify_change ''123456'') (demo_change_world [demo_change_token])) = Inr ()"
  using change_answers [OF demo_change_simps(1) prod.collapse [symmetric] demo_change_simps(2) demo_change_ok demo_change_pending,
      of demo_key "''mail''" "''k''" "''123456''"]
    demo_change_clock [OF prod.collapse [symmetric], of demo_key "''mail''" "''k''" "''u1''" "''123456''" "[demo_change_token]"] demo_target_free
  by (simp add: change_max_attempts_def)

lemma demo_moves: "is_ok (fst (run_state (demo_verify_change ''123456'') (demo_change_world [demo_change_token])))"
proof -
  obtain r w' where run: "run_state (demo_verify_change ''123456'') (demo_change_world [demo_change_token]) = (r, w')" by fastforce
  from verify_change_run [OF demo_change_simps(1) run] show ?thesis
    using demo_change_clock [OF run] demo_change_pending demo_change_ok demo_target_free run
    by (auto simp: verify_change_spec.simps change_max_attempts_def)
qed

lemma change_needs_code_witness:
  "list_all (\<lambda>u. u_email u = Some ''new@example.com'') (filter (\<lambda>u. u_id u = ''u1'')
     (tb_user (w_db (snd (run_state (demo_verify_change ''123456'') (demo_change_world [demo_change_token]))))))"
  using change_needs_code [OF demo_change_simps(1) prod.collapse [symmetric] demo_change_ok disjI1 [OF demo_moves]] demo_change_pending
  by (auto simp: list_all_iff)

lemma change_codes_bounded_witness:
  "list_all (\<lambda>r. \<not> is_ok r) (fst (try_codes demo_verify_change (replicate 9 ''000000'') (demo_change_world [demo_change_token])))"
  using change_codes_bounded [OF demo_change_simps(1) prod.collapse [symmetric] demo_change_pending,
      where K = demo_key and queue = "''mail''" and k = "''k''" and gs = "replicate 9 ''000000''"]
  by (simp add: list_all_iff change_max_attempts_def hash_code_def sha256_123456 sha256_000000 del: try_codes.simps replicate.simps)

abbreviation demo_ask_change :: "unit io" where
  "demo_ask_change \<equiv> request_change (pg_email_change demo_key ''mail'' ''k'') ''u1'' ''new@example.com'' ''pw''"

lemma normal_new: "normalize_email ''new@example.com'' = ''new@example.com''"
  by (code_simp)

lemma demo_change_stores: "user_tokens (snd (run_state demo_ask_change (demo_change_world []))) \<noteq> []"
proof -
  obtain r w' where run: "run_state demo_ask_change (demo_change_world []) = (r, w')" by fastforce
  have "encodes demo_key ''pw'' demo_hash" unfolding demo_hash_def by (rule encodesI) simp
  then have verify: "verify_password demo_key demo_hash ''pw'' = Inr True" by (rule encodes_verifies) simp
  then have "demo_hash \<noteq> []" by (auto simp: verify_password_def)
  with verify have allowed: "change_allowed (verify_password demo_key) ''u1'' ''new@example.com'' ''pw'' (w_db (demo_change_world []))"
    using demo_target_free normal_ana
    by (intro change_allowedI(6) [where u = demo_change_user]) (simp_all add: demo_change_user_def demo_user_def live_user_def coalesce_empty_def)
  have quota: "quota_of change_quota purpose_change x now [] = Inr ()" for x now
    by (simp add: quota_of_def requests_of_def last_request_def requests_since_def quota_check_ok change_quota_def or_default_def)
  have free: "\<not> token_blocked (demo_change_world [])" by (simp add: token_blocked_def)
  from request_change_run [OF demo_change_simps(1) run] obtain d where
    sp: "request_change_spec (reliable (demo_change_world [])) (token_blocked (demo_change_world [])) (verify_password demo_key)
       change_quota ''u1'' (normalize_email ''new@example.com'') ''pw'' (w_clock (demo_change_world [])) (w_clock w')
       (w_db (demo_change_world [])) (w_mq (demo_change_world [])) r d (w_mq w')" and d: "user_tokens w' = tb_user_token d" by blast
  from sp have "tb_user_token d \<noteq> []"
  proof cases
    case refused
    then show ?thesis using allowed free quota by (simp add: normal_new)
  next
    case (created now code)
    then show ?thesis by (auto simp: stored_change_def insert_user_token_Inr)
  qed
  then show ?thesis by (simp add: run d)
qed

lemma change_rationed_witness:
  "\<exists>n. filter (pending_change ''u1'') (user_tokens (snd (run_state demo_ask_change (demo_change_world [])))) = [n]
     \<and> ut_target n = ''new@example.com''"
proof -
  have "user_tokens (snd (run_state demo_ask_change (demo_change_world []))) \<noteq> user_tokens (demo_change_world [])"
    using demo_change_stores by simp
  from change_rationed [OF demo_change_simps(1) prod.collapse [symmetric] this] show ?thesis
    by (simp only: normal_new) blast
qed

end
