(* ===== verification/Identity.thy ===== *)
theory Identity
  imports Audit_Log "HOL-Library.List_Lexorder" "HOL-Library.Char_ord"
begin

text \<open>
  Package \<open>identity\<close>: who a user is and what he may do (\<open>service.go\<close>), the administration of users
  and roles (\<open>admin.go\<close>), and the PostgreSQL store of both (\<open>postgres.go\<close>, \<open>admin_postgres.go\<close>).
  Joins are comprehensions over the rows of the tables, \<open>ORDER BY\<close> of a text column is the byte
  order (collation C, the default the compose file keeps), and rows an \<open>ORDER BY\<close> leaves equal come
  in insertion order. A failure while rows are read counts as the failure of their statement. Ids
  are compared as text: the server's rejection of a malformed uuid is not modelled.
\<close>

section \<open>service.go\<close>

definition err_not_found :: gerror where
  "err_not_found = Err ''identity: user not found''"

record profile =
  pf_id :: string
  pf_name :: "string option"
  pf_email :: "string option"
  pf_status :: string
  pf_verified_at :: "int option"
  pf_created :: int

record access =
  ac_roles :: "string list"
  ac_permissions :: "string list"

record me = profile +
  me_access :: access

record role_entry =
  re_id :: string
  re_name :: string
  re_description :: "string option"
  re_status :: string
  re_permissions :: "string list"

record permission_entry =
  pm_id :: string
  pm_code :: string
  pm_module :: string
  pm_name :: string
  pm_status :: string

record identity_store =
  ist_profile :: "string \<Rightarrow> profile io"
  ist_access :: "string \<Rightarrow> access io"

record catalogue_store =
  cat_roles :: "role_entry list io"
  cat_permissions :: "permission_entry list io"

section \<open>admin.go, the types\<close>

definition err_unknown_role :: gerror where
  "err_unknown_role = Err ''identity: unknown role''"

record 'a page =
  pg_data :: "'a list"
  pg_page :: int
  pg_limit :: int
  pg_total :: int

record user_summary =
  us_id :: string
  us_name :: "string option"
  us_email :: "string option"
  us_status :: string
  us_verified_at :: "int option"
  us_created :: int
  us_roles :: "string list"

record user_filter =
  uf_page :: int
  uf_limit :: int
  uf_query :: string
  uf_status :: string
  uf_scope :: string

record audit_filter =
  af_page :: int
  af_limit :: int
  af_event :: string
  af_user :: string
  af_email_hash :: string
  af_from :: "int option"
  af_to :: "int option"

record admin_store =
  ad_list_users :: "user_filter \<Rightarrow> user_summary page io"
  ad_update_user :: "string \<Rightarrow> string option \<Rightarrow> string option \<Rightarrow> user_summary io"
  ad_set_roles :: "string \<Rightarrow> string list \<Rightarrow> string list io"
  ad_list_events :: "audit_filter \<Rightarrow> event_row page io"

text \<open>\<open>Admin\<close> and \<open>Auditor\<close> are set after \<open>New\<close>; a method that needs a missing \<open>Admin\<close> panics.\<close>

record identity_service =
  id_store :: identity_store
  id_catalogue :: catalogue_store
  id_admin :: "admin_store option"
  id_auditor :: "recorder option"

definition new_identity :: "identity_store \<Rightarrow> catalogue_store \<Rightarrow> identity_service" where
  "new_identity store cat = \<lparr>id_store = store, id_catalogue = cat, id_admin = None, id_auditor = None\<rparr>"

definition nil_dereference :: gerror where
  "nil_dereference = ExtError ''runtime error: invalid memory address or nil pointer dereference''"

definition with_admin :: "identity_service \<Rightarrow> (admin_store \<Rightarrow> 'a io) \<Rightarrow> 'a io" where
  "with_admin s m = (case id_admin s of None \<Rightarrow> fail nil_dereference | Some a \<Rightarrow> m a)"

section \<open>service.go, the methods\<close>

definition service_roles :: "identity_service \<Rightarrow> role_entry list io" where
  "service_roles s = cat_roles (id_catalogue s)"

definition service_permissions :: "identity_service \<Rightarrow> permission_entry list io" where
  "service_permissions s = cat_permissions (id_catalogue s)"

definition service_me :: "identity_service \<Rightarrow> string \<Rightarrow> me io" where
  "service_me s uid =
     attempt (ist_profile (id_store s) uid) (\<lambda>p.
     check ''identity: reading access: '' (ist_access (id_store s) uid) (\<lambda>a.
     ok (profile.extend p (me.fields a))))"

definition can :: "identity_service \<Rightarrow> string \<Rightarrow> string \<Rightarrow> bool io" where
  "can s uid permission =
     check ''identity: reading access: '' (ist_access (id_store s) uid) (\<lambda>a.
     ok (list_ex (\<lambda>code. code = permission) (ac_permissions a)))"

definition service_user :: "identity_service \<Rightarrow> string \<Rightarrow> user_summary io" where
  "service_user s uid =
     attempt (ist_profile (id_store s) uid) (\<lambda>p.
     check ''identity: reading access: '' (ist_access (id_store s) uid) (\<lambda>a.
     ok \<lparr>us_id = pf_id p, us_name = pf_name p, us_email = pf_email p, us_status = pf_status p,
         us_verified_at = pf_verified_at p, us_created = pf_created p, us_roles = ac_roles a\<rparr>))"

section \<open>admin.go, the methods\<close>

definition jval_of_name :: "string option \<Rightarrow> jval" where
  "jval_of_name n = (case n of None \<Rightarrow> JNull | Some s \<Rightarrow> JStr s)"

definition service_update_user ::
  "identity_service \<Rightarrow> string \<Rightarrow> string \<Rightarrow> string option \<Rightarrow> string option \<Rightarrow> audit_event \<Rightarrow> user_summary io" where
  "service_update_user s actor uid name status meta = with_admin s (\<lambda>admin.
     attempt (ad_update_user admin uid name status) (\<lambda>updated. do {
       best_effort (id_auditor s) (meta\<lparr>ev_name := event_user_updated, ev_user := uid, ev_actor := actor,
         ev_metadata := [(''name'', jval_of_name (us_name updated)), (''status'', JStr (us_status updated))]\<rparr>);
       ok updated }))"

definition service_set_roles ::
  "identity_service \<Rightarrow> string \<Rightarrow> string \<Rightarrow> string list \<Rightarrow> audit_event \<Rightarrow> string list io" where
  "service_set_roles s actor uid roles meta = with_admin s (\<lambda>admin.
     attempt (ad_set_roles admin uid roles) (\<lambda>effective. do {
       best_effort (id_auditor s) (meta\<lparr>ev_name := event_roles_changed, ev_user := uid, ev_actor := actor,
         ev_metadata := [(''roles'', JList (map JStr effective))]\<rparr>);
       ok effective }))"

definition service_users :: "identity_service \<Rightarrow> user_filter \<Rightarrow> user_summary page io" where
  "service_users s f = with_admin s (\<lambda>admin. ad_list_users admin f)"

definition service_audit_events :: "identity_service \<Rightarrow> audit_filter \<Rightarrow> event_row page io" where
  "service_audit_events s f = with_admin s (\<lambda>admin. ad_list_events admin f)"

definition normalize_paging :: "int \<Rightarrow> int \<Rightarrow> int \<times> int" where
  "normalize_paging page lim =
     (let page = (if page < 1 then 1 else page);
          lim = (if lim < 1 then 20 else lim)
      in (page, if 100 < lim then 100 else lim))"

text \<open>Go's \<open>int\<close> has 64 bits: the product wraps around.\<close>

definition page_offset :: "int \<Rightarrow> int \<Rightarrow> int" where
  "page_offset page lim = sint (word_of_int ((page - 1) * lim) :: 64 word)"

text \<open>\<open>%q\<close> of a role name; bytes above 127 are copied, as for printable letters.\<close>

definition go_quote_char :: "char \<Rightarrow> string" where
  "go_quote_char c =
     (if c = CHR 0x22 \<or> c = CHR 0x5C then [CHR 0x5C, c]
      else case map_of [(7, CHR ''a''), (8, CHR ''b''), (9, CHR ''t''), (10, CHR ''n''), (11, CHR ''v''), (12, CHR ''f''), (13, CHR ''r'')] (byte c)
        of Some e \<Rightarrow> [CHR 0x5C, e]
         | None \<Rightarrow> if byte c < 32 \<or> byte c = 127 then [CHR 0x5C, CHR ''x''] @ hex_encode [c] else [c])"

definition go_quote :: "string \<Rightarrow> string" where
  "go_quote s = [CHR 0x22] @ concat (map go_quote_char s) @ [CHR 0x22]"

fun validate_roles_from :: "string list \<Rightarrow> string list \<Rightarrow> gerror option" where
  "validate_roles_from seen [] = None"
| "validate_roles_from seen (role # roles) =
     (if role = [] then Some (Wrapf [] err_unknown_role '': empty role name'')
      else if role \<in> set seen then Some (Wrapf [] err_unknown_role ('': duplicated '' @ go_quote role))
      else validate_roles_from (role # seen) roles)"

definition validate_roles :: "string list \<Rightarrow> gerror option" where
  "validate_roles roles = validate_roles_from [] roles"

section \<open>postgres.go\<close>

definition profile_of :: "user_row \<Rightarrow> profile" where
  "profile_of u = \<lparr>pf_id = u_id u, pf_name = u_name u, pf_email = u_email u, pf_status = u_status u,
     pf_verified_at = u_verified_at u, pf_created = u_created u\<rparr>"

definition pg_profile :: "string \<Rightarrow> profile io" where
  "pg_profile uid = do {
     r \<leftarrow> pool_exec (query_stmt (\<lambda>d. select_one (live_user uid) (tb_user d)));
     case r of
       Inl e \<Rightarrow> fail (wrap ''selecting tb_user: '' e)
     | Inr None \<Rightarrow> fail err_not_found
     | Inr (Some u) \<Rightarrow> ok (profile_of u) }"

definition active_role :: "role_row \<Rightarrow> bool" where
  "active_role r \<longleftrightarrow> ro_status r = ''ACTIVE'' \<and> ro_deleted r = None"

definition active_permission :: "permission_row \<Rightarrow> bool" where
  "active_permission p \<longleftrightarrow> pe_status p = ''ACTIVE'' \<and> pe_deleted p = None"

text \<open>\<open>tb_user_role JOIN tb_role\<close> of a user, active roles only.\<close>

definition active_roles_of :: "string \<Rightarrow> db \<Rightarrow> role_row list" where
  "active_roles_of uid d = [r. ur \<leftarrow> tb_user_role d, ur_user ur = uid, r \<leftarrow> tb_role d, ro_id r = ur_role ur, active_role r]"

definition permissions_of :: "role_row \<Rightarrow> db \<Rightarrow> permission_row list" where
  "permissions_of r d = [p. rp \<leftarrow> tb_role_permission d, rp_role rp = ro_id r, p \<leftarrow> tb_permission d, pe_id p = rp_permission rp]"

definition role_names :: "string \<Rightarrow> db \<Rightarrow> string list" where
  "role_names uid d = sort (map ro_name (active_roles_of uid d))"

definition permission_codes :: "string \<Rightarrow> db \<Rightarrow> string list" where
  "permission_codes uid d = sort (remdups
     [pe_code p. r \<leftarrow> active_roles_of uid d, p \<leftarrow> permissions_of r d, active_permission p])"

definition pg_access :: "string \<Rightarrow> access io" where
  "pg_access uid =
     check ''selecting roles: '' (pool_exec (query_stmt (role_names uid))) (\<lambda>roles.
     check ''selecting permissions: '' (pool_exec (query_stmt (permission_codes uid))) (\<lambda>codes.
     ok \<lparr>ac_roles = roles, ac_permissions = codes\<rparr>))"

definition role_entry_of :: "db \<Rightarrow> role_row \<Rightarrow> role_entry" where
  "role_entry_of d r = \<lparr>re_id = ro_id r, re_name = ro_name r, re_description = ro_description r, re_status = ro_status r,
     re_permissions = sort (map pe_code (filter (\<lambda>p. pe_deleted p = None) (permissions_of r d)))\<rparr>"

definition pg_list_roles :: "role_entry list io" where
  "pg_list_roles = check ''selecting roles: '' (pool_exec (query_stmt (\<lambda>d.
     map (role_entry_of d) (sort_key ro_name (filter (\<lambda>r. ro_deleted r = None) (tb_role d)))))) ok"

definition permission_entry_of :: "permission_row \<Rightarrow> permission_entry" where
  "permission_entry_of p = \<lparr>pm_id = pe_id p, pm_code = pe_code p, pm_module = pe_module p, pm_name = pe_name p,
     pm_status = pe_status p\<rparr>"

definition pg_list_permissions :: "permission_entry list io" where
  "pg_list_permissions = check ''selecting permissions: '' (pool_exec (query_stmt (\<lambda>d.
     map permission_entry_of (sort_key pe_module (sort_key pe_code
       (filter (\<lambda>p. pe_deleted p = None) (tb_permission d))))))) ok"

section \<open>admin_postgres.go\<close>

text \<open>
  \<open>ILIKE\<close>: a pattern over characters, a UTF-8 sequence counting as one, with letters compared
  without case (ASCII, as under collation C). \<open>%\<close> matches any text, \<open>_\<close> one character, and a
  backslash takes the next character literally; at the end of a pattern it is an error of the server,
  which the patterns here never reach, since they end with \<open>%\<close>.
\<close>

fun utf8_chars :: "string \<Rightarrow> string list" where
  "utf8_chars [] = []"
| "utf8_chars (c # cs) = (case utf8_chars cs of
       [] \<Rightarrow> [[c]]
     | x # xs \<Rightarrow> (case x of
          b # _ \<Rightarrow> if 128 \<le> byte b \<and> byte b < 192 then (c # x) # xs else [c] # x # xs
        | [] \<Rightarrow> [c] # xs))"

fun like :: "string list \<Rightarrow> string list \<Rightarrow> bool" where
  "like [] t \<longleftrightarrow> t = []"
| "like (p # ps) [] \<longleftrightarrow> p = ''%'' \<and> like ps []"
| "like (p # ps) (c # cs) \<longleftrightarrow>
     (if p = ''%'' then like ps (c # cs) \<or> like (p # ps) cs
      else if p = ''_'' then like ps cs
      else if p = [CHR 0x5C] then (case ps of [] \<Rightarrow> False | q # qs \<Rightarrow> q = c \<and> like qs cs)
      else p = c \<and> like ps cs)"

definition ilike :: "string \<Rightarrow> string \<Rightarrow> bool" where
  "ilike text pattern \<longleftrightarrow> like (utf8_chars (map lower_char pattern)) (utf8_chars (map lower_char text))"

definition admin_access :: "db \<Rightarrow> user_row \<Rightarrow> bool" where
  "admin_access d u \<longleftrightarrow> list_ex (\<lambda>r. list_ex (\<lambda>p. pe_code p = ''admin.access'' \<and> pe_deleted p = None)
     (permissions_of r d)) (active_roles_of (u_id u) d)"

definition any_role :: "db \<Rightarrow> user_row \<Rightarrow> bool" where
  "any_role d u \<longleftrightarrow> active_roles_of (u_id u) d \<noteq> []"

definition user_matches :: "user_filter \<Rightarrow> db \<Rightarrow> user_row \<Rightarrow> bool" where
  "user_matches f d u \<longleftrightarrow> u_deleted u = None
     \<and> (uf_query f = []
        \<or> (case u_email u of None \<Rightarrow> False | Some e \<Rightarrow> ilike e (''%'' @ uf_query f @ ''%''))
        \<or> ilike (coalesce_empty (u_name u)) (''%'' @ uf_query f @ ''%''))
     \<and> (uf_status f = [] \<or> u_status u = uf_status f)
     \<and> (uf_scope f = []
        \<or> uf_scope f = ''admin'' \<and> admin_access d u
        \<or> uf_scope f = ''app'' \<and> \<not> admin_access d u
        \<or> uf_scope f = ''none'' \<and> \<not> any_role d u)"

definition summary_of :: "db \<Rightarrow> user_row \<Rightarrow> user_summary" where
  "summary_of d u = \<lparr>us_id = u_id u, us_name = u_name u, us_email = u_email u, us_status = u_status u,
     us_verified_at = u_verified_at u, us_created = u_created u, us_roles = role_names (u_id u) d\<rparr>"

definition matching_users :: "user_filter \<Rightarrow> db \<Rightarrow> user_summary list" where
  "matching_users f d = map (summary_of d) (sort_key (\<lambda>u. - u_created u) (filter (user_matches f d) (tb_user d)))"

text \<open>\<open>LIMIT n OFFSET k\<close>: a negative offset is an error of the server.\<close>

definition limit_offset :: "int \<Rightarrow> int \<Rightarrow> (db \<Rightarrow> 'a list) \<Rightarrow> 'a list stmt" where
  "limit_offset n k rows t uuid d =
     (if k < 0 then Inl (PgError ''2201X'' []) else Inr (take (nat n) (drop (nat k) (rows d)), d))"

definition pg_list_users :: "user_filter \<Rightarrow> user_summary page io" where
  "pg_list_users f = (
     let (page, lim) = normalize_paging (uf_page f) (uf_limit f) in
     check ''counting users: '' (pool_exec (query_stmt (\<lambda>d. int (length (filter (user_matches f d) (tb_user d)))))) (\<lambda>total.
     check ''selecting users: '' (pool_exec (limit_offset lim (page_offset page lim) (matching_users f))) (\<lambda>data.
     ok \<lparr>pg_data = data, pg_page = page, pg_limit = lim, pg_total = total\<rparr>)))"

definition pg_user :: "string \<Rightarrow> user_summary io" where
  "pg_user uid = do {
     r \<leftarrow> pool_exec (query_stmt (\<lambda>d. map_option (summary_of d) (select_one (live_user uid) (tb_user d))));
     case r of
       Inl e \<Rightarrow> fail (wrap ''selecting user: '' e)
     | Inr None \<Rightarrow> fail err_not_found
     | Inr (Some u) \<Rightarrow> ok u }"

definition suspendable_status :: "string list" where
  "suspendable_status = [''ACTIVE'', ''INACTIVE'', ''SUSPENDED'']"

definition edited :: "string option \<Rightarrow> string option \<Rightarrow> int \<Rightarrow> user_row \<Rightarrow> user_row" where
  "edited name status t u = u\<lparr>u_name := (case name of None \<Rightarrow> u_name u | Some n \<Rightarrow> Some n),
     u_status := (case status of None \<Rightarrow> u_status u | Some s \<Rightarrow> s), u_updated := t\<rparr>"

text \<open>The statement gives the number of rows it changed; the cast rejects a status outside the enum.\<close>

definition edit_user :: "string \<Rightarrow> string option \<Rightarrow> string option \<Rightarrow> int stmt" where
  "edit_user uid name status t uuid d =
     (if list_all (\<lambda>s. s \<in> set suspendable_status) (case status of None \<Rightarrow> [] | Some s \<Rightarrow> [s])
      then Inr (int (length (filter (live_user uid) (tb_user d))),
                d\<lparr>tb_user := update_where (live_user uid) (edited name status t) (tb_user d)\<rparr>)
      else Inl (PgError ''22P02'' []))"

definition pg_update_user :: "string \<Rightarrow> string option \<Rightarrow> string option \<Rightarrow> user_summary io" where
  "pg_update_user uid name status =
     check ''updating user: '' (pool_exec (edit_user uid name status)) (\<lambda>n.
     if n = 0 then fail err_not_found else pg_user uid)"

definition insert_user_roles :: "string \<Rightarrow> string list \<Rightarrow> db \<Rightarrow> gerror + db" where
  "insert_user_roles uid ids d =
     (let rows = map (\<lambda>i. \<lparr>ur_user = uid, ur_role = i\<rparr>) ids
      in if \<not> distinct (tb_user_role d @ rows) then Inl (unique_violation ''pk_tb_user_role'')
         else if uid \<notin> set (map u_id (tb_user d)) then Inl (fk_violation ''fk_tb_user_role_user'')
         else if \<not> list_all (\<lambda>i. i \<in> set (map ro_id (tb_role d))) ids then Inl (fk_violation ''fk_tb_user_role_role'')
         else Inr (d\<lparr>tb_user_role := tb_user_role d @ rows\<rparr>))"

definition clear_roles :: "string \<Rightarrow> db \<Rightarrow> db" where
  "clear_roles uid d = d\<lparr>tb_user_role := filter (\<lambda>ur. ur_user ur \<noteq> uid) (tb_user_role d)\<rparr>"

definition pg_set_roles :: "string \<Rightarrow> string list \<Rightarrow> string list io" where
  "pg_set_roles uid roles = (case validate_roles roles of
     Some e \<Rightarrow> fail e
   | None \<Rightarrow>
     check ''beginning transaction: '' pool_begin (\<lambda>_.
     deferred tx_rollback (
       tcheck ''checking user: '' (tx_exec (query_stmt (\<lambda>d. list_ex (live_user uid) (tb_user d)))) (\<lambda>exists.
       if \<not> exists then leave False (Inl err_not_found)
       else
         tcheck ''resolving roles: '' (tx_exec (query_stmt (\<lambda>d.
           filter (\<lambda>r. ro_name r \<in> set roles \<and> active_role r) (tb_role d)))) (\<lambda>found.
         if length found \<noteq> length roles
         then leave False (Inl (Wrapf [] err_unknown_role '': one or more names do not exist or are inactive''))
         else
           tcheck ''clearing roles: '' (tx_exec (update_stmt (\<lambda>t. clear_roles uid))) (\<lambda>_.
           tcheck ''assigning roles: '' (if found = [] then ok ()
              else tx_exec (insert_stmt (\<lambda>t uuid. insert_user_roles uid (map ro_id found)))) (\<lambda>_.
           tcheck ''committing roles: '' tx_commit (\<lambda>_.
           leave True (Inr (sort (map ro_name found)))))))))))"

definition event_matches :: "audit_filter \<Rightarrow> event_row \<Rightarrow> bool" where
  "event_matches f e \<longleftrightarrow> (af_event f = [] \<or> se_event e = af_event f)
     \<and> (af_user f = [] \<or> se_user e = Some (af_user f))
     \<and> (case af_from f of None \<Rightarrow> True | Some t \<Rightarrow> t \<le> se_created e)
     \<and> (case af_to f of None \<Rightarrow> True | Some t \<Rightarrow> se_created e \<le> t)
     \<and> (af_email_hash f = [] \<or> se_email_hash e = Some (af_email_hash f))"

definition matching_events :: "audit_filter \<Rightarrow> db \<Rightarrow> event_row list" where
  "matching_events f d = sort_key (\<lambda>e. - se_created e) (filter (event_matches f) (tb_security_event d))"

definition pg_list_events :: "audit_filter \<Rightarrow> event_row page io" where
  "pg_list_events f = (
     let (page, lim) = normalize_paging (af_page f) (af_limit f) in
     check ''counting events: '' (pool_exec (query_stmt (\<lambda>d. int (length (filter (event_matches f) (tb_security_event d)))))) (\<lambda>total.
     check ''selecting events: '' (pool_exec (limit_offset lim (page_offset page lim) (matching_events f))) (\<lambda>data.
     ok \<lparr>pg_data = data, pg_page = page, pg_limit = lim, pg_total = total\<rparr>)))"

definition pg_identity_store :: identity_store where
  "pg_identity_store = \<lparr>ist_profile = pg_profile, ist_access = pg_access\<rparr>"

definition pg_catalogue :: catalogue_store where
  "pg_catalogue = \<lparr>cat_roles = pg_list_roles, cat_permissions = pg_list_permissions\<rparr>"

definition pg_admin_store :: admin_store where
  "pg_admin_store = \<lparr>ad_list_users = pg_list_users, ad_update_user = pg_update_user, ad_set_roles = pg_set_roles,
     ad_list_events = pg_list_events\<rparr>"

end
