(* ===== verification/Identity_Safety.thy ===== *)
theory Identity_Safety
  imports Identity Session_Safety
begin

text \<open>
  Capability follows the role tables: replacing the roles of a user is all or nothing and leaves
  everyone else alone, what the user may do afterwards is what the new roles grant, and nothing
  of the old ones lingers. The pages of a listing, put together, are the listing.
\<close>

section \<open>The constraints of the role tables\<close>

definition rbac_ok :: "db \<Rightarrow> bool" where
  "rbac_ok d \<longleftrightarrow> distinct (map ro_id (tb_role d)) \<and> distinct (map ro_name (filter (\<lambda>r. ro_deleted r = None) (tb_role d)))
     \<and> distinct (tb_user_role d)"

definition roles_named :: "string list \<Rightarrow> db \<Rightarrow> role_row list" where
  "roles_named roles d = filter (\<lambda>r. ro_name r \<in> set roles \<and> active_role r) (tb_role d)"

definition replaced :: "string \<Rightarrow> role_row list \<Rightarrow> db \<Rightarrow> db" where
  "replaced uid found d = d\<lparr>tb_user_role := filter (\<lambda>ur. ur_user ur \<noteq> uid) (tb_user_role d)
     @ map (\<lambda>r. \<lparr>ur_user = uid, ur_role = ro_id r\<rparr>) found\<rparr>"

lemma replaced_simps [simp]:
  "tb_role (replaced uid found d) = tb_role d" "tb_permission (replaced uid found d) = tb_permission d"
  "tb_role_permission (replaced uid found d) = tb_role_permission d" "tb_user (replaced uid found d) = tb_user d"
  by (simp_all add: replaced_def)

lemma distinct_map_filter: "distinct (map f xs) \<Longrightarrow> distinct (map f (filter p xs))"
  by (induction xs) auto

lemma roles_named_distinct:
  assumes "rbac_ok d"
  shows "distinct (map ro_id (roles_named roles d))" "distinct (map ro_name (roles_named roles d))"
proof -
  show "distinct (map ro_id (roles_named roles d))"
    using assms by (simp add: rbac_ok_def roles_named_def distinct_map_filter)
  have "roles_named roles d = filter (\<lambda>r. ro_name r \<in> set roles \<and> active_role r) (filter (\<lambda>r. ro_deleted r = None) (tb_role d))"
    by (auto simp: roles_named_def active_role_def intro: filter_cong)
  then show "distinct (map ro_name (roles_named roles d))"
    using assms distinct_map_filter [of ro_name "filter (\<lambda>r. ro_deleted r = None) (tb_role d)"]
    by (simp add: rbac_ok_def del: filter_filter)
qed

text \<open>Names that are all found are exactly the names asked for.\<close>

lemma roles_named_all:
  assumes "rbac_ok d" and "distinct roles" and "length (roles_named roles d) = length roles"
  shows "set (map ro_name (roles_named roles d)) = set roles" "sort (map ro_name (roles_named roles d)) = sort roles"
proof -
  have sub: "set (map ro_name (roles_named roles d)) \<subseteq> set roles" by (auto simp: roles_named_def)
  have "card (set (map ro_name (roles_named roles d))) = card (set roles)"
    using distinct_card [OF roles_named_distinct(2) [OF assms(1), of roles]] distinct_card [OF assms(2)] assms(3) by simp
  then show eq: "set (map ro_name (roles_named roles d)) = set roles"
    using sub by (intro card_subset_eq) auto
  show "sort (map ro_name (roles_named roles d)) = sort roles"
    by (rule sorted_distinct_set_unique) (use eq assms(2) roles_named_distinct(2) [OF assms(1), of roles] in simp_all)
qed

lemma validate_from_None: "validate_roles_from seen roles = None \<longleftrightarrow> distinct roles \<and> [] \<notin> set roles \<and> set roles \<inter> set seen = {}"
  by (induction seen roles rule: validate_roles_from.induct) auto

lemma validate_None: "validate_roles roles = None \<longleftrightarrow> distinct roles \<and> [] \<notin> set roles"
  by (simp add: validate_roles_def validate_from_None)

lemma insert_replaced:
  assumes "rbac_ok d" and "list_ex (live_user uid) (tb_user d)"
  shows "insert_user_roles uid (map ro_id (roles_named roles d)) (clear_roles uid d) = Inr (replaced uid (roles_named roles d) d)"
proof -
  have "distinct (map (\<lambda>r. \<lparr>ur_user = uid, ur_role = ro_id r\<rparr>) (roles_named roles d))"
    using roles_named_distinct(1) [OF assms(1), of roles] by (simp add: distinct_map inj_on_def)
  then have "distinct (filter (\<lambda>ur. ur_user ur \<noteq> uid) (tb_user_role d) @ map (\<lambda>r. \<lparr>ur_user = uid, ur_role = ro_id r\<rparr>) (roles_named roles d))"
    using assms(1) by (auto simp: rbac_ok_def)
  moreover have "uid \<in> u_id ` set (tb_user d)" using assms(2) by (auto simp: list_ex_iff live_user_def)
  ultimately show ?thesis
    by (auto simp: insert_user_roles_def clear_roles_def replaced_def list_all_iff roles_named_def comp_def Let_def)
qed

section \<open>What the user has afterwards\<close>

lemma active_roles_join: "active_roles_of uid d
    = concat (map (\<lambda>ur. filter (\<lambda>x. ro_id x = ur_role ur \<and> active_role x) (tb_role d)) (filter (\<lambda>ur. ur_user ur = uid) (tb_user_role d)))"
proof -
  have inner: "concat (map (\<lambda>x. if ro_id x = i then if active_role x then [x] else [] else []) rows)
      = filter (\<lambda>x. ro_id x = i \<and> active_role x) rows" for i rows
    by (induction rows) auto
  have outer: "concat (map (\<lambda>ur. if ur_user ur = uid then g ur else []) xs) = concat (map g (filter (\<lambda>ur. ur_user ur = uid) xs))"
    for g :: "user_role_row \<Rightarrow> role_row list" and xs
    by (induction xs) auto
  show ?thesis
    unfolding active_roles_of_def inner by (rule outer)
qed

lemma filter_one:
  assumes "distinct (map f rows)" and "r \<in> set rows" and "q r"
  shows "filter (\<lambda>x. f x = f r \<and> q x) rows = [r]"
  using assms
proof (induction rows)
  case (Cons a rows)
  have "filter (\<lambda>x. f x = f r \<and> q x) rows = []" if "a = r"
    using Cons.prems(1) that by (auto simp: filter_empty_conv image_iff)
  then show ?case using Cons by (cases "a = r") auto
qed simp

lemma active_roles_replaced:
  assumes "rbac_ok d"
  shows "active_roles_of uid (replaced uid (roles_named roles d) d) = roles_named roles d"
proof -
  have "active_roles_of uid (replaced uid (roles_named roles d) d)
      = concat (map (\<lambda>r. filter (\<lambda>x. ro_id x = ro_id r \<and> active_role x) (tb_role d)) (roles_named roles d))"
    unfolding active_roles_join replaced_simps by (simp add: replaced_def comp_def)
  also have "\<dots> = concat (map (\<lambda>r. [r]) (roles_named roles d))"
    using assms by (intro arg_cong [where f = concat] map_cong refl filter_one) (auto simp: rbac_ok_def roles_named_def)
  finally show ?thesis by simp
qed

lemma active_roles_others:
  assumes "other \<noteq> uid"
  shows "active_roles_of other (replaced uid found d) = active_roles_of other d"
proof -
  have "filter (\<lambda>ur. ur_user ur = other) (tb_user_role (replaced uid found d)) = filter (\<lambda>ur. ur_user ur = other) (tb_user_role d)"
    using assms by (auto simp: replaced_def comp_def filter_empty_conv intro: filter_cong)
  then show ?thesis by (simp add: active_roles_join)
qed

lemma permissions_replaced [simp]: "permissions_of r (replaced uid found d) = permissions_of r d"
  by (simp only: permissions_of_def replaced_simps)

definition granted :: "string \<Rightarrow> role_row list \<Rightarrow> db \<Rightarrow> bool" where
  "granted code roles d \<longleftrightarrow> (\<exists>r \<in> set roles. \<exists>p \<in> set (permissions_of r d). active_permission p \<and> pe_code p = code)"

lemma permission_codes_granted: "code \<in> set (permission_codes uid d) \<longleftrightarrow> granted code (active_roles_of uid d) d"
  by (auto simp: permission_codes_def granted_def)

section \<open>Replacing the roles of a user\<close>

inductive set_roles_spec :: "bool \<Rightarrow> string \<Rightarrow> string list \<Rightarrow> db \<Rightarrow> gerror + string list \<Rightarrow> db \<Rightarrow> bool"
  for rel :: bool and uid :: string and roles :: "string list" and d :: db
where
  invalid: "validate_roles roles = Some e \<Longrightarrow> set_roles_spec rel uid roles d (Inl e) d"
| no_user: "\<not> list_ex (live_user uid) (tb_user d) \<Longrightarrow> set_roles_spec rel uid roles d (Inl err_not_found) d"
| no_role: "length (roles_named roles d) \<noteq> length roles \<Longrightarrow>
    set_roles_spec rel uid roles d (Inl (Wrapf [] err_unknown_role '': one or more names do not exist or are inactive'')) d"
| broken: "\<not> rel \<or> \<not> rbac_ok d \<Longrightarrow> set_roles_spec rel uid roles d (Inl e) d"
| replaced: "validate_roles roles = None \<Longrightarrow> list_ex (live_user uid) (tb_user d) \<Longrightarrow>
    length (roles_named roles d) = length roles \<Longrightarrow>
    r = Inr (sort (map ro_name (roles_named roles d))) \<or> \<not> rel \<and> \<not> is_ok r \<Longrightarrow>
    set_roles_spec rel uid roles d r (replaced uid (roles_named roles d) d)"

definition set_roles_post :: "string \<Rightarrow> string list \<Rightarrow> world \<Rightarrow> gerror + string list \<Rightarrow> world \<Rightarrow> bool" where
  "set_roles_post uid roles w r w' \<longleftrightarrow> w_tx w' = None \<and> w_mq w' = w_mq w \<and> same_oracles w w' \<and>
     (\<exists>d es. set_roles_spec (reliable w) uid roles (w_db w) r d
        \<and> w_db w' = d\<lparr>tb_security_event := tb_security_event (w_db w) @ es\<rparr>)"

lemma set_roles_postI:
  assumes "moves w (d\<lparr>tb_security_event := tb_security_event (w_db w) @ es\<rparr>) None (w_mq w) w'"
    and "set_roles_spec (reliable w) uid roles (w_db w) r d"
  shows "set_roles_post uid roles w r w'"
  using assms movesD [OF assms(1)] unfolding set_roles_post_def by blast

lemma set_roles_post_plain:
  assumes "moves w d None (w_mq w) w'" and "set_roles_spec (reliable w) uid roles (w_db w) r d"
    and "tb_security_event d = tb_security_event (w_db w)"
  shows "set_roles_post uid roles w r w'"
proof -
  have "d = d\<lparr>tb_security_event := tb_security_event (w_db w) @ []\<rparr>" by (simp add: assms(3) [symmetric])
  then show ?thesis using set_roles_postI assms(1,2) by metis
qed

lemma set_roles_kept:
  assumes "moves w (w_db w) None (w_mq w) w'"
  shows "validate_roles roles = Some e \<Longrightarrow> set_roles_post uid roles w (Inl e) w'"
    and "\<not> list_ex (live_user uid) (tb_user (w_db w)) \<Longrightarrow> set_roles_post uid roles w (Inl err_not_found) w'"
    and "length (roles_named roles (w_db w)) \<noteq> length roles \<Longrightarrow>
      set_roles_post uid roles w (Inl (Wrapf [] err_unknown_role '': one or more names do not exist or are inactive'')) w'"
    and "\<not> reliable w \<or> \<not> rbac_ok (w_db w) \<Longrightarrow> set_roles_post uid roles w (Inl e) w'"
  by (rule set_roles_post_plain [OF assms]; simp add: set_roles_spec.invalid set_roles_spec.no_user set_roles_spec.no_role
      set_roles_spec.broken)+

lemma set_roles_conflict:
  assumes "insert_user_roles uid (map ro_id (roles_named roles (w_db w))) (clear_roles uid (w_db w)) = Inl x"
    and "moves w (w_db w) None (w_mq w) w'" and "list_ex (live_user uid) (tb_user (w_db w))"
  shows "set_roles_post uid roles w (Inl e) w'"
  using assms insert_replaced set_roles_kept(4) by fastforce

lemma insert_roles_Inr: "insert_user_roles uid (map ro_id found) (clear_roles uid d) = Inr d' \<Longrightarrow> d' = replaced uid found d"
  by (auto simp: insert_user_roles_def clear_roles_def replaced_def Let_def comp_def split: if_splits)

lemma clear_replaced: "clear_roles uid d = replaced uid [] d"
  by (simp add: clear_roles_def replaced_def)

lemma set_roles_done:
  assumes "validate_roles roles = None" and "list_ex (live_user uid) (tb_user (w_db w))"
    and "length (roles_named roles (w_db w)) = length roles"
  shows "moves w (replaced uid (roles_named roles (w_db w)) (w_db w)\<lparr>tb_security_event := tb_security_event (w_db w) @ es\<rparr>) None (w_mq w) w' \<Longrightarrow>
      set_roles_post uid roles w (Inr (sort (map ro_name (roles_named roles (w_db w))))) w'"
    and "moves w (replaced uid (roles_named roles (w_db w)) (w_db w)) None (w_mq w) w' \<Longrightarrow> \<not> reliable w \<Longrightarrow>
      set_roles_post uid roles w (Inl e) w'"
  by (erule set_roles_postI, simp add: set_roles_spec.replaced [OF assms])
    (erule set_roles_post_plain, simp add: set_roles_spec.replaced [OF assms], simp add: replaced_def)

lemma set_roles_cleared:
  assumes "validate_roles [] = None" and "list_ex (live_user uid) (tb_user (w_db w))" and "roles_named [] (w_db w) = []"
  shows "moves w ((clear_roles uid (w_db w))\<lparr>tb_security_event := tb_security_event (w_db w) @ es\<rparr>) None (w_mq w) w' \<Longrightarrow>
      set_roles_post uid [] w (Inr []) w'"
    and "moves w (clear_roles uid (w_db w)) None (w_mq w) w' \<Longrightarrow> \<not> reliable w \<Longrightarrow> set_roles_post uid [] w (Inl e) w'"
  using set_roles_done [OF assms(1,2)] by (simp_all add: assms(3) clear_replaced)

lemma replaced_log [simp]: "tb_security_event (replaced uid found d) = tb_security_event d"
  "tb_security_event (clear_roles uid d) = tb_security_event d"
  by (simp_all add: replaced_def clear_roles_def)

lemma identity_store_simps [simp]:
  "ad_set_roles pg_admin_store = pg_set_roles" "ad_list_users pg_admin_store = pg_list_users"
  "ad_update_user pg_admin_store = pg_update_user" "ad_list_events pg_admin_store = pg_list_events"
  "ist_profile pg_identity_store = pg_profile" "ist_access pg_identity_store = pg_access"
  by (simp_all add: pg_admin_store_def pg_identity_store_def)

lemma case_insert_unit [simp]:
  "(case x of Inl e \<Rightarrow> Inl e | Inr d \<Rightarrow> Inr ((), d)) = Inr ((), d') \<longleftrightarrow> x = Inr d'"
  "(case x of Inl e \<Rightarrow> Inl e | Inr d \<Rightarrow> Inr ((), d)) = Inl e' \<longleftrightarrow> x = Inl e'"
  by (cases x; simp)+

context auditing
begin

lemma set_roles_effect:
  assumes "id_auditor s = auditor" and "id_admin s = Some pg_admin_store" and "w_tx w = None"
  shows "wp (service_set_roles s actor uid roles meta) (set_roles_post uid roles w) w"
proof (rule wp_start_idle [OF assms(3)])
  fix w' assume m: "moves w (w_db w) None (w_mq w) w'" "w_clock w \<le> w_clock w'"
  show "wp (service_set_roles s actor uid roles meta) (set_roles_post uid roles w) w'"
    unfolding service_set_roles_def with_admin_def pg_set_roles_def roles_named_def [symmetric] Let_def
    apply (insert m)
    by (((erule wp_steps best_effort_step)+)?; clarsimp simp: wp_code assms(1-2) pg_set_roles_def roles_named_def [symmetric]
       set_roles_kept set_roles_conflict set_roles_cleared set_roles_done dest!: insert_roles_Inr split: option.splits; (intro conjI impI allI)?; (rule state_cases)?)+
qed

end

section \<open>The service of the program\<close>

definition pg_identity_service :: "string \<Rightarrow> identity_service" where
  "pg_identity_service k =
     (new_identity pg_identity_store pg_catalogue)\<lparr>id_admin := Some pg_admin_store, id_auditor := Some (pg_record k)\<rparr>"

lemma pg_identity_service_simps [simp]:
  "id_store (pg_identity_service k) = pg_identity_store" "id_admin (pg_identity_service k) = Some pg_admin_store"
  "id_auditor (pg_identity_service k) = Some (pg_record k)" "id_catalogue (pg_identity_service k) = pg_catalogue"
  by (simp_all add: pg_identity_service_def new_identity_def)

lemma set_roles_run:
  assumes "w_tx w = None" and "run_state (service_set_roles (pg_identity_service k) actor uid roles meta) w = (r, w')"
  shows "set_roles_post uid roles w r w'"
  by (rule wpD [OF pg_audit.set_roles_effect [OF _ _ assms(1)] assms(2)]) simp_all

lemma role_names_log [simp]: "role_names uid (d\<lparr>tb_security_event := es\<rparr>) = role_names uid d"
  "active_roles_of uid (d\<lparr>tb_security_event := es\<rparr>) = active_roles_of uid d"
  by (simp_all add: role_names_def active_roles_join)

lemma permissions_log [simp]: "permissions_of r (d\<lparr>tb_security_event := es\<rparr>) = permissions_of r d"
proof -
  have "tb_role_permission (d\<lparr>tb_security_event := es\<rparr>) = tb_role_permission d"
    "tb_permission (d\<lparr>tb_security_event := es\<rparr>) = tb_permission d" by simp_all
  then show ?thesis by (simp only: permissions_of_def)
qed

text \<open>C11: The roles of a user are replaced, all or nothing: either the assignments are as before and the
  caller is told of a failure; or the names asked for are distinct, the user's active roles are now
  exactly those, everyone else's are unchanged, and the answer lists the names in order unless the
  acknowledgement of the commit was lost.\<close>

theorem roles_replaced:
  assumes "w_tx w = None" and "run_state (service_set_roles (pg_identity_service k) actor uid roles meta) w = (r, w')"
    and "rbac_ok (w_db w)"
  shows "tb_user_role (w_db w') = tb_user_role (w_db w) \<and> \<not> is_ok r
    \<or> distinct roles \<and> list_ex (live_user uid) (tb_user (w_db w)) \<and> role_names uid (w_db w') = sort roles
       \<and> (\<forall>other. other \<noteq> uid \<longrightarrow> role_names other (w_db w') = role_names other (w_db w))
       \<and> (r = Inr (sort roles) \<or> \<not> reliable w \<and> \<not> is_ok r)"
proof -
  from set_roles_run [OF assms(1,2)] obtain d es where
    sp: "set_roles_spec (reliable w) uid roles (w_db w) r d" and d: "w_db w' = d\<lparr>tb_security_event := es\<rparr>"
    unfolding set_roles_post_def by blast
  from sp show ?thesis
  proof cases
    case replaced
    then have "distinct roles" by (simp add: validate_None)
    note names = roles_named_all(2) [OF assms(3) this replaced(4)]
    have "role_names uid d = sort roles"
      using names active_roles_replaced [OF assms(3)] by (simp add: role_names_def replaced(1))
    moreover have "role_names other d = role_names other (w_db w)" if "other \<noteq> uid" for other
      using active_roles_others [OF that] by (simp add: role_names_def replaced(1))
    ultimately show ?thesis using replaced names \<open>distinct roles\<close> d by auto
  qed (simp_all add: d)
qed

lemma can_reliable:
  assumes "reliable w"
  shows "fst (run_state (can (pg_identity_service k) uid code) w) = Inr (code \<in> set (permission_codes uid (w_db w)))"
proof -
  have "wp (can (pg_identity_service k) uid code) (\<lambda>r w'. r = Inr (code \<in> set (permission_codes uid (w_db w)))) w"
    unfolding can_def pg_access_def identity_store_simps pg_identity_service_simps
    by (simp add: wp pg_access_def assms list_ex_iff)
  then show ?thesis by (auto simp: wp_def split: prod.splits)
qed

lemma set_roles_grant:
  assumes "w_tx w = None" and "run_state (service_set_roles (pg_identity_service k) actor uid roles meta) w = (Inr names, w')"
    and "rbac_ok (w_db w)" and "reliable w"
  shows "w_tx w' = None \<and> reliable w'
    \<and> (code \<in> set (permission_codes uid (w_db w')) \<longleftrightarrow> granted code (roles_named roles (w_db w)) (w_db w))"
proof -
  from set_roles_run [OF assms(1,2)] obtain d es where
    sp: "set_roles_spec (reliable w) uid roles (w_db w) (Inr names) d" and d: "w_db w' = d\<lparr>tb_security_event := es\<rparr>"
    and w': "same_oracles w w'" "w_tx w' = None" unfolding set_roles_post_def by blast
  have "reliable w'" using w' assms(4) by (simp add: reliable_def same_oracles_def)
  moreover have "d = replaced uid (roles_named roles (w_db w)) (w_db w)" using sp assms(3,4) by cases auto
  ultimately show ?thesis
    using active_roles_replaced [OF assms(3)] w' by (simp add: permission_codes_granted d granted_def)
qed

text \<open>Capability is live: after roles were replaced, the very next check allows a permission exactly
  when one of the new roles, active now, grants it through an active permission; nothing granted by
  an earlier role lingers.\<close>

theorem capability_follows_roles:
  assumes "w_tx w = None" and "run_state (service_set_roles (pg_identity_service k) actor uid roles meta) w = (Inr names, w')"
    and "rbac_ok (w_db w)" and "reliable w"
  shows "fst (run_state (can (pg_identity_service k) uid code) w') = Inr (granted code (roles_named roles (w_db w)) (w_db w))"
  using set_roles_grant [OF assms] by (simp add: can_reliable)

section \<open>Listings\<close>

lemma small_int64: "0 \<le> x \<Longrightarrow> x \<le> 2 ^ 56 * 100 \<Longrightarrow> sint (word_of_int x :: 64 word) = x"
  by (subst sint_sbintrunc') (simp add: signed_take_bit_int_eq_self)

lemma page_offset_exact:
  assumes "1 \<le> p" "1 \<le> n" "n \<le> 100" "p \<le> 2 ^ 56"
  shows "page_offset p n = (p - 1) * n"
proof -
  have "(p - 1) * n \<le> 2 ^ 56 * 100" using assms by (intro mult_mono) auto
  then show ?thesis unfolding page_offset_def using assms by (intro small_int64) auto
qed

definition page_data :: "'a page res \<Rightarrow> 'a list" where
  "page_data r = (case r of Inr p \<Rightarrow> pg_data p | Inl _ \<Rightarrow> [])"

lemma list_users_reliable:
  assumes "reliable w" and "1 \<le> p" and "1 \<le> n" and "n \<le> 100" and "p \<le> 2 ^ 56"
  shows "fst (run_state (service_users (pg_identity_service k) (f\<lparr>uf_page := p, uf_limit := n\<rparr>)) w) =
    Inr \<lparr>pg_data = take (nat n) (drop (nat ((p - 1) * n)) (matching_users f (w_db w))), pg_page = p, pg_limit = n,
         pg_total = int (length (matching_users f (w_db w)))\<rparr>"
proof -
  have f: "user_matches (f\<lparr>uf_page := p, uf_limit := n\<rparr>) = user_matches f"
    by (auto simp: user_matches_def fun_eq_iff split: option.splits)
  then have m: "matching_users (f\<lparr>uf_page := p, uf_limit := n\<rparr>) = matching_users f"
    unfolding matching_users_def by (simp only:)
  have nn: "\<not> (p - 1) * n < 0" using assms(2,3) by (simp add: not_less)
  have "wp (service_users (pg_identity_service k) (f\<lparr>uf_page := p, uf_limit := n\<rparr>)) (\<lambda>r w'. r =
    Inr \<lparr>pg_data = take (nat n) (drop (nat ((p - 1) * n)) (matching_users f (w_db w))), pg_page = p, pg_limit = n,
         pg_total = int (length (matching_users f (w_db w)))\<rparr>) w"
    unfolding service_users_def with_admin_def pg_list_users_def
    using assms by (simp add: wp pg_list_users_def normalize_paging_def limit_offset_def page_offset_exact f m nn matching_users_def)
  then show ?thesis by (auto simp: wp_def split: prod.splits)
qed

lemma concat_pages: "concat (map (\<lambda>i. take n (drop (i * n) xs)) [0..<m]) = take (m * n) xs"
  by (induction m) (simp_all add: take_add [symmetric] add.commute)


text \<open>A page number near the end of the 64-bit integers is answered with an internal error: the offset
  wraps around to a negative number, which the server rejects.\<close>

theorem huge_page_fails:
  assumes "reliable w"
  shows "fst (run_state (service_users (pg_identity_service k) (f\<lparr>uf_page := 92233720368547760, uf_limit := 100\<rparr>)) w)
    = Inl (wrap ''selecting users: '' (PgError ''2201X'' []))"
proof -
  have neg: "page_offset 92233720368547760 100 < 0" by (simp add: page_offset_def)
  have "wp (service_users (pg_identity_service k) (f\<lparr>uf_page := 92233720368547760, uf_limit := 100\<rparr>))
     (\<lambda>r w'. r = Inl (wrap ''selecting users: '' (PgError ''2201X'' []))) w"
    unfolding service_users_def with_admin_def pg_list_users_def
    using assms neg by (simp add: wp pg_list_users_def normalize_paging_def limit_offset_def)
  then show ?thesis by (auto simp: wp_def split: prod.splits)
qed

section \<open>Worked examples\<close>

text \<open>One user, and the role \<open>EDITOR\<close> with one permission.\<close>

definition demo_role :: role_row where
  "demo_role = \<lparr>ro_id = ''r1'', ro_name = ''EDITOR'', ro_description = None, ro_status = ''ACTIVE'', ro_deleted = None\<rparr>"

definition demo_rbac :: world where
  "demo_rbac = calm (empty_db\<lparr>tb_user := [demo_user], tb_role := [demo_role],
     tb_permission := [\<lparr>pe_id = ''p1'', pe_code = ''place.create'', pe_module = ''PLACES'', pe_name = ''Crear'', pe_status = ''ACTIVE'', pe_deleted = None\<rparr>],
     tb_role_permission := [\<lparr>rp_role = ''r1'', rp_permission = ''p1''\<rparr>]\<rparr>)"

abbreviation demo_grant :: "string list \<Rightarrow> string list io" where
  "demo_grant \<equiv> \<lambda>roles. service_set_roles (pg_identity_service ''k'') ''u1'' ''u1'' roles (event [])"

lemma demo_rbac_simps [simp]:
  "w_tx demo_rbac = None" "reliable demo_rbac" "rbac_ok (w_db demo_rbac)" "tb_user (w_db demo_rbac) = [demo_user]"
  "tb_role (w_db demo_rbac) = [demo_role]" "tb_user_role (w_db demo_rbac) = []"
  "active_role demo_role" "ro_name demo_role = ''EDITOR''" "ro_id demo_role = ''r1''" "live_user ''u1'' demo_user"
  by (simp_all add: demo_rbac_def rbac_ok_def demo_role_def active_role_def live_user_def demo_user_def)

lemma demo_grant_ok: "fst (run_state (demo_grant [''EDITOR'']) demo_rbac) = Inr [''EDITOR'']"
proof -
  obtain r w' where run: "run_state (demo_grant [''EDITOR'']) demo_rbac = (r, w')" by fastforce
  have "roles_named [''EDITOR''] (w_db demo_rbac) = [demo_role]" by (simp add: roles_named_def)
  moreover obtain d where "set_roles_spec (reliable demo_rbac) ''u1'' [''EDITOR''] (w_db demo_rbac) r d"
    using set_roles_run [OF demo_rbac_simps(1) run] unfolding set_roles_post_def by blast
  moreover have "validate_roles [''EDITOR''] = None" by (simp add: validate_None)
  ultimately have "r = Inr [''EDITOR'']" by (auto simp: set_roles_spec.simps)
  then show ?thesis by (simp add: run)
qed

lemma demo_grant_run: "run_state (demo_grant [''EDITOR'']) demo_rbac = (Inr [''EDITOR''], snd (run_state (demo_grant [''EDITOR'']) demo_rbac))"
  using demo_grant_ok by (metis prod.collapse)

lemma roles_replaced_witness:
  "role_names ''u1'' (w_db (snd (run_state (demo_grant [''EDITOR'']) demo_rbac))) = [''EDITOR'']"
  using roles_replaced [OF demo_rbac_simps(1) demo_grant_run demo_rbac_simps(3)] by simp

lemma capability_follows_roles_witness:
  "fst (run_state (can (pg_identity_service ''k'') ''u1'' ''place.create'') (snd (run_state (demo_grant [''EDITOR'']) demo_rbac))) = Inr True"
proof -
  have "granted ''place.create'' (roles_named [''EDITOR''] (w_db demo_rbac)) (w_db demo_rbac)"
    by (simp add: granted_def roles_named_def permissions_of_def) (simp add: demo_rbac_def active_permission_def)
  then show ?thesis
    using capability_follows_roles [OF demo_rbac_simps(1) demo_grant_run demo_rbac_simps(3,2), where code = "''place.create''"] by simp
qed

definition demo_filter :: user_filter where
  "demo_filter = \<lparr>uf_page = 0, uf_limit = 0, uf_query = [], uf_status = [], uf_scope = []\<rparr>"


lemma huge_page_fails_witness:
  "fst (run_state (service_users (pg_identity_service ''k'') (demo_filter\<lparr>uf_page := 92233720368547760, uf_limit := 100\<rparr>)) demo_rbac)
    = Inl (wrap ''selecting users: '' (PgError ''2201X'' []))"
  by (rule huge_page_fails [OF demo_rbac_simps(2)])

end
