(* ===== verification/Migrate.thy ===== *)
theory Migrate
  imports World Security "HOL-Library.List_Lexorder" "HOL-Library.Char_ord"
begin

text \<open>
  Package \<open>db\<close>: applying the schema files in order with a ledger (\<open>migrate.go\<close>), and the bounded wait
  for the database (\<open>pool.go\<close>). The directory is an argument: what \<open>os.ReadDir\<close> and \<open>os.ReadFile\<close>
  gave. How the server judges a batch is the parameter \<open>server\<close>; it runs a batch as one implicit
  transaction, so a batch is executed or not. The field \<open>ddl\<close> of the database is the list of the
  batches executed so far, by anyone.
\<close>

section \<open>migrate.go\<close>

definition bootstrap_file :: string where
  "bootstrap_file = ''01-create-database.sql''"

record migration =
  mg_name :: string
  mg_sql :: string

record ledger =
  lg_ensure :: "unit io"
  lg_count :: "int io"
  lg_applied :: "string \<Rightarrow> bool io"
  lg_record :: "string \<Rightarrow> unit io"
  lg_schema_present :: "bool io"
  lg_adopt :: "string list \<Rightarrow> unit io"

record dir_entry =
  de_name :: string
  de_is_dir :: bool
  de_content :: "gerror + string"

type_synonym directory = "gerror + dir_entry list"

record runner =
  rn_path :: string
  rn_dir :: directory
  rn_executor :: "string \<Rightarrow> unit io"
  rn_ledger :: ledger

definition is_schema_file :: "string \<Rightarrow> bool" where
  "is_schema_file name \<longleftrightarrow> has_suffix name ''.sql'' \<and> \<not> length name < 5
     \<and> (CHR ''0'' \<le> name ! 0 \<and> name ! 0 \<le> CHR ''9'') \<and> (CHR ''0'' \<le> name ! 1 \<and> name ! 1 \<le> CHR ''9'')
     \<and> name ! 2 = CHR ''-''"

fun join_lines :: "string list \<Rightarrow> string" where
  "join_lines [] = []"
| "join_lines [l] = l"
| "join_lines (l # ls) = l @ [CHR 0x0A] @ join_lines ls"

definition strip_meta_commands :: "string \<Rightarrow> string" where
  "strip_meta_commands sql =
     join_lines (filter (\<lambda>l. \<not> has_prefix (trim_space l) [CHR 0x5C]) (split_on (CHR 0x0A) sql))"

text \<open>The loop of \<open>Load\<close>; entries come sorted from \<open>os.ReadDir\<close>, and are sorted again.\<close>

fun load_entries :: "dir_entry list \<Rightarrow> gerror + migration list" where
  "load_entries [] = Inr []"
| "load_entries (e # es) =
     (if de_is_dir e then load_entries es
      else if \<not> is_schema_file (de_name e) \<or> de_name e = bootstrap_file then load_entries es
      else case de_content e of
          Inl err \<Rightarrow> Inl (wrap (''reading schema file '' @ de_name e @ '': '') err)
        | Inr raw \<Rightarrow>
            let sql = strip_meta_commands raw in
            if trim_space sql = [] then load_entries es
            else map_sum id (Cons \<lparr>mg_name = de_name e, mg_sql = sql\<rparr>) (load_entries es))"

definition load_dir :: "string \<Rightarrow> directory \<Rightarrow> gerror + migration list" where
  "load_dir path dir = (case dir of
     Inl e \<Rightarrow> Inl (wrap (''reading schema directory '' @ path @ '': '') e)
   | Inr es \<Rightarrow> map_sum id (sort_key mg_name) (load_entries es))"

definition adopt_existing :: "ledger \<Rightarrow> migration list \<Rightarrow> int io" where
  "adopt_existing l ms =
     (if ms = [] then ok 0
      else check ''counting applied schema files: '' (lg_count l) (\<lambda>recorded.
        if 0 < recorded then ok 0
        else check ''checking for an existing schema: '' (lg_schema_present l) (\<lambda>present.
          if \<not> present then ok 0
          else check ''adopting existing schema: '' (lg_adopt l (map mg_name ms)) (\<lambda>_.
            ok (int (length ms))))))"

text \<open>\<open>Run\<close> returns the names applied so far together with the error, if any.\<close>

fun apply_migrations :: "runner \<Rightarrow> migration list \<Rightarrow> string list \<Rightarrow> (string list \<times> gerror option) eff" where
  "apply_migrations rn [] applied = ret (applied, None)"
| "apply_migrations rn (m # ms) applied = do {
     done' \<leftarrow> lg_applied (rn_ledger rn) (mg_name m);
     case done' of
       Inl e \<Rightarrow> ret (applied, Some (wrap (''checking schema file '' @ mg_name m @ '': '') e))
     | Inr True \<Rightarrow> apply_migrations rn ms applied
     | Inr False \<Rightarrow> do {
         r \<leftarrow> rn_executor rn (mg_sql m);
         case r of
           Inl e \<Rightarrow> ret (applied, Some (wrap (''applying schema file '' @ mg_name m @ '': '') e))
         | Inr _ \<Rightarrow> do {
             s \<leftarrow> lg_record (rn_ledger rn) (mg_name m);
             case s of
               Inl e \<Rightarrow> ret (applied, Some (wrap (''recording schema file '' @ mg_name m @ '': '') e))
             | Inr _ \<Rightarrow> apply_migrations rn ms (applied @ [mg_name m]) } } }"

definition run_migrations :: "runner \<Rightarrow> (string list \<times> gerror option) eff" where
  "run_migrations rn = do {
     e \<leftarrow> lg_ensure (rn_ledger rn);
     case e of
       Inl e \<Rightarrow> ret ([], Some (wrap ''ensuring migration ledger: '' e))
     | Inr _ \<Rightarrow> (case load_dir (rn_path rn) (rn_dir rn) of
         Inl e \<Rightarrow> ret ([], Some e)
       | Inr ms \<Rightarrow> do {
           a \<leftarrow> adopt_existing (rn_ledger rn) ms;
           case a of
             Inl e \<Rightarrow> ret ([], Some e)
           | Inr n \<Rightarrow> if 0 < n then ret ([], None) else apply_migrations rn ms [] }) }"

section \<open>pool.go, the ledger\<close>

text \<open>
  What the server decides: whether it accepts a batch after the batches before it, and whether
  \<open>seg.tb_user\<close> exists then.
\<close>

record server =
  sv_accepts :: "string list \<Rightarrow> string \<Rightarrow> gerror option"
  sv_has_user :: "string list \<Rightarrow> bool"

definition run_batch :: "server \<Rightarrow> string \<Rightarrow> db \<Rightarrow> gerror + db" where
  "run_batch sv sql d = (case sv_accepts sv (ddl d) sql of
     Some e \<Rightarrow> Inl e
   | None \<Rightarrow> Inr (d\<lparr>ddl := ddl d @ [sql]\<rparr>))"

definition pool_executor :: "server \<Rightarrow> string \<Rightarrow> unit io" where
  "pool_executor sv sql = pool_exec (insert_stmt (\<lambda>t uuid. run_batch sv sql))"

definition undefined_table :: gerror where
  "undefined_table = PgError ''42P01'' []"

text \<open>The recorded names, once the ledger table exists.\<close>

definition on_ledger :: "(string list \<Rightarrow> 'a \<times> string list) \<Rightarrow> 'a stmt" where
  "on_ledger f t uuid d = (case tb_schema_migration d of
     None \<Rightarrow> Inl undefined_table
   | Some names \<Rightarrow> Inr (fst (f names), d\<lparr>tb_schema_migration := Some (snd (f names))\<rparr>))"

text \<open>\<open>INSERT ... ON CONFLICT (tx_name) DO NOTHING\<close>.\<close>

definition insert_name :: "string \<Rightarrow> string list \<Rightarrow> string list" where
  "insert_name name names = (if name \<in> set names then names else names @ [name])"

definition ledger_ensure :: "unit io" where
  "ledger_ensure = pool_exec (update_stmt (\<lambda>t d.
     d\<lparr>tb_schema_migration := (case tb_schema_migration d of None \<Rightarrow> Some [] | Some names \<Rightarrow> Some names)\<rparr>))"

definition ledger_applied :: "string \<Rightarrow> bool io" where
  "ledger_applied name = pool_exec (on_ledger (\<lambda>names. (name \<in> set names, names)))"

definition ledger_count :: "int io" where
  "ledger_count = pool_exec (on_ledger (\<lambda>names. (int (length names), names)))"

definition ledger_schema_present :: "server \<Rightarrow> bool io" where
  "ledger_schema_present sv = pool_exec (query_stmt (\<lambda>d. sv_has_user sv (ddl d)))"

definition ledger_adopt :: "string list \<Rightarrow> unit io" where
  "ledger_adopt names = (if names = [] then ok ()
     else pool_exec (on_ledger (\<lambda>old. ((), fold insert_name names old))))"

definition ledger_record :: "string \<Rightarrow> unit io" where
  "ledger_record name = pool_exec (on_ledger (\<lambda>names. ((), insert_name name names)))"

definition pg_ledger :: "server \<Rightarrow> ledger" where
  "pg_ledger sv = \<lparr>lg_ensure = ledger_ensure, lg_count = ledger_count, lg_applied = ledger_applied,
     lg_record = ledger_record, lg_schema_present = ledger_schema_present sv, lg_adopt = ledger_adopt\<rparr>"

section \<open>pool.go, waiting for the database\<close>

definition default_connect_attempts :: int where
  "default_connect_attempts = 5"

definition default_connect_backoff :: int where
  "default_connect_backoff = 500 * 1000000"

definition max_connect_backoff :: int where
  "max_connect_backoff = 2 * second"

text \<open>
  A context: its error so far, and a wait of the given length that ends with \<open>None\<close> when the timer
  fired and with the context's error when the context was done first.
\<close>

record 's context_ops =
  ctx_err :: "('s, gerror option) state"
  ctx_after :: "int \<Rightarrow> ('s, gerror option) state"

text \<open>
  The loop of \<open>retry\<close> with \<open>n + 1\<close> attempts left; the error it ends with is that of the last one.
\<close>

fun retry_loop :: "'s context_ops \<Rightarrow> int \<Rightarrow> ('s, 'a) act \<Rightarrow> nat \<Rightarrow> int \<Rightarrow> ('s, 'a) act" where
  "retry_loop c attempts op n backoff = do {
     cancelled \<leftarrow> ctx_err c;
     case cancelled of
       Some e \<Rightarrow> fail e
     | None \<Rightarrow> do {
         r \<leftarrow> op;
         case r of
           Inr x \<Rightarrow> ok x
         | Inl e \<Rightarrow> (case n of
             0 \<Rightarrow> fail (wrap (''gave up after '' @ show_int attempts @ '' attempts: '') e)
           | Suc m \<Rightarrow> do {
               interrupted \<leftarrow> ctx_after c backoff;
               case interrupted of
                 Some e' \<Rightarrow> fail e'
               | None \<Rightarrow> retry_loop c attempts op m
                   (if max_connect_backoff < backoff * 2 then max_connect_backoff else backoff * 2) }) } }"

definition retry :: "'s context_ops \<Rightarrow> int \<Rightarrow> int \<Rightarrow> ('s, 'a) act \<Rightarrow> ('s, 'a) act" where
  "retry c attempts base op =
     (let attempts = (if attempts < 1 then 1 else attempts)
      in retry_loop c attempts op (nat (attempts - 1)) base)"

text \<open>
  \<open>Connect\<close>: opening a pool, which only parses the address, and pinging it; a pool that does not
  answer is closed.
\<close>

definition connect_pool :: "'s context_ops \<Rightarrow> ('s, 'p) act \<Rightarrow> ('p \<Rightarrow> ('s, unit) act) \<Rightarrow> ('p \<Rightarrow> ('s, unit) state) \<Rightarrow> int \<Rightarrow> ('s, 'p) act" where
  "connect_pool c new_pool ping close attempts =
     check ''connecting to postgres (DATABASE_URL): ''
       (retry c attempts default_connect_backoff (attempt new_pool (\<lambda>candidate. do {
          r \<leftarrow> ping candidate;
          case r of
            Inl e \<Rightarrow> do { close candidate; fail e }
          | Inr _ \<Rightarrow> ok candidate }))) ok"

end
