(* ===== verification/Migrate_Safety.thy ===== *)
theory Migrate_Safety
  imports Migrate
begin

text \<open>
  The schema files are applied in order and each at most once. \<open>migration_target\<close> is the contract of
  the interfaces \<open>Executor\<close> and \<open>Ledger\<close> the runner works against; it is met by the PostgreSQL ones.
  A failure can part execution from recording by one file at most, and only when the server's
  answer was lost. The wait for the database is bounded.
\<close>

section \<open>The contract of the ledger and the executor\<close>

definition recorded :: "db \<Rightarrow> string list" where
  "recorded d = (case tb_schema_migration d of None \<Rightarrow> [] | Some names \<Rightarrow> names)"

definition ledgered :: "string list \<Rightarrow> db \<Rightarrow> db" where
  "ledgered names d = d\<lparr>tb_schema_migration := Some names\<rparr>"

definition executed :: "string list \<Rightarrow> db \<Rightarrow> db" where
  "executed sqls d = d\<lparr>ddl := ddl d @ sqls\<rparr>"

lemma ledger_simps [simp]:
  "recorded (ledgered names d) = names" "ddl (ledgered names d) = ddl d" "recorded (executed sqls d) = recorded d"
  "ddl (executed sqls d) = ddl d @ sqls" "ledgered names (ledgered names' d) = ledgered names d"
  "executed s (executed s' d) = executed (s' @ s) d" "executed [] d = d"
  "tb_schema_migration (ledgered names d) = Some names" "tb_schema_migration (executed sqls d) = tb_schema_migration d"
  "executed s (ledgered names d) = ledgered names (executed s d)"
  by (simp_all add: recorded_def ledgered_def executed_def)

lemma ledgered_same [simp]: "tb_schema_migration d = Some names \<Longrightarrow> ledgered names d = d"
  by (simp add: ledgered_def)

text \<open>The files a run still has to apply.\<close>

definition pending_files :: "db \<Rightarrow> migration list \<Rightarrow> migration list" where
  "pending_files d ms = filter (\<lambda>m. mg_name m \<notin> set (recorded d)) ms"

locale migration_target =
  fixes l :: ledger and exec :: "string \<Rightarrow> unit io" and sv :: server
  assumes ensure_step: "moves w0 d t q w \<Longrightarrow>
      (\<And>e d' w'. \<not> reliable w0 \<Longrightarrow> d' = d \<or> d' = ledgered (recorded d) d \<Longrightarrow> moves w0 d' t q w' \<Longrightarrow> Q (Inl e) w') \<Longrightarrow>
      (\<And>w'. moves w0 (ledgered (recorded d) d) t q w' \<Longrightarrow> Q (Inr ()) w') \<Longrightarrow> wp (lg_ensure l) Q w"
    and count_step: "moves w0 (ledgered names d) t q w \<Longrightarrow>
      (\<And>e w'. \<not> reliable w0 \<Longrightarrow> moves w0 (ledgered names d) t q w' \<Longrightarrow> R (Inl e) w') \<Longrightarrow>
      (\<And>w'. moves w0 (ledgered names d) t q w' \<Longrightarrow> R (Inr (int (length names))) w') \<Longrightarrow> wp (lg_count l) R w"
    and applied_step: "moves w0 (ledgered names d) t q w \<Longrightarrow>
      (\<And>e w'. \<not> reliable w0 \<Longrightarrow> moves w0 (ledgered names d) t q w' \<Longrightarrow> B (Inl e) w') \<Longrightarrow>
      (\<And>w'. moves w0 (ledgered names d) t q w' \<Longrightarrow> B (Inr (n \<in> set names)) w') \<Longrightarrow> wp (lg_applied l n) B w"
    and present_step: "moves w0 d t q w \<Longrightarrow>
      (\<And>e w'. \<not> reliable w0 \<Longrightarrow> moves w0 d t q w' \<Longrightarrow> B (Inl e) w') \<Longrightarrow>
      (\<And>w'. moves w0 d t q w' \<Longrightarrow> B (Inr (sv_has_user sv (ddl d))) w') \<Longrightarrow> wp (lg_schema_present l) B w"
    and record_step: "moves w0 (ledgered names d) t q w \<Longrightarrow> n \<notin> set names \<Longrightarrow>
      (\<And>e names' w'. \<not> reliable w0 \<Longrightarrow> names' = names \<or> names' = names @ [n] \<Longrightarrow> moves w0 (ledgered names' d) t q w' \<Longrightarrow> Q (Inl e) w') \<Longrightarrow>
      (\<And>w'. moves w0 (ledgered (names @ [n]) d) t q w' \<Longrightarrow> Q (Inr ()) w') \<Longrightarrow> wp (lg_record l n) Q w"
    and adopt_step: "moves w0 (ledgered [] d) t q w \<Longrightarrow> distinct ns \<Longrightarrow>
      (\<And>e names' w'. \<not> reliable w0 \<Longrightarrow> names' = [] \<or> names' = ns \<Longrightarrow> moves w0 (ledgered names' d) t q w' \<Longrightarrow> Q (Inl e) w') \<Longrightarrow>
      (\<And>w'. moves w0 (ledgered ns d) t q w' \<Longrightarrow> Q (Inr ()) w') \<Longrightarrow> wp (lg_adopt l ns) Q w"
    and exec_step: "moves w0 d t q w \<Longrightarrow>
      (\<And>e w'. sv_accepts sv (ddl d) sql \<noteq> None \<or> \<not> reliable w0 \<Longrightarrow> moves w0 d t q w' \<Longrightarrow> Q (Inl e) w') \<Longrightarrow>
      (\<And>e w'. \<not> reliable w0 \<Longrightarrow> moves w0 (executed [sql] d) t q w' \<Longrightarrow> Q (Inl e) w') \<Longrightarrow>
      (\<And>w'. sv_accepts sv (ddl d) sql = None \<Longrightarrow> moves w0 (executed [sql] d) t q w' \<Longrightarrow> Q (Inr ()) w') \<Longrightarrow>
      wp (exec sql) Q w"
begin

text \<open>
  \<open>P\<close> are the files still pending when the loop starts: \<open>k\<close> of them were executed, \<open>j\<close> recorded and
  \<open>i\<close> reported, and these differ by one at most.
\<close>

definition applied_so_far :: "world \<Rightarrow> tx option \<Rightarrow> string list \<Rightarrow> string list \<Rightarrow> db \<Rightarrow> migration list \<Rightarrow> string list \<Rightarrow>
    string list \<times> gerror option \<Rightarrow> world \<Rightarrow> bool" where
  "applied_so_far w0 t q names d P reported r w' \<longleftrightarrow> (\<exists>i j k. i \<le> j \<and> j \<le> k \<and> k \<le> i + 1 \<and> k \<le> length P
     \<and> moves w0 (ledgered (names @ map mg_name (take j P)) (executed (map mg_sql (take k P)) d)) t q w'
     \<and> fst r = reported @ map mg_name (take i P)
     \<and> (snd r = None \<longrightarrow> i = length P)
     \<and> (reliable w0 \<longrightarrow> i = k \<and> (snd r \<noteq> None \<longrightarrow> k < length P
          \<and> sv_accepts sv (ddl d @ map mg_sql (take k P)) (mg_sql (P ! k)) \<noteq> None)))"

lemma applied_one_more:
  assumes "applied_so_far w0 t q (names @ [mg_name m]) (executed [mg_sql m] d) P (reported @ [mg_name m]) r w'"
  shows "applied_so_far w0 t q names d (m # P) reported r w'"
proof -
  from assms obtain i j k where "i \<le> j" "j \<le> k" "k \<le> i + 1" "k \<le> length P"
    "moves w0 (ledgered ((names @ [mg_name m]) @ map mg_name (take j P)) (executed (map mg_sql (take k P)) (executed [mg_sql m] d))) t q w'"
    "fst r = (reported @ [mg_name m]) @ map mg_name (take i P)" "snd r = None \<longrightarrow> i = length P"
    "reliable w0 \<longrightarrow> i = k \<and> (snd r \<noteq> None \<longrightarrow> k < length P
        \<and> sv_accepts sv (ddl (executed [mg_sql m] d) @ map mg_sql (take k P)) (mg_sql (P ! k)) \<noteq> None)"
    unfolding applied_so_far_def by (elim exE conjE) (rule that)
  then show ?thesis
    unfolding applied_so_far_def
    by (rule_tac x = "Suc i" in exI, rule_tac x = "Suc j" in exI, rule_tac x = "Suc k" in exI) (intro conjI; simp)
qed

lemma applied_stop:
  "moves w0 (ledgered names d) t q w' \<Longrightarrow> P = [] \<Longrightarrow> applied_so_far w0 t q names d P reported (reported, None) w'"
  "moves w0 (ledgered names d) t q w' \<Longrightarrow> \<not> reliable w0 \<Longrightarrow> applied_so_far w0 t q names d P reported (reported, Some e) w'"
  "moves w0 (ledgered names d) t q w' \<Longrightarrow> sv_accepts sv (ddl d) (mg_sql m) \<noteq> None \<or> \<not> reliable w0 \<Longrightarrow>
     applied_so_far w0 t q names d (m # P) reported (reported, Some e) w'"
  "moves w0 (ledgered names (executed [mg_sql m] d)) t q w' \<Longrightarrow> \<not> reliable w0 \<Longrightarrow>
     applied_so_far w0 t q names d (m # P) reported (reported, Some e) w'"
  "moves w0 (ledgered (names @ [mg_name m]) (executed [mg_sql m] d)) t q w' \<Longrightarrow> \<not> reliable w0 \<Longrightarrow>
     applied_so_far w0 t q names d (m # P) reported (reported, Some e) w'"
  subgoal unfolding applied_so_far_def by (intro exI [of _ 0]) simp
  subgoal unfolding applied_so_far_def by (intro exI [of _ 0]) simp
  subgoal unfolding applied_so_far_def by (intro exI [of _ 0]) auto
  subgoal unfolding applied_so_far_def by (rule exI [of _ 0], rule exI [of _ 0], rule exI [of _ 1]) simp
  subgoal unfolding applied_so_far_def by (rule exI [of _ 0], rule exI [of _ 1], rule exI [of _ 1]) simp
  done

lemma apply_effect:
  assumes "moves w0 (ledgered names d) t q w" and "distinct (map mg_name ms)"
    and "rn_ledger rn = l" and "rn_executor rn = exec"
  shows "wp (apply_migrations rn ms reported)
    (applied_so_far w0 t q names d (filter (\<lambda>m. mg_name m \<notin> set names) ms) reported) w"
  using assms(1,2)
proof (induction ms arbitrary: names d reported w)
  case Nil
  then show ?case by (simp add: wp applied_stop)
next
  case (Cons m ms)
  have other: "filter (\<lambda>x. mg_name x \<notin> set (names @ [mg_name m])) ms = filter (\<lambda>x. mg_name x \<notin> set names) ms"
    using Cons.prems(2) by (intro filter_cong refl) (auto simp: image_iff)
  note IH = Cons.IH [of "names @ [mg_name m]" "executed [mg_sql m] d", unfolded other]
  show ?case
  proof (cases "mg_name m \<in> set names")
    case True
    then show ?thesis
      unfolding apply_migrations.simps assms(3,4) wp_code
      using Cons.IH Cons.prems(2)
      by (intro applied_step [OF Cons.prems(1)]) (simp_all add: wp_code applied_stop)
  next
    case False
    have run: "wp (exec (mg_sql m)) (\<lambda>r. wp (case r of
         Inl e \<Rightarrow> ret (reported, Some (wrap (''applying schema file '' @ mg_name m @ '': '') e))
       | Inr _ \<Rightarrow> lg_record l (mg_name m) \<bind> (\<lambda>s. case s of
             Inl e \<Rightarrow> ret (reported, Some (wrap (''recording schema file '' @ mg_name m @ '': '') e))
           | Inr _ \<Rightarrow> apply_migrations rn ms (reported @ [mg_name m])))
         (applied_so_far w0 t q names d (m # filter (\<lambda>m. mg_name m \<notin> set names) ms) reported)) w1"
      if "moves w0 (ledgered names d) t q w1" for w1
      apply (rule exec_step [OF that])
        apply (simp add: wp applied_stop)
       apply (simp add: wp applied_stop)
      apply (simp only: wp_code sum.case ledger_simps)
      apply (erule record_step, rule False)
       apply (auto simp: wp applied_stop)[1]
      apply (simp only: wp_code sum.case)
      apply (rule wp_mono [OF IH], assumption, use Cons.prems(2) in simp)
      apply (erule applied_one_more)
      done
    have head: "filter (\<lambda>m. mg_name m \<notin> set names) (m # ms) = m # filter (\<lambda>m. mg_name m \<notin> set names) ms"
      and no: "(mg_name m \<in> set names) = False" using False by simp_all
    show ?thesis
      unfolding apply_migrations.simps assms(3,4) wp_code head
      apply (rule applied_step [OF Cons.prems(1)])
       apply (simp add: wp applied_stop)
      apply (simp only: no sum.case bool.case wp_code)
      apply (erule run [unfolded wp_code])
      done
  qed
qed

text \<open>A whole run: nothing happened, the existing schema was adopted, or the loop ran.\<close>

definition migrated :: "world \<Rightarrow> migration list \<Rightarrow> string list \<times> gerror option \<Rightarrow> world \<Rightarrow> bool" where
  "migrated w ms r w' \<longleftrightarrow>
     applied_so_far w (w_tx w) (w_mq w) (recorded (w_db w)) (w_db w) (pending_files (w_db w) ms) [] r w'
     \<or> ms \<noteq> [] \<and> recorded (w_db w) = [] \<and> sv_has_user sv (ddl (w_db w)) \<and> fst r = []
        \<and> (\<exists>names. moves w (ledgered names (w_db w)) (w_tx w) (w_mq w) w'
             \<and> (names = map mg_name ms \<or> names = [] \<and> \<not> reliable w \<and> snd r \<noteq> None) \<and> (snd r = None \<or> \<not> reliable w))
     \<or> \<not> reliable w \<and> fst r = [] \<and> snd r \<noteq> None \<and> moves w (w_db w) (w_tx w) (w_mq w) w'"

lemma migratedE [consumes 1, case_names loop adopted untouched]:
  assumes "migrated w ms r w'"
  obtains (loop) i j k where "i \<le> j" "j \<le> k" "k \<le> i + 1" "k \<le> length (pending_files (w_db w) ms)"
      "moves w (ledgered (recorded (w_db w) @ map mg_name (take j (pending_files (w_db w) ms)))
         (executed (map mg_sql (take k (pending_files (w_db w) ms))) (w_db w))) (w_tx w) (w_mq w) w'"
      "fst r = map mg_name (take i (pending_files (w_db w) ms))" "snd r = None \<longrightarrow> i = length (pending_files (w_db w) ms)"
      "reliable w \<longrightarrow> i = k \<and> (snd r \<noteq> None \<longrightarrow> k < length (pending_files (w_db w) ms)
          \<and> sv_accepts sv (ddl (w_db w) @ map mg_sql (take k (pending_files (w_db w) ms))) (mg_sql (pending_files (w_db w) ms ! k)) \<noteq> None)"
    | (adopted) names where "ms \<noteq> []" "recorded (w_db w) = []" "sv_has_user sv (ddl (w_db w))" "fst r = []"
      "moves w (ledgered names (w_db w)) (w_tx w) (w_mq w) w'" "names = map mg_name ms \<or> names = [] \<and> \<not> reliable w \<and> snd r \<noteq> None"
    | (untouched) "\<not> reliable w" "fst r = []" "snd r \<noteq> None" "moves w (w_db w) (w_tx w) (w_mq w) w'"
  using assms unfolding migrated_def applied_so_far_def append_Nil
  by (elim disjE exE conjE) ((rule loop, assumption+) | (rule adopted, assumption+, simp) | (rule untouched, assumption+))+

lemma migrated_intros:
  "moves w (w_db w) (w_tx w) (w_mq w) w' \<Longrightarrow> \<not> reliable w \<Longrightarrow> migrated w ms ([], Some e) w'"
  "moves w (ledgered (recorded (w_db w)) (w_db w)) (w_tx w) (w_mq w) w' \<Longrightarrow> \<not> reliable w \<Longrightarrow> migrated w ms ([], Some e) w'"
  "ms \<noteq> [] \<Longrightarrow> recorded (w_db w) = [] \<Longrightarrow> sv_has_user sv (ddl (w_db w)) \<Longrightarrow>
     moves w (ledgered (map mg_name ms) (w_db w)) (w_tx w) (w_mq w) w' \<Longrightarrow> migrated w ms ([], None) w'"
  "ms \<noteq> [] \<Longrightarrow> recorded (w_db w) = [] \<Longrightarrow> sv_has_user sv (ddl (w_db w)) \<Longrightarrow> \<not> reliable w \<Longrightarrow>
     moves w (ledgered names (w_db w)) (w_tx w) (w_mq w) w' \<Longrightarrow> names = [] \<or> names = map mg_name ms \<Longrightarrow>
     migrated w ms ([], Some e) w'"
  using applied_stop(2) [of w "recorded (w_db w)" "w_db w" "w_tx w" "w_mq w" w' "pending_files (w_db w) ms" "[]" e]
  unfolding migrated_def by auto

lemma run_effect:
  assumes "rn_ledger rn = l" and "rn_executor rn = exec" and "load_dir (rn_path rn) (rn_dir rn) = Inr ms"
    and "distinct (map mg_name ms)"
  shows "wp (run_migrations rn) (migrated w ms) w"
proof (rule wp_start)
  fix w' assume m: "moves w (w_db w) (w_tx w) (w_mq w) w'"
  let ?d = "ledgered (recorded (w_db w)) (w_db w)"
  have loop: "wp (apply_migrations rn ms []) (migrated w ms) w1" if "moves w ?d (w_tx w) (w_mq w) w1" for w1
    by (rule wp_mono [OF apply_effect [OF that assms(4,1,2)]]) (simp add: pending_files_def migrated_def)
  have empty: "migrated w [] ([], None) w1" if "moves w ?d (w_tx w) (w_mq w) w1" for w1
    using applied_stop(1) [OF that, of "[]" "[]"] by (simp add: migrated_def pending_files_def)
  have loop0: "wp (apply_migrations rn ms []) (migrated w ms) w1"
    if "recorded (w_db w) = []" "moves w (ledgered [] (w_db w)) (w_tx w) (w_mq w) w1" for w1
    using loop that by simp
  have stop0: "migrated w ms ([], Some e) w1"
    if "recorded (w_db w) = []" "moves w (ledgered [] (w_db w)) (w_tx w) (w_mq w) w1" "\<not> reliable w" for w1 e
    using migrated_intros(2) that by simp
  show "wp (run_migrations rn) (migrated w ms) w'"
    unfolding run_migrations_def assms(1) adopt_existing_def
    apply (simp only: wp_code)
    apply (rule ensure_step [OF m])
     apply (auto simp: wp_code migrated_intros)[1]
    apply (cases "ms = []")
     apply (simp add: wp_code assms(3) empty)
    apply (simp add: wp_code assms(3))
    apply (erule count_step)
     apply (simp add: wp_code migrated_intros)
    apply (simp add: wp_code loop, intro impI, erule present_step)
     apply (simp add: wp_code stop0)
    apply (simp add: wp_code loop0, intro impI, erule adopt_step, rule assms(4))
     apply (auto simp: wp_code migrated_intros)[1]
    apply (simp add: wp_code migrated_intros)
    done
qed

end

section \<open>The PostgreSQL ledger\<close>

lemma insert_fresh: "distinct (ns @ old) \<Longrightarrow> fold insert_name ns old = old @ ns"
  by (induction ns arbitrary: old) (auto simp: insert_name_def)

lemma on_ledger_simps [simp]: "on_ledger f t u (ledgered names d) = Inr (fst (f names), ledgered (snd (f names)) d)"
  by (simp add: on_ledger_def ledgered_def)

lemma ensure_eq: "d\<lparr>tb_schema_migration := (case tb_schema_migration d of None \<Rightarrow> Some [] | Some names \<Rightarrow> Some names)\<rparr> = ledgered (recorded d) d"
  by (simp add: ledgered_def recorded_def split: option.splits)

interpretation pg_target: migration_target "pg_ledger sv" "pool_executor sv" sv for sv
proof
  note run = pool_exec_step
  fix w0 w :: world and d t q Q R B n names ns sql
  show "moves w0 d t q w \<Longrightarrow>
      (\<And>e d' w'. \<not> reliable w0 \<Longrightarrow> d' = d \<or> d' = ledgered (recorded d) d \<Longrightarrow> moves w0 d' t q w' \<Longrightarrow> Q (Inl e) w') \<Longrightarrow>
      (\<And>w'. moves w0 (ledgered (recorded d) d) t q w' \<Longrightarrow> Q (Inr ()) w') \<Longrightarrow> wp (lg_ensure (pg_ledger sv)) Q w"
    unfolding pg_ledger_def ledger.simps ledger_ensure_def by (erule run) (auto simp: ensure_eq)
  show "moves w0 (ledgered names d) t q w \<Longrightarrow>
      (\<And>e w'. \<not> reliable w0 \<Longrightarrow> moves w0 (ledgered names d) t q w' \<Longrightarrow> R (Inl e) w') \<Longrightarrow>
      (\<And>w'. moves w0 (ledgered names d) t q w' \<Longrightarrow> R (Inr (int (length names))) w') \<Longrightarrow> wp (lg_count (pg_ledger sv)) R w"
    unfolding pg_ledger_def ledger.simps ledger_count_def by (erule run) auto
  show "moves w0 (ledgered names d) t q w \<Longrightarrow>
      (\<And>e w'. \<not> reliable w0 \<Longrightarrow> moves w0 (ledgered names d) t q w' \<Longrightarrow> B (Inl e) w') \<Longrightarrow>
      (\<And>w'. moves w0 (ledgered names d) t q w' \<Longrightarrow> B (Inr (n \<in> set names)) w') \<Longrightarrow> wp (lg_applied (pg_ledger sv) n) B w"
    unfolding pg_ledger_def ledger.simps ledger_applied_def by (erule run) auto
  show "moves w0 d t q w \<Longrightarrow>
      (\<And>e w'. \<not> reliable w0 \<Longrightarrow> moves w0 d t q w' \<Longrightarrow> B (Inl e) w') \<Longrightarrow>
      (\<And>w'. moves w0 d t q w' \<Longrightarrow> B (Inr (sv_has_user sv (ddl d))) w') \<Longrightarrow> wp (lg_schema_present (pg_ledger sv)) B w"
    unfolding pg_ledger_def ledger.simps ledger_schema_present_def by (erule run) auto
  show "moves w0 (ledgered names d) t q w \<Longrightarrow> n \<notin> set names \<Longrightarrow>
      (\<And>e names' w'. \<not> reliable w0 \<Longrightarrow> names' = names \<or> names' = names @ [n] \<Longrightarrow> moves w0 (ledgered names' d) t q w' \<Longrightarrow> Q (Inl e) w') \<Longrightarrow>
      (\<And>w'. moves w0 (ledgered (names @ [n]) d) t q w' \<Longrightarrow> Q (Inr ()) w') \<Longrightarrow> wp (lg_record (pg_ledger sv) n) Q w"
    unfolding pg_ledger_def ledger.simps ledger_record_def by (erule run) (auto simp: insert_name_def)
  show "moves w0 (ledgered [] d) t q w \<Longrightarrow> distinct ns \<Longrightarrow>
      (\<And>e names' w'. \<not> reliable w0 \<Longrightarrow> names' = [] \<or> names' = ns \<Longrightarrow> moves w0 (ledgered names' d) t q w' \<Longrightarrow> Q (Inl e) w') \<Longrightarrow>
      (\<And>w'. moves w0 (ledgered ns d) t q w' \<Longrightarrow> Q (Inr ()) w') \<Longrightarrow> wp (lg_adopt (pg_ledger sv) ns) Q w"
    unfolding pg_ledger_def ledger.simps ledger_adopt_def
    by (cases "ns = []") (simp add: wp, simp, erule run, auto simp: insert_fresh)
  show "moves w0 d t q w \<Longrightarrow>
      (\<And>e w'. sv_accepts sv (ddl d) sql \<noteq> None \<or> \<not> reliable w0 \<Longrightarrow> moves w0 d t q w' \<Longrightarrow> Q (Inl e) w') \<Longrightarrow>
      (\<And>e w'. \<not> reliable w0 \<Longrightarrow> moves w0 (executed [sql] d) t q w' \<Longrightarrow> Q (Inl e) w') \<Longrightarrow>
      (\<And>w'. sv_accepts sv (ddl d) sql = None \<Longrightarrow> moves w0 (executed [sql] d) t q w' \<Longrightarrow> Q (Inr ()) w') \<Longrightarrow>
      wp (pool_executor sv sql) Q w"
    unfolding pool_executor_def by (erule run) (auto simp: run_batch_def executed_def split: option.splits sum.splits)
qed

section \<open>Runs of the program\<close>

definition pg_runner :: "server \<Rightarrow> string \<Rightarrow> directory \<Rightarrow> runner" where
  "pg_runner sv path dir = \<lparr>rn_path = path, rn_dir = dir, rn_executor = pool_executor sv, rn_ledger = pg_ledger sv\<rparr>"

lemma load_entries_names:
  "load_entries es = Inr ms \<Longrightarrow> set (map mg_name ms) \<subseteq> set (map de_name es) \<and> (distinct (map de_name es) \<longrightarrow> distinct (map mg_name ms))"
proof (induction es arbitrary: ms)
  case (Cons e es)
  then show ?case
    by (cases "load_entries es"; cases "de_content e") (auto simp: Let_def split: if_splits, force+)
qed simp

lemma load_dir_distinct:
  assumes "load_dir path (Inr es) = Inr ms" and "distinct (map de_name es)"
  shows "distinct (map mg_name ms)"
proof -
  obtain ns where ns: "load_entries es = Inr ns" "ms = sort_key mg_name ns"
    using assms(1) by (cases "load_entries es") (auto simp: load_dir_def)
  then have "distinct (map mg_name ns)" using load_entries_names assms(2) by blast
  then show ?thesis by (simp add: ns(2) distinct_map)
qed

text \<open>The loaded files are in lexical order, and each is a schema file.\<close>

lemma load_dir_sorted: "load_dir path dir = Inr ms \<Longrightarrow> sorted (map mg_name ms)"
  by (cases dir; cases "load_entries (projr dir)") (auto simp: load_dir_def)

lemma run_migrations_run:
  assumes "run_state (run_migrations (pg_runner sv path (Inr es))) w = (r, w')"
    and "load_dir path (Inr es) = Inr ms" and "distinct (map de_name es)"
  shows "pg_target.migrated sv w ms r w'"
  by (rule wpD [OF pg_target.run_effect assms(1)]) (simp_all add: pg_runner_def assms(2) load_dir_distinct [OF assms(2,3)])

text \<open>A run that reports no error leaves every file in the ledger.\<close>

lemma migrated_recorded:
  assumes "run_state (run_migrations (pg_runner sv path dir)) w = ((applied, None), w')"
    and "\<And>es. dir = Inr es \<Longrightarrow> distinct (map de_name es)"
  obtains ms where "load_dir path dir = Inr ms" "set (map mg_name ms) \<subseteq> set (recorded (w_db w'))"
proof -
  obtain ms where ms: "load_dir path dir = Inr ms"
    using assms(1) by (auto simp: run_migrations_def pg_runner_def split: prod.splits sum.splits)
  then obtain es where es: "dir = Inr es" by (cases dir) (auto simp: load_dir_def)
  have "pg_target.migrated sv w ms (applied, None) w'"
    using run_migrations_run [of sv path es w] assms ms es by blast
  then have "set (map mg_name ms) \<subseteq> set (recorded (w_db w'))"
  proof (cases rule: pg_target.migratedE)
    case (loop i j k)
    then have "take j (pending_files (w_db w) ms) = pending_files (w_db w) ms" by simp
    then show ?thesis using movesD(1) [OF loop(5)] by (auto simp: pending_files_def)
  next
    case (adopted names)
    then show ?thesis using movesD(1) [OF adopted(5)] by auto
  next
    case untouched
    then show ?thesis by simp
  qed
  then show ?thesis using that ms by blast
qed

text \<open>C14: Schema files are applied in lexical order and the ledger keeps up with them: however a run
  ends, the batches it executed are the first \<open>k\<close> pending files, the names it recorded the first \<open>j\<close>
  and the names it reports the first \<open>i\<close>, where these numbers differ by one at most, and agree when
  nothing outside fails; or an existing schema was adopted, with every file recorded and none run.\<close>

theorem migrate_keeps_up:
  assumes "run_state (run_migrations (pg_runner sv path (Inr es))) w = ((applied, err), w')"
    and "load_dir path (Inr es) = Inr ms" and "distinct (map de_name es)"
  shows "sorted (map mg_name ms) \<and>
    ((\<exists>i j k. i \<le> j \<and> j \<le> k \<and> k \<le> i + 1 \<and> (reliable w \<longrightarrow> i = k)
       \<and> applied = map mg_name (take i (pending_files (w_db w) ms))
       \<and> recorded (w_db w') = recorded (w_db w) @ map mg_name (take j (pending_files (w_db w) ms))
       \<and> ddl (w_db w') = ddl (w_db w) @ map mg_sql (take k (pending_files (w_db w) ms)))
     \<or> recorded (w_db w) = [] \<and> sv_has_user sv (ddl (w_db w)) \<and> applied = []
       \<and> recorded (w_db w') = map mg_name ms \<and> ddl (w_db w') = ddl (w_db w))"
proof -
  from run_migrations_run [OF assms] show ?thesis
  proof (cases rule: pg_target.migratedE)
    case (loop i j k)
    have "w_db w' = ledgered (recorded (w_db w) @ map mg_name (take j (pending_files (w_db w) ms)))
         (executed (map mg_sql (take k (pending_files (w_db w) ms))) (w_db w))" by (rule movesD(1) [OF loop(5)])
    with loop load_dir_sorted [OF assms(2)] show ?thesis
      by (intro conjI disjI1 exI [of _ i] exI [of _ j] exI [of _ k]) simp_all
  next
    case (adopted names)
    then show ?thesis using load_dir_sorted [OF assms(2)] movesD(1) [OF adopted(5)] by (auto intro!: exI [of _ 0])
  next
    case untouched
    then show ?thesis using load_dir_sorted [OF assms(2)] movesD(1) [OF untouched(4)] by (auto intro!: exI [of _ 0])
  qed
qed


section \<open>Waiting for the database\<close>

text \<open>
  The attempts seen from outside: the state counts the attempts made and lists the waits; attempt
  number \<open>n\<close> ends as \<open>outcome n\<close> says, and the context is never cancelled.
\<close>

definition tried :: "(nat \<Rightarrow> gerror + 'a) \<Rightarrow> (nat \<times> int list, 'a) act" where
  "tried outcome = State (\<lambda>(n, ws). (outcome n, (n + 1, ws)))"

definition patient :: "(nat \<times> int list) context_ops" where
  "patient = \<lparr>ctx_err = ret None, ctx_after = (\<lambda>b. State (\<lambda>(n, ws). (None, (n, ws @ [b]))))\<rparr>"

fun backoffs :: "nat \<Rightarrow> int \<Rightarrow> int list" where
  "backoffs 0 b = []"
| "backoffs (Suc n) b = b # backoffs n (if max_connect_backoff < b * 2 then max_connect_backoff else b * 2)"

declare retry_loop.simps [simp del]

lemma patient_simps [simp]:
  "ctx_err patient = ret None" "run_state (ctx_after patient b) s = (None, (fst s, snd s @ [b]))"
  "run_state (tried outcome) s = (outcome (fst s), (fst s + 1, snd s))"
  by (simp_all add: patient_def tried_def split: prod.splits)

lemma retry_loop_run:
  "run_state (retry_loop patient attempts (tried outcome) n b) (m, ws) =
    (case find (\<lambda>i. is_ok (outcome i)) [m..<m + n + 1] of
       Some i \<Rightarrow> (outcome i, (i + 1, ws @ backoffs (i - m) b))
     | None \<Rightarrow> (Inl (wrap (''gave up after '' @ show_int attempts @ '' attempts: '') (projl (outcome (m + n)))),
         (m + n + 1, ws @ backoffs n b)))"
proof (induction n arbitrary: m b ws)
  case 0
  then show ?case by (subst retry_loop.simps) (cases "outcome m"; simp)
next
  case (Suc n)
  have up: "[m..<m + Suc n + 1] = m # [Suc m..<Suc m + n + 1]" by (simp add: upt_rec)
  show ?case
  proof (cases "outcome m")
    case (Inr x)
    then show ?thesis unfolding up by (subst retry_loop.simps) simp
  next
    case (Inl e)
    let ?b = "if max_connect_backoff < b * 2 then max_connect_backoff else b * 2"
    have later: "backoffs (i - m) b = b # backoffs (i - Suc m) ?b"
      if "find (\<lambda>i. is_ok (outcome i)) [Suc m..<Suc m + n + 1] = Some i" for i
    proof -
      have "Suc m \<le> i" using that by (metis atLeastLessThan_iff find_Some_iff nth_mem set_upt)
      then have "i - m = Suc (i - Suc m)" by simp
      then show ?thesis by simp
    qed
    have "run_state (retry_loop patient attempts (tried outcome) (Suc n) b) (m, ws)
        = run_state (retry_loop patient attempts (tried outcome) n ?b) (Suc m, ws @ [b])"
      by (subst retry_loop.simps) (simp add: Inl)
    then show ?thesis
      unfolding up using Inl later Suc.IH [of ?b "Suc m" "ws @ [b]"]
      by (simp only: find.simps is_ok.simps if_False) (cases "find (\<lambda>i. is_ok (outcome i)) [Suc m..<Suc m + n + 1]"; simp)
  qed
qed

lemma backoffs_bound:
  assumes "0 \<le> b" and "b \<le> max_connect_backoff"
  shows "length (backoffs n b) = n \<and> (\<forall>x \<in> set (backoffs n b). 0 \<le> x \<and> x \<le> max_connect_backoff)"
  using assms
proof (induction n arbitrary: b)
  case (Suc n)
  let ?b = "if max_connect_backoff < b * 2 then max_connect_backoff else b * 2"
  have "0 \<le> ?b" "?b \<le> max_connect_backoff" using Suc.prems by (simp_all add: max_connect_backoff_def second_def)
  from Suc.IH [OF this] Suc.prems show ?case by (simp only: backoffs.simps) simp
qed simp


section \<open>Worked examples\<close>

definition demo_server :: server where
  "demo_server = \<lparr>sv_accepts = \<lambda>before sql. None, sv_has_user = \<lambda>before. False\<rparr>"

definition demo_files :: "dir_entry list" where
  "demo_files = [\<lparr>de_name = ''01-create-database.sql'', de_is_dir = False, de_content = Inr ''CREATE DATABASE melia;''\<rparr>,
     \<lparr>de_name = ''02-schemas.sql'', de_is_dir = False, de_content = Inr (CHR 0x5C # ''connect melia'' @ [CHR 0x0A] @ ''CREATE SCHEMA core;'')\<rparr>,
     \<lparr>de_name = ''03-seg.sql'', de_is_dir = False, de_content = Inr ''CREATE TABLE t();''\<rparr>]"

definition demo_migrations :: "migration list" where
  "demo_migrations = [\<lparr>mg_name = ''02-schemas.sql'', mg_sql = ''CREATE SCHEMA core;''\<rparr>,
     \<lparr>mg_name = ''03-seg.sql'', mg_sql = ''CREATE TABLE t();''\<rparr>]"

lemma demo_load: "load_dir ''init'' (Inr demo_files) = Inr demo_migrations"
proof -
  have "load_entries demo_files = Inr demo_migrations" by code_simp
  moreover have "sort_key mg_name demo_migrations = demo_migrations" by code_simp
  ultimately show ?thesis by (simp add: load_dir_def)
qed

lemma demo_names: "distinct (map de_name demo_files)"
  by (simp add: demo_files_def)

abbreviation demo_migrate :: "(string list \<times> gerror option) eff" where
  "demo_migrate \<equiv> run_migrations (pg_runner demo_server ''init'' (Inr demo_files))"

lemma demo_pending: "pending_files empty_db demo_migrations = demo_migrations" "recorded empty_db = []"
  by (simp_all add: pending_files_def recorded_def)

lemma demo_accepts [simp]: "sv_accepts demo_server before sql = None" "sv_has_user demo_server before = False"
  by (simp_all add: demo_server_def)


lemma migrate_keeps_up_witness:
  "\<exists>k. ddl (w_db (snd (run_state demo_migrate (calm empty_db)))) = map mg_sql (take k demo_migrations)"
proof -
  obtain ap er w1 where one: "run_state demo_migrate (calm empty_db) = ((ap, er), w1)" by (metis prod.collapse)
  show ?thesis
    using migrate_keeps_up [OF one demo_load demo_names] by (auto simp: demo_pending one)
qed


end
