(* ===== verification/Social.thy ===== *)
theory Social
  imports Login
begin

text \<open>
  Package \<open>social\<close>: login with an ID token of Google or Apple (\<open>service.go\<close>), the PostgreSQL
  store of the links (\<open>postgres.go\<close>) and the OpenID Connect verifier with its cache of
  discovered providers (\<open>oidc.go\<close>). The library \<open>go-oidc\<close> is a parameter: discovery and
  verification are answers from outside, which may differ from call to call, so they depend on
  the world's step counter; what a token's claims are is a function of the verified token.
\<close>

section \<open>service.go, the types\<close>

definition err_social_invalid_token :: gerror where
  "err_social_invalid_token = Err ''social: the provider token is not valid''"

definition err_unknown_provider :: gerror where
  "err_unknown_provider = Err ''social: provider is not configured''"

definition err_no_identity :: gerror where
  "err_no_identity = Err ''social: no identity linked''"

record fed_identity =
  fi_provider :: string
  fi_subject :: string
  fi_email :: "string option"
  fi_email_verified :: bool
  fi_name :: "string option"

text \<open>\<open>Verifier\<close>: an object with a state of its own (\<open>'c\<close>), passed explicitly.\<close>

type_synonym 'c id_verifier = "'c \<Rightarrow> string \<Rightarrow> string \<Rightarrow> ((gerror + fed_identity) \<times> 'c) eff"

record social_store =
  st_user_id :: "string \<Rightarrow> string \<Rightarrow> string io"
  st_create :: "fed_identity \<Rightarrow> string io"

record 'c social_service =
  so_verifier :: "'c id_verifier"
  so_store :: social_store
  so_issuer :: issuer
  so_auditor :: "recorder option"

definition new_social :: "'c id_verifier \<Rightarrow> social_store \<Rightarrow> issuer \<Rightarrow> recorder option \<Rightarrow> 'c social_service" where
  "new_social v store iss aud = \<lparr>so_verifier = v, so_store = store, so_issuer = iss, so_auditor = aud\<rparr>"

section \<open>oidc.go\<close>

definition provider_google :: string where "provider_google = ''GOOGLE''"
definition provider_apple :: string where "provider_apple = ''APPLE''"

text \<open>What the ID token says; \<open>email_verified\<close> may be any JSON value, and null when absent.\<close>

record id_claims =
  ic_sub :: string
  ic_email :: string
  ic_email_verified :: jval
  ic_name :: string

record ('p, 'v, 'r) oidc_library =
  ol_new_provider :: "nat \<Rightarrow> string \<Rightarrow> gerror + 'p"
  ol_verifier :: "'p \<Rightarrow> string \<Rightarrow> 'v"
  ol_verify :: "nat \<Rightarrow> 'v \<Rightarrow> string \<Rightarrow> gerror + 'r"
  ol_claims :: "'r \<Rightarrow> gerror + id_claims"
  ol_text :: "gerror \<Rightarrow> string"

text \<open>
  \<open>OIDCVerifier\<close>; a Go map read at a missing key gives the empty string. The cache is the part
  that changes; its lock makes each lookup one step.
\<close>

record oidc_config =
  ov_client_ids :: "string \<Rightarrow> string"
  ov_issuers :: "string \<Rightarrow> string"

definition new_oidc_verifier :: "string \<Rightarrow> string \<Rightarrow> oidc_config" where
  "new_oidc_verifier google apple =
     \<lparr>ov_client_ids = (\<lambda>p. if p = provider_google then trim_space google
        else if p = provider_apple then trim_space apple else []),
      ov_issuers = (\<lambda>p. if p = provider_google then ''https://accounts.google.com''
        else if p = provider_apple then ''https://appleid.apple.com'' else [])\<rparr>"

definition oidc_configured :: "oidc_config \<Rightarrow> string \<Rightarrow> bool" where
  "oidc_configured v provider \<longleftrightarrow> ov_client_ids v (to_upper provider) \<noteq> []"

text \<open>An answer from outside the process that changes nothing here.\<close>

definition ask :: "(nat \<Rightarrow> 'a) \<Rightarrow> 'a eff" where
  "ask f = State (\<lambda>w. (f (w_step w), tickd w))"

definition verifier_for ::
  "('p, 'v, 'r) oidc_library \<Rightarrow> oidc_config \<Rightarrow> (string \<rightharpoonup> 'v) \<Rightarrow> string \<Rightarrow> ((gerror + 'v) \<times> (string \<rightharpoonup> 'v)) eff" where
  "verifier_for L v cache provider = (case cache provider of
       Some cached \<Rightarrow> ret (Inr cached, cache)
     | None \<Rightarrow> do {
         r \<leftarrow> ask (\<lambda>n. ol_new_provider L n (ov_issuers v provider));
         case r of
           Inl e \<Rightarrow> ret (Inl e, cache)
         | Inr discovered \<Rightarrow> do {
             let verifier = ol_verifier L discovered (ov_client_ids v provider);
             ret (Inr verifier, cache(provider \<mapsto> verifier)) } })"

definition claimed_identity :: "string \<Rightarrow> id_claims \<Rightarrow> fed_identity" where
  "claimed_identity provider c =
     \<lparr>fi_provider = provider, fi_subject = ic_sub c,
      fi_email = (if ic_email c \<noteq> [] then Some (to_lower (trim_space (ic_email c))) else None),
      fi_email_verified = (ic_email_verified c = JBool True \<or> ic_email_verified c = JStr ''true''),
      fi_name = (if ic_name c \<noteq> [] then Some (trim_space (ic_name c)) else None)\<rparr>"

definition oidc_verify :: "('p, 'v, 'r) oidc_library \<Rightarrow> oidc_config \<Rightarrow> (string \<rightharpoonup> 'v) id_verifier" where
  "oidc_verify L v cache raw_provider id_token = do {
     let provider = to_upper (trim_space raw_provider);
     if ov_client_ids v provider = [] then ret (Inl err_unknown_provider, cache)
     else do {
       (r, cache') \<leftarrow> verifier_for L v cache provider;
       case r of
         Inl e \<Rightarrow> ret (Inl (wrap (''social: preparing verifier for '' @ provider @ '': '') e), cache')
       | Inr verifier \<Rightarrow> do {
           t \<leftarrow> ask (\<lambda>n. ol_verify L n verifier id_token);
           case t of
             Inl e \<Rightarrow> ret (Inl (Wrapf [] err_social_invalid_token ('': '' @ ol_text L e)), cache')
           | Inr raw \<Rightarrow> (case ol_claims L raw of
               Inl e \<Rightarrow> ret (Inl (Wrapf [] err_social_invalid_token ('': reading claims: '' @ ol_text L e)), cache')
             | Inr claims \<Rightarrow>
                 if ic_sub claims = []
                 then ret (Inl (Wrapf [] err_social_invalid_token '': token has no subject''), cache')
                 else ret (Inr (claimed_identity provider claims), cache')) } } }"

section \<open>postgres.go\<close>

text \<open>The cast \<open>$1::identity_provider\<close> rejects a value outside the enum.\<close>

definition cast_provider :: "string \<Rightarrow> gerror + string" where
  "cast_provider p = (if p = ''GOOGLE'' \<or> p = ''APPLE'' then Inr p else Inl (PgError ''22P02'' []))"

definition linked :: "string \<Rightarrow> string \<Rightarrow> identity_row \<Rightarrow> bool" where
  "linked provider subject r \<longleftrightarrow> ui_provider r = provider \<and> ui_subject r = subject \<and> ui_deleted r = None"

definition pg_user_id_by_identity :: "string \<Rightarrow> string \<Rightarrow> string io" where
  "pg_user_id_by_identity provider subject = do {
     r \<leftarrow> pool_exec (\<lambda>t uuid d. case cast_provider provider of
         Inl e \<Rightarrow> Inl e
       | Inr p \<Rightarrow> Inr (select_one (linked p subject) (tb_user_identity d), d));
     case r of
       Inl e \<Rightarrow> fail (wrap ''selecting identity: '' e)
     | Inr None \<Rightarrow> fail err_no_identity
     | Inr (Some row) \<Rightarrow> ok (ui_user row) }"

definition fed_user :: "fed_identity \<Rightarrow> string option \<Rightarrow> int \<Rightarrow> string \<Rightarrow> user_row" where
  "fed_user i email t uuid = \<lparr>u_id = uuid, u_name = fi_name i, u_email = email, u_password = None,
     u_verified_at = (if fi_email_verified i \<and> email \<noteq> None then Some t else None), u_failed = 0,
     u_locked_until = None, u_status = ''ACTIVE'', u_created = t, u_updated = t, u_deleted = None\<rparr>"

definition fed_link :: "fed_identity \<Rightarrow> string \<Rightarrow> int \<Rightarrow> string \<Rightarrow> identity_row" where
  "fed_link i uid t uuid = \<lparr>ui_id = uuid, ui_user = uid, ui_provider = fi_provider i, ui_subject = fi_subject i,
     ui_email = fi_email i, ui_linked = t, ui_deleted = None\<rparr>"

definition pg_create_fed :: "fed_identity \<Rightarrow> string option \<Rightarrow> string io" where
  "pg_create_fed i email = check ''beginning transaction: '' pool_begin (\<lambda>_.
     deferred tx_rollback (
       tcheck ''inserting tb_user: '' (tx_exec (\<lambda>t uuid d.
         map_sum id (Pair uuid) (insert_user (fed_user i email t uuid) d))) (\<lambda>uid.
       tcheck ''inserting tb_user_identity: '' (tx_exec (insert_stmt (\<lambda>t uuid d.
         case cast_provider (fi_provider i) of
           Inl e \<Rightarrow> Inl e
         | Inr p \<Rightarrow> insert_identity (fed_link i uid t uuid) d))) (\<lambda>_.
       tcheck ''committing: '' tx_commit (\<lambda>_.
       leave True (Inr uid))))))"

definition email_unique_index :: string where
  "email_unique_index = ''ux_tb_user_email_active''"

definition pg_create_user_with_identity :: "fed_identity \<Rightarrow> string io" where
  "pg_create_user_with_identity i = do {
     let email = (if \<not> fi_email_verified i then None else fi_email i);
     r \<leftarrow> pg_create_fed i email;
     case r of
       Inl e \<Rightarrow>
         if email \<noteq> None \<and> as_pg_error e = Some (''23505'', email_unique_index) then pg_create_fed i None
         else fail e
     | Inr uid \<Rightarrow> ok uid }"

definition pg_social_store :: social_store where
  "pg_social_store = \<lparr>st_user_id = pg_user_id_by_identity, st_create = pg_create_user_with_identity\<rparr>"

section \<open>service.go, Authenticate\<close>

definition social_event :: "string \<Rightarrow> string \<Rightarrow> session_meta \<Rightarrow> (string \<times> jval) list \<Rightarrow> audit_event" where
  "social_event name uid meta md = (event name)\<lparr>ev_user := uid, ev_metadata := md,
     ev_ip := m_ip meta, ev_user_agent := m_user_agent meta\<rparr>"

text \<open>After the account is resolved: open the session and record the login.\<close>

definition open_social_session :: "'c social_service \<Rightarrow> fed_identity \<Rightarrow> session_meta \<Rightarrow> string \<Rightarrow> tokens io" where
  "open_social_session s i meta uid =
     attempt (so_issuer s uid meta) (\<lambda>toks. do {
       best_effort (so_auditor s) (social_event event_social_login uid meta [(''provider'', JStr (fi_provider i))]);
       ok toks })"

definition authenticate_identity :: "'c social_service \<Rightarrow> fed_identity \<Rightarrow> session_meta \<Rightarrow> tokens io" where
  "authenticate_identity s i meta = do {
     u \<leftarrow> st_user_id (so_store s) (fi_provider i) (fi_subject i);
     case u of
       Inr uid \<Rightarrow> open_social_session s i meta uid
     | Inl e \<Rightarrow>
         if errors_is e err_no_identity then
           check ''social: creating user: '' (st_create (so_store s) i) (\<lambda>uid. do {
             best_effort (so_auditor s) (social_event event_social_account_created uid meta
               [(''provider'', JStr (fi_provider i))]);
             open_social_session s i meta uid })
         else fail (wrap ''social: resolving identity: '' e) }"

definition authenticate ::
  "'c social_service \<Rightarrow> 'c \<Rightarrow> string \<Rightarrow> string \<Rightarrow> session_meta \<Rightarrow> ((gerror + tokens) \<times> 'c) eff" where
  "authenticate s c provider id_token meta = do {
     (v, c') \<leftarrow> so_verifier s c provider id_token;
     case v of
       Inl e \<Rightarrow>
         if errors_is e err_unknown_provider then ret (Inl err_unknown_provider, c')
         else do {
           best_effort (so_auditor s) (social_event event_social_login_failed [] meta
             [(''provider'', JStr provider), (''reason'', JStr ''invalid_token'')]);
           ret (Inl err_social_invalid_token, c') }
     | Inr i \<Rightarrow> do {
         r \<leftarrow> authenticate_identity s i meta;
         ret (r, c') } }"

end
