(* ===== verification/Social_Safety.thy ===== *)
theory Social_Safety
  imports Social Login_Safety
begin

text \<open>
  What a federated login guarantees. The locale \<open>token_verifier\<close> is the interface \<open>Verifier\<close>:
  verifying changes nothing here, and a proven identity names a known provider and a subject.
  \<open>social_spec\<close> is the visible behaviour of a login with a proven identity; \<open>resolve_effect\<close> shows
  the code implements it under every failure.
\<close>

section \<open>The verifier\<close>

text \<open>A step that only lets time pass.\<close>

definition quiet :: "world \<Rightarrow> world \<Rightarrow> bool" where
  "quiet w w' \<longleftrightarrow> moves w (w_db w) (w_tx w) (w_mq w) w'"

definition proven :: "fed_identity \<Rightarrow> bool" where
  "proven i \<longleftrightarrow> fi_provider i \<in> {provider_google, provider_apple} \<and> fi_subject i \<noteq> []"

locale token_verifier =
  fixes verify :: "'c id_verifier"
  assumes verify_frame: "wp (verify c p t) (\<lambda>(r, c') w'. quiet w w' \<and> (\<forall>i. r = Inr i \<longrightarrow> proven i)) w"
begin

lemma verify_step:
  assumes "moves w0 d tx q w"
    and "\<And>e c' w'. moves w0 d tx q w' \<Longrightarrow> w_clock w \<le> w_clock w' \<Longrightarrow> Q (Inl e, c') w'"
    and "\<And>i c' w'. proven i \<Longrightarrow> moves w0 d tx q w' \<Longrightarrow> w_clock w \<le> w_clock w' \<Longrightarrow> Q (Inr i, c') w'"
  shows "wp (verify c p t) Q w"
proof (rule wp_mono [OF verify_frame])
  fix rc :: "(gerror + fed_identity) \<times> 'c" and w' assume "(case rc of (r, c') \<Rightarrow> \<lambda>w'. quiet w w' \<and> (\<forall>i. r = Inr i \<longrightarrow> proven i)) w'"
  then obtain r c' where rc: "rc = (r, c')" "quiet w w'" "\<forall>i. r = Inr i \<longrightarrow> proven i" by (cases rc) auto
  have "moves w0 d tx q w'" "w_clock w \<le> w_clock w'"
    using assms(1) rc(2) same_oracles_trans [of w0 w w'] by (auto simp: quiet_def moves_def dest: same_oracles_clock)
  then show "Q rc w'" using assms(2,3) rc by (cases r) auto
qed

end

lemma known_providers:
  assumes "ov_client_ids (new_oidc_verifier google apple) p \<noteq> []"
  shows "p \<in> {provider_google, provider_apple}"
  using assms by (auto simp: new_oidc_verifier_def split: if_splits)

lemma wp_ask [wp]: "wp (ask f) Q w = Q (f (w_step w)) (tickd w)"
  by (simp add: ask_def wp_State)

lemma quiet_tickd: "quiet w w" "quiet w w' \<Longrightarrow> quiet w (tickd w')"
  by (auto simp: quiet_def moves_refl moves_tickd)

lemma oidc_verify_frame:
  "wp (oidc_verify L (new_oidc_verifier google apple) c p t) (\<lambda>(r, c') w'. quiet w w' \<and> (\<forall>i. r = Inr i \<longrightarrow> proven i)) w"
  by (auto simp: oidc_verify_def verifier_for_def Let_def wp proven_def claimed_identity_def known_providers [simplified]
      quiet_tickd split: sum.splits option.splits)

interpretation oidc: token_verifier "oidc_verify L (new_oidc_verifier google apple)" for L google apple
  by unfold_locales (rule oidc_verify_frame)

section \<open>The steps of the store\<close>

lemma social_store_simps [simp]:
  "st_user_id pg_social_store = pg_user_id_by_identity" "st_create pg_social_store = pg_create_user_with_identity"
  by (simp_all add: pg_social_store_def)

lemma social_errors [simp]:
  "errors_is err_no_identity err_no_identity" "Wrapf p e x \<noteq> err_no_identity" "ExtError m \<noteq> err_no_identity"
  "PgError a b \<noteq> err_no_identity" "\<not> errors_is (ExtError m) err_no_identity" "\<not> errors_is (PgError a b) err_no_identity"
  by (simp_all add: err_no_identity_def)

lemma proven_cast: "proven i \<Longrightarrow> cast_provider (fi_provider i) = Inr (fi_provider i)"
  by (auto simp: proven_def cast_provider_def provider_google_def provider_apple_def)

lemma pg_user_id_step:
  assumes "moves w0 d tx q w" and "proven i"
    and "\<And>p m w'. \<not> reliable w0 \<Longrightarrow> moves w0 d tx q w' \<Longrightarrow> w_clock w \<le> w_clock w' \<Longrightarrow> Q (Inl (wrap p (ExtError m))) w'"
    and "\<And>w'. select_one (linked (fi_provider i) (fi_subject i)) (tb_user_identity d) = None \<Longrightarrow> moves w0 d tx q w' \<Longrightarrow>
           w_clock w \<le> w_clock w' \<Longrightarrow> Q (Inl err_no_identity) w'"
    and "\<And>r w'. select_one (linked (fi_provider i) (fi_subject i)) (tb_user_identity d) = Some r \<Longrightarrow> moves w0 d tx q w' \<Longrightarrow>
           w_clock w \<le> w_clock w' \<Longrightarrow> Q (Inr (ui_user r)) w'"
  shows "wp (pg_user_id_by_identity (fi_provider i) (fi_subject i)) Q w"
  unfolding pg_user_id_by_identity_def wp_code
  by (rule pool_exec_step [OF assms(1)]) (auto intro: assms simp: proven_cast [OF assms(2)] simp del: select_one_None split: option.splits)

text \<open>The account and the link a first login creates.\<close>

definition enrolled :: "fed_identity \<Rightarrow> string option \<Rightarrow> user_row list \<Rightarrow> identity_row list \<Rightarrow> user_row \<Rightarrow> identity_row \<Rightarrow> bool" where
  "enrolled i email users links u l \<longleftrightarrow>
     u_id u \<notin> set (map u_id users) \<and> u_email u = email \<and> email_free email users \<and> u_password u = None \<and>
     u_status u = ''ACTIVE'' \<and> u_deleted u = None \<and> (email = None \<longrightarrow> u_verified_at u = None) \<and>
     linked (fi_provider i) (fi_subject i) l \<and> ui_user l = u_id u \<and> ui_id l \<notin> set (map ui_id links)"

lemma enroll_inserts:
  assumes "map_sum id (Pair uuid) (insert_user (fed_user i email t uuid) d) = Inr (uid, d1)"
    and "(case insert_identity (fed_link i uid t uuid') d1 of Inl e \<Rightarrow> Inl e | Inr d' \<Rightarrow> Inr ((), d')) = Inr ((), d2)"
  shows "\<exists>u l. enrolled i email (tb_user d) (tb_user_identity d) u l \<and> uid = u_id u \<and>
    d2 = d\<lparr>tb_user := tb_user d @ [u], tb_user_identity := tb_user_identity d @ [l]\<rparr>"
proof -
  from assms(1) have u: "uid = uuid" "insert_user (fed_user i email t uuid) d = Inr d1"
    by (cases "insert_user (fed_user i email t uuid) d"; simp)+
  moreover from assms(2) have "insert_identity (fed_link i uid t uuid') d1 = Inr d2"
    by (simp split: sum.splits)
  ultimately show ?thesis
    by (intro exI [of _ "fed_user i email t uuid"] exI [of _ "fed_link i uid t uuid'"])
      (auto simp: insert_user_Inr insert_identity_Inr enrolled_def linked_def fed_user_def fed_link_def)
qed

lemma pg_create_fed_step:
  assumes "moves w0 d None q w" and "proven i"
    and "\<And>e w'. moves w0 d None q w' \<Longrightarrow> w_clock w \<le> w_clock w' \<Longrightarrow> Q (Inl e) w'"
    and "\<And>e u l w'. as_pg_error e = None \<Longrightarrow> enrolled i email (tb_user d) (tb_user_identity d) u l \<Longrightarrow>
           moves w0 (d\<lparr>tb_user := tb_user d @ [u], tb_user_identity := tb_user_identity d @ [l]\<rparr>) None q w' \<Longrightarrow>
           w_clock w \<le> w_clock w' \<Longrightarrow> Q (Inl e) w'"
    and "\<And>u l w'. enrolled i email (tb_user d) (tb_user_identity d) u l \<Longrightarrow>
           moves w0 (d\<lparr>tb_user := tb_user d @ [u], tb_user_identity := tb_user_identity d @ [l]\<rparr>) None q w' \<Longrightarrow>
           w_clock w \<le> w_clock w' \<Longrightarrow> Q (Inr (u_id u)) w'"
  shows "wp (pg_create_fed i email) Q w"
  unfolding pg_create_fed_def
  apply (insert assms(1))
  apply (((erule wp_steps)+)?; clarsimp simp: wp_code proven_cast [OF assms(2)] assms(3); (intro conjI impI)?)+
   apply (drule (1) enroll_inserts; clarsimp simp: assms(4,5))+
  apply (erule wp_steps; clarsimp simp: assms(4))
  done


section \<open>What a login with a proven identity does\<close>

text \<open>The address an account gets: the provider's if it is verified and nobody has it, or none.\<close>

definition stored_email :: "fed_identity \<Rightarrow> user_row list \<Rightarrow> string option" where
  "stored_email i users = (if fi_email_verified i \<and> email_free (fi_email i) users then fi_email i else None)"

lemma pg_create_user_step:
  assumes "moves w0 d None q w" and "proven i"
    and "\<And>e w'. moves w0 d None q w' \<Longrightarrow> w_clock w \<le> w_clock w' \<Longrightarrow> Q (Inl e) w'"
    and "\<And>e email u l w'. email = stored_email i (tb_user d) \<or> email = None \<Longrightarrow>
           enrolled i email (tb_user d) (tb_user_identity d) u l \<Longrightarrow>
           moves w0 (d\<lparr>tb_user := tb_user d @ [u], tb_user_identity := tb_user_identity d @ [l]\<rparr>) None q w' \<Longrightarrow>
           w_clock w \<le> w_clock w' \<Longrightarrow> Q (Inl e) w'"
    and "\<And>email u l w'. email = stored_email i (tb_user d) \<or> email = None \<Longrightarrow>
           enrolled i email (tb_user d) (tb_user_identity d) u l \<Longrightarrow>
           moves w0 (d\<lparr>tb_user := tb_user d @ [u], tb_user_identity := tb_user_identity d @ [l]\<rparr>) None q w' \<Longrightarrow>
           w_clock w \<le> w_clock w' \<Longrightarrow> Q (Inr (u_id u)) w'"
  shows "wp (pg_create_user_with_identity i) Q w"
proof -
  let ?e = "if \<not> fi_email_verified i then None else fi_email i"
  have email: "?e = stored_email i (tb_user d) \<or> ?e = None"
    if "enrolled i ?e (tb_user d) (tb_user_identity d) u l" for u l
    using that by (auto simp: enrolled_def stored_email_def)
  have retry: "wp (pg_create_fed i None) Q w'" if "moves w0 d None q w'" "w_clock w \<le> w_clock w'" for w'
    by (rule pg_create_fed_step [OF that(1) assms(2)]) (use that(2) in \<open>auto intro: assms(3-5) order_trans\<close>)
  show ?thesis
    unfolding pg_create_user_with_identity_def Let_def wp_code
    by (rule pg_create_fed_step [OF assms(1,2)])
      (simp_all only: wp_code sum.case, auto simp del: if_split intro: assms(3) assms(4,5) [OF email] retry split: if_splits)
qed

definition opened :: "string \<Rightarrow> gerror + tokens \<Rightarrow> refresh_row list \<Rightarrow> bool" where
  "opened uid r new \<longleftrightarrow> new = [] \<and> \<not> is_ok r \<or> (\<exists>n. new = [n] \<and> rt_user n = uid \<and> rt_revoked n = None)"

inductive social_spec :: "fed_identity \<Rightarrow> user_row list \<Rightarrow> identity_row list \<Rightarrow>
    gerror + tokens \<Rightarrow> user_row list \<Rightarrow> identity_row list \<Rightarrow> refresh_row list \<Rightarrow> bool"
  for i :: fed_identity and users :: "user_row list" and links :: "identity_row list"
where
  failed: "social_spec i users links (Inl e) users links []"
| known: "select_one (linked (fi_provider i) (fi_subject i)) links = Some l \<Longrightarrow> opened (ui_user l) r new \<Longrightarrow>
    social_spec i users links r users links new"
| created: "select_one (linked (fi_provider i) (fi_subject i)) links = None \<Longrightarrow>
    email = stored_email i users \<or> email = None \<Longrightarrow> enrolled i email users links u l \<Longrightarrow> opened (u_id u) r new \<Longrightarrow>
    social_spec i users links r (users @ [u]) (links @ [l]) new"

inductive_cases social_specE: "social_spec i users links r users' links' new"

definition social_post :: "fed_identity \<Rightarrow> world \<Rightarrow> gerror + tokens \<Rightarrow> world \<Rightarrow> bool" where
  "social_post i w r w' \<longleftrightarrow> (\<exists>new.
     db_changes {T_user, T_refresh_token, T_user_identity} (w_db w) (w_db w') \<and> w_tx w' = None \<and>
     w_mq w' = w_mq w \<and> same_oracles w w' \<and> token_rows w' = token_rows w @ new \<and>
     social_spec i (tb_user (w_db w)) (tb_user_identity (w_db w)) r (tb_user (w_db w')) (tb_user_identity (w_db w')) new)"

lemma social_postI:
  assumes "moves w d' None (w_mq w) w'" and "db_changes {T_user, T_refresh_token, T_user_identity} (w_db w) d'"
    and "tb_refresh_token d' = token_rows w @ new"
    and "social_spec i (tb_user (w_db w)) (tb_user_identity (w_db w)) r (tb_user d') (tb_user_identity d') new"
  shows "social_post i w r w'"
  using assms movesD [OF assms(1)] unfolding social_post_def by auto

lemma social_post_failed:
  assumes "moves w d' None (w_mq w) w'" and "db_changes {T_user, T_refresh_token, T_user_identity} (w_db w) d'"
    and "tb_refresh_token d' = token_rows w" and "tb_user d' = tb_user (w_db w)"
    and "tb_user_identity d' = tb_user_identity (w_db w)"
  shows "social_post i w (Inl e) w'"
  by (rule social_postI [where new = "[]", OF assms(1,2)]) (simp_all add: assms(3-5) social_spec.failed)

lemma social_post_known:
  assumes "moves w d' None (w_mq w) w'" and "db_changes {T_user, T_refresh_token, T_user_identity} (w_db w) d'"
    and "tb_refresh_token d' = token_rows w @ new" and "tb_user d' = tb_user (w_db w)"
    and "tb_user_identity d' = tb_user_identity (w_db w)"
    and "select_one (linked (fi_provider i) (fi_subject i)) (tb_user_identity (w_db w)) = Some l" and "opened (ui_user l) r new"
  shows "social_post i w r w'"
  by (rule social_postI [OF assms(1-3)]) (simp only: assms(4,5) social_spec.known [OF assms(6,7)])

lemma social_post_created:
  assumes "moves w d' None (w_mq w) w'" and "db_changes {T_user, T_refresh_token, T_user_identity} (w_db w) d'"
    and "tb_refresh_token d' = token_rows w @ new" and "tb_user d' = tb_user (w_db w) @ [u]"
    and "tb_user_identity d' = tb_user_identity (w_db w) @ [l]"
    and "select_one (linked (fi_provider i) (fi_subject i)) (tb_user_identity (w_db w)) = None"
    and "email = stored_email i (tb_user (w_db w)) \<or> email = None"
    and "enrolled i email (tb_user (w_db w)) (tb_user_identity (w_db w)) u l" and "opened (u_id u) r new"
  shows "social_post i w r w'"
  by (rule social_postI [OF assms(1-3)]) (simp only: assms(4,5) social_spec.created [OF assms(6-9)])

lemma opened_simps [simp]: "opened uid (Inl e) []" "opened uid r [n] = (rt_user n = uid \<and> rt_revoked n = None)"
  by (simp_all add: opened_def)

definition quiet_but_log :: "world \<Rightarrow> world \<Rightarrow> bool" where
  "quiet_but_log w w' \<longleftrightarrow> db_changes {} (w_db w) (w_db w') \<and> same_oracles w w' \<and> w_tx w' = None \<and> w_mq w' = w_mq w"

locale social_env = session_issuer issuer ttl + auditing auditor + token_verifier verify
  for issuer ttl auditor and verify :: "'c id_verifier"
begin

lemma open_session_step:
  assumes "so_issuer s = issuer" and "so_auditor s = auditor" and "moves w0 d None q w"
    and "\<And>r es new w'. opened uid r new \<Longrightarrow> moves w0 (d\<lparr>tb_refresh_token := tb_refresh_token d @ new,
           tb_security_event := tb_security_event d @ es\<rparr>) None q w' \<Longrightarrow> w_clock w \<le> w_clock w' \<Longrightarrow> Q r w'"
  shows "wp (open_social_session s i meta uid) Q w"
proof -
  have keep: "d\<lparr>tb_refresh_token := tb_refresh_token d @ [], tb_security_event := tb_security_event d @ []\<rparr> = d" by simp
  have keep': "d\<lparr>tb_refresh_token := rows, tb_security_event := tb_security_event d @ []\<rparr> = d\<lparr>tb_refresh_token := rows\<rparr>" for rows
    by simp
  note failed = assms(4) [where new = "[]" and es = "[]", unfolded keep]
  note issued = assms(4) [where new = "[n]" and es = "[]" for n, unfolded keep']
  show ?thesis
    unfolding open_social_session_def assms(1,2)
    apply (insert assms(3))
    apply (((erule wp_steps issuer_step best_effort_step)+)?; clarsimp simp: wp_code issued_row_def failed issued simp del: set_map;
        (rule state_cases)?)+
    by (rule assms(4) [rotated], assumption) simp_all
qed

lemma resolve_effect:
  assumes "so_issuer s = issuer" and "so_auditor s = auditor" and "so_store s = pg_social_store" and "w_tx w = None" and "proven i"
    and m: "moves w (w_db w) None (w_mq w) w'" "w_clock w \<le> w_clock w'"
  shows "wp (authenticate_identity s i meta) (social_post i w) w'"
proof -
  note post = social_post_failed social_post_known social_post_created
  show ?thesis
    unfolding authenticate_identity_def assms(2,3) social_store_simps wp_code
    apply (rule pg_user_id_step [OF m(1) assms(5)])
      apply (simp add: wp_code post)
     apply (simp add: wp_code del: select_one_None)
     apply (erule pg_create_user_step [OF _ assms(5)]; clarsimp simp: wp_code post simp del: select_one_None)
     apply (erule best_effort_step)
     apply (erule open_session_step [OF assms(1,2)])
     apply (erule social_post_created, simp, simp, simp, simp, assumption, assumption, assumption, assumption)
    apply (simp add: wp_code)
    apply (erule open_session_step [OF assms(1,2)])
    apply (erule social_post_known, simp, simp, simp, simp, assumption, assumption)
    done
qed

lemma authenticate_effect:
  assumes "so_issuer s = issuer" and "so_auditor s = auditor" and "so_store s = pg_social_store"
    and "so_verifier s = verify" and "w_tx w = None"
  shows "wp (authenticate s c p t meta) (\<lambda>(r, c') w'. case fst (fst (run_state (verify c p t) w)) of
      Inl e \<Rightarrow> \<not> is_ok r \<and> quiet_but_log w w'
    | Inr i \<Rightarrow> proven i \<and> social_post i w r w') w"
proof -
  obtain v c1 w1 where run: "run_state (verify c p t) w = ((v, c1), w1)" by (metis prod.collapse)
  have v: "quiet w w1" "\<And>i. v = Inr i \<Longrightarrow> proven i" using wpD [OF verify_frame run] by auto
  then have m: "moves w (w_db w) None (w_mq w) w1" by (simp add: quiet_def assms(5))
  note [simp] = assms(4) run
  show ?thesis
  proof (cases v)
    case (Inl e)
    have log: "quiet_but_log w w2" if "moves w ((w_db w)\<lparr>tb_security_event := tb_security_event (w_db w) @ es\<rparr>) None (w_mq w) w2" for w2 es
      using movesD [OF that] by (simp add: quiet_but_log_def)
    have quiet: "quiet_but_log w w1" using movesD [OF m] by (simp add: quiet_but_log_def)
    have "wp (best_effort auditor ev) (\<lambda>_ w'. quiet_but_log w w') w1" for ev
      by (rule best_effort_step [OF m]) (rule log)
    then show ?thesis using Inl quiet by (simp add: authenticate_def wp wp_run assms(2))
  next
    case (Inr i)
    then show ?thesis
      using resolve_effect [OF assms(1-3,5) v(2) [OF Inr] m movesD(5) [OF m], of meta] v(2) [OF Inr]
      by (simp add: authenticate_def wp wp_run)
  qed
qed

end

interpretation pg_social: social_env "issue J cfg pg_store_refresh_token" "sc_refresh_ttl cfg" "Some (pg_record k)"
    "oidc_verify L (new_oidc_verifier google apple)" for J cfg k L google apple
  by unfold_locales


section \<open>Properties\<close>

text \<open>A service as \<open>cmd/api\<close> wires it.\<close>

definition pg_social_service ::
  "('p, 'v, 'r) oidc_library \<Rightarrow> string \<Rightarrow> string \<Rightarrow> jwt_lib \<Rightarrow> session_config \<Rightarrow> string \<Rightarrow> (string \<rightharpoonup> 'v) social_service" where
  "pg_social_service L google apple J cfg k =
     new_social (oidc_verify L (new_oidc_verifier google apple)) pg_social_store (issue J cfg pg_store_refresh_token) (Some (pg_record k))"

text \<open>What the verifier answers when it is asked now.\<close>

definition verified_now ::
  "('p, 'v, 'r) oidc_library \<Rightarrow> string \<Rightarrow> string \<Rightarrow> (string \<rightharpoonup> 'v) \<Rightarrow> string \<Rightarrow> string \<Rightarrow> world \<Rightarrow> gerror + fed_identity" where
  "verified_now L google apple c p t w = fst (fst (run_state (oidc_verify L (new_oidc_verifier google apple) c p t) w))"

lemma pg_social_fields [simp]:
  "so_verifier (pg_social_service L g a J cfg k) = oidc_verify L (new_oidc_verifier g a)"
  "so_store (pg_social_service L g a J cfg k) = pg_social_store"
  "so_issuer (pg_social_service L g a J cfg k) = issue J cfg pg_store_refresh_token"
  "so_auditor (pg_social_service L g a J cfg k) = Some (pg_record k)"
  by (simp_all add: pg_social_service_def new_social_def)

lemma authenticate_run:
  assumes "run_state (authenticate (pg_social_service L g a J cfg k) c p t meta) w = ((r, c'), w')" and "w_tx w = None"
  shows "(\<exists>e. verified_now L g a c p t w = Inl e \<and> \<not> is_ok r \<and> quiet_but_log w w')
    \<or> (\<exists>i. verified_now L g a c p t w = Inr i \<and> proven i \<and> social_post i w r w')"
  using wpD [OF pg_social.authenticate_effect [OF pg_social_fields(3,4,2,1) assms(2)] assms(1)]
  by (auto simp: verified_now_def split: sum.splits)

lemma quiet_rows:
  assumes "quiet_but_log w w'"
  shows "tb_user (w_db w') = tb_user (w_db w)" "tb_user_identity (w_db w') = tb_user_identity (w_db w)"
    "token_rows w' = token_rows w"
  using assms db_changesD [of "{}" "w_db w" "w_db w'" T_user] db_changesD [of "{}" "w_db w" "w_db w'" T_user_identity]
    db_changesD [of "{}" "w_db w" "w_db w'" T_refresh_token]
  by (simp_all add: quiet_but_log_def)

lemma linked_after:
  assumes "\<forall>r \<in> set links. \<not> linked p x r" and "linked p x l"
  shows "select_one (linked p x) (links @ [l]) = Some l"
  using assms select_one_None [of "linked p x" links] by (simp add: select_one_append del: select_one_None)

lemma social_post_ok:
  assumes "social_post i w (Inr toks) w1"
  shows "\<exists>n l. token_rows w1 = token_rows w @ [n] \<and> rt_user n = ui_user l \<and>
    select_one (linked (fi_provider i) (fi_subject i)) (tb_user_identity (w_db w1)) = Some l"
  using assms unfolding social_post_def
  by (auto simp: opened_def enrolled_def linked_after elim!: social_specE simp del: set_map)


text \<open>An account created by a federated login carries an address only if the provider vouches
  for it and no live account has it, is marked verified only with an address, has no password, and the database's
  constraints hold afterwards.\<close>

theorem social_email_proven:
  assumes "run_state (authenticate (pg_social_service L g a J cfg k) c p t meta) w = ((r, c'), w')" and "w_tx w = None"
    and "u \<in> set (tb_user (w_db w'))" and "u \<notin> set (tb_user (w_db w))"
  shows "\<exists>i. verified_now L g a c p t w = Inr i \<and> u_password u = None \<and> u_status u = ''ACTIVE''
    \<and> (u_email u = None \<longrightarrow> u_verified_at u = None)
    \<and> (\<forall>e. u_email u = Some e \<longrightarrow> fi_email_verified i \<and> fi_email i = Some e \<and> \<not> list_ex (owns_email e) (tb_user (w_db w)))"
  using authenticate_run [OF assms(1,2)]
proof (elim disjE exE conjE)
  fix e assume "quiet_but_log w w'"
  then show ?thesis using assms(3,4) by (simp add: quiet_rows)
next
  fix i assume i: "verified_now L g a c p t w = Inr i" and "social_post i w r w'"
  then obtain new where "social_spec i (tb_user (w_db w)) (tb_user_identity (w_db w)) r (tb_user (w_db w')) (tb_user_identity (w_db w')) new"
    unfolding social_post_def by blast
  then show ?thesis
    by (cases rule: social_specE) (use assms(3,4) i in \<open>auto simp: enrolled_def stored_email_def email_free_def split: if_splits\<close>)
qed

text \<open>The same subject is the same account: after a successful login, a later one whose token
  proves the same provider and subject, over the same links, creates no account and opens sessions for nobody
  but the account of the first, whatever address or name the provider sends meanwhile.\<close>

theorem social_same_account:
  assumes "run_state (authenticate (pg_social_service L g a J cfg k) c p t meta) w = ((Inr toks, c'), w1)" and "w_tx w = None"
    and "run_state (authenticate (pg_social_service L g a J cfg k) c2 p2 t2 meta2) w2 = ((r2, c2'), w3)" and "w_tx w2 = None"
    and "verified_now L g a c p t w = Inr i" and "verified_now L g a c2 p2 t2 w2 = Inr i2"
    and "fi_provider i2 = fi_provider i" and "fi_subject i2 = fi_subject i"
    and "tb_user_identity (w_db w2) = tb_user_identity (w_db w1)"
  shows "\<exists>n new. token_rows w1 = token_rows w @ [n] \<and> tb_user (w_db w3) = tb_user (w_db w2)
    \<and> token_rows w3 = token_rows w2 @ new \<and> (\<forall>m \<in> set new. rt_user m = rt_user n)"
proof -
  from authenticate_run [OF assms(1,2)] assms(5) have "social_post i w (Inr toks) w1" by auto
  then obtain n l where n: "token_rows w1 = token_rows w @ [n]" "rt_user n = ui_user l"
    and l: "select_one (linked (fi_provider i) (fi_subject i)) (tb_user_identity (w_db w1)) = Some l"
    using social_post_ok by blast
  from authenticate_run [OF assms(3,4)] assms(6) obtain new where new: "token_rows w3 = token_rows w2 @ new"
    and "social_spec i2 (tb_user (w_db w2)) (tb_user_identity (w_db w2)) r2 (tb_user (w_db w3)) (tb_user_identity (w_db w3)) new"
    by (auto simp: social_post_def)
  from this(2) have "tb_user (w_db w3) = tb_user (w_db w2) \<and> (\<forall>m \<in> set new. rt_user m = ui_user l)"
    using l select_one_SomeD [OF l]
    by (cases rule: social_spec.cases) (auto simp: assms(7-9) opened_def)
  with n new show ?thesis by auto
qed


section \<open>The status of a linked account\<close>

text \<open>
  A known identity goes straight to its session: neither the status nor the deletion mark of the
  account is read, so a suspended user still logs in this way.
\<close>

theorem social_ignores_status:
  assumes "reliable w" and "proven i"
    and "select_one (linked (fi_provider i) (fi_subject i)) (tb_user_identity (w_db w)) = Some l"
  shows "run_state (authenticate_identity (pg_social_service L g a J cfg k) i meta) w
       = run_state (open_social_session (pg_social_service L g a J cfg k) i meta (ui_user l)) (tickd w)"
proof -
  have "run_state (pg_user_id_by_identity (fi_provider i) (fi_subject i)) w = (Inr (ui_user l), tickd w)"
    using assms(1,3) by (simp add: pg_user_id_by_identity_def pool_exec_def proven_cast [OF assms(2)] del: select_one_None)
  then show ?thesis by (simp add: authenticate_identity_def)
qed

section \<open>Worked examples\<close>

text \<open>A provider that vouches for one subject, with the token as its address.\<close>

definition demo_oidc :: "(unit, unit, string) oidc_library" where
  "demo_oidc = \<lparr>ol_new_provider = \<lambda>n url. Inr (), ol_verifier = \<lambda>u cid. (), ol_verify = \<lambda>n v tok. Inr tok,
     ol_claims = \<lambda>email. Inr \<lparr>ic_sub = ''42'', ic_email = email, ic_email_verified = JBool True, ic_name = ''Ana''\<rparr>,
     ol_text = \<lambda>e. []\<rparr>"

abbreviation demo_social :: "string \<Rightarrow> world \<Rightarrow> ((gerror + tokens) \<times> (string \<rightharpoonup> unit)) \<times> world" where
  "demo_social email \<equiv> run_state (authenticate (pg_social_service demo_oidc ''client'' [] demo_jwt demo_config ''k'')
     Map.empty ''google'' email demo_meta)"

definition demo_fed :: "string \<Rightarrow> fed_identity" where
  "demo_fed email = \<lparr>fi_provider = ''GOOGLE'', fi_subject = ''42'', fi_email = Some email, fi_email_verified = True, fi_name = Some ''Ana''\<rparr>"

lemma demo_google: "to_upper (trim_space ''google'') = ''GOOGLE''" "trim_space ''client'' = ''client''" "trim_space ''Ana'' = ''Ana''"
  "to_lower (trim_space ''ana@example.com'') = ''ana@example.com''" "to_lower (trim_space ''eva@example.com'') = ''eva@example.com''"
  by code_simp+

lemma demo_verified:
  assumes "email = ''ana@example.com'' \<or> email = ''eva@example.com''"
  shows "verified_now demo_oidc ''client'' [] Map.empty ''google'' email w = Inr (demo_fed email)"
proof -
  have "wp (oidc_verify demo_oidc (new_oidc_verifier ''client'' []) Map.empty ''google'' email)
      (\<lambda>rc w'. fst rc = Inr (demo_fed email)) w"
    using assms demo_google
    by (auto simp: oidc_verify_def verifier_for_def Let_def wp demo_oidc_def new_oidc_verifier_def provider_google_def
        claimed_identity_def demo_fed_def)
  then show ?thesis by (simp add: verified_now_def wp_run)
qed


lemma demo_social_ok:
  assumes "email = ''ana@example.com'' \<or> email = ''eva@example.com''"
  shows "is_ok (fst (fst (demo_social email (calm empty_db))))"
proof -
  let ?s = "pg_social_service demo_oidc ''client'' [] demo_jwt demo_config ''k''"
  obtain c1 w1 where run: "run_state (oidc_verify demo_oidc (new_oidc_verifier ''client'' []) Map.empty ''google'' email) (calm empty_db)
      = ((Inr (demo_fed email), c1), w1)"
    using demo_verified [OF assms, of "calm empty_db"] unfolding verified_now_def by (metis prod.collapse)
  have m: "moves (calm empty_db) empty_db None [] w1"
    using wpD [OF oidc_verify_frame run] by (simp add: quiet_def)
  have p: "proven (demo_fed email)" by (simp add: proven_def demo_fed_def provider_google_def)
  have cast: "cast_provider ''GOOGLE'' = Inr ''GOOGLE''" by (simp add: cast_provider_def)
  have "wp (authenticate_identity ?s (demo_fed email) demo_meta) (\<lambda>r w'. is_ok r) w1"
    unfolding authenticate_identity_def pg_social_fields social_store_simps pg_user_id_by_identity_def pg_create_user_with_identity_def
      pg_create_fed_def open_social_session_def Let_def
    apply (insert m)
    apply (((erule wp_steps pg_audit.best_effort_step demo_issue_step)+)?; clarsimp simp: wp_code cast insert_user_def
       fed_user_def demo_fed_def email_free_def insert_identity_def fed_link_def split: if_splits; (intro conjI impI)?)+
    done
  then show ?thesis by (auto simp: authenticate_def wp_run run split: prod.splits)
qed


text \<open>The first login of the subject, and one with another address over the links it left.\<close>

definition first_world :: world where
  "first_world = snd (demo_social ''ana@example.com'' (calm empty_db))"

definition later_world :: world where
  "later_world = calm ((w_db first_world)\<lparr>tb_refresh_token := []\<rparr>)"

lemma first_run: "\<exists>toks c'. demo_social ''ana@example.com'' (calm empty_db) = ((Inr toks, c'), first_world)"
  using demo_social_ok [of "''ana@example.com''"] unfolding first_world_def by (metis is_ok.elims(2) prod.collapse)

lemma first_user: "\<exists>u. tb_user (w_db first_world) = [u]"
proof -
  obtain toks c' where "demo_social ''ana@example.com'' (calm empty_db) = ((Inr toks, c'), first_world)" using first_run by blast
  from authenticate_run [OF this] obtain i where "social_post i (calm empty_db) (Inr toks) first_world" by auto
  then show ?thesis by (auto simp: social_post_def opened_def elim!: social_specE)
qed


lemma social_email_proven_witness:
  "\<exists>u. tb_user (w_db first_world) = [u] \<and> u_password u = None \<and> u_email u \<in> {None, Some ''ana@example.com''}"
proof -
  obtain toks c' where run: "demo_social ''ana@example.com'' (calm empty_db) = ((Inr toks, c'), first_world)" using first_run by blast
  obtain u where u: "tb_user (w_db first_world) = [u]" using first_user by blast
  show ?thesis
    using social_email_proven [OF run _, of u] demo_verified [of "''ana@example.com''" "calm empty_db"] u
    by (cases "u_email u") (auto simp: demo_fed_def)
qed

lemma social_same_account_witness:
  "tb_user (w_db (snd (demo_social ''eva@example.com'' later_world))) = tb_user (w_db later_world)"
proof -
  obtain toks c' where run: "demo_social ''ana@example.com'' (calm empty_db) = ((Inr toks, c'), first_world)" using first_run by blast
  obtain r2 c2 w3 where run2: "demo_social ''eva@example.com'' later_world = ((r2, c2), w3)" by (metis prod.collapse)
  show ?thesis
    using social_same_account [OF run _ run2 _ demo_verified demo_verified] run2 by (auto simp: later_world_def demo_fed_def)
qed

end
