(* ===== verification/Http.thy ===== *)
theory Http
  imports Session Identity Json_Text
begin

text \<open>
  What the handlers of package \<open>httpapi\<close> share: requests and responses, the decoding of JSON
  bodies into Go structs, the error envelope (\<open>router.go\<close>, \<open>auth.go\<close>), the bearer token and
  permission middleware (\<open>authmw.go\<close>), the two transports of a token pair (\<open>cookies.go\<close>) and the
  query parameters of the listings. A request's body is its bytes, read by \<open>Json_Text\<close>; the body of a response is
  kept as the tree its text denotes. The address and time parsers of the standard library and
  \<open>net.SplitHostPort\<close> are the fields of \<open>http_lib\<close>. Log output is not modelled.
\<close>

section \<open>Requests and responses\<close>

datatype json = JsNull | JsBool bool | JsNum int | JsStr string | JsTime int | JsArr "json list"
  | JsObj "(string \<times> json) list"

text \<open>
  A request: header values by canonical name (the empty string when absent), the first cookie of a
  name, the query's first value of a key, the body, the user id in the context and the path wildcards.
\<close>

record request =
  rq_method :: string
  rq_path :: "string list"
  rq_header :: "string \<Rightarrow> string"
  rq_cookie :: "string \<Rightarrow> string option"
  rq_query :: "string \<Rightarrow> string"
  rq_body :: string
  rq_remote :: string
  rq_user :: "string option"
  rq_path_value :: "string \<Rightarrow> string"

record cookie =
  ck_name :: string
  ck_value :: string
  ck_path :: string
  ck_max_age :: int
  ck_http_only :: bool
  ck_secure :: bool
  ck_same_site :: string

record response =
  rs_status :: int
  rs_headers :: "(string \<times> string) list"
  rs_cookies :: "cookie list"
  rs_json :: "json option"

type_synonym handler = "request \<Rightarrow> response eff"

record http_lib =
  hl_parse_address :: "string \<Rightarrow> bool"
  hl_split_host_port :: "string \<Rightarrow> gerror + string"
  hl_parse_time :: "string \<Rightarrow> int option"

definition write_header :: "int \<Rightarrow> response" where
  "write_header status = \<lparr>rs_status = status, rs_headers = [], rs_cookies = [], rs_json = None\<rparr>"

definition write_json :: "int \<Rightarrow> json \<Rightarrow> response" where
  "write_json status payload = \<lparr>rs_status = status, rs_headers = [(''Content-Type'', ''application/json'')],
     rs_cookies = [], rs_json = Some payload\<rparr>"

text \<open>\<open>errorBody\<close> in its envelope; \<open>details\<close> is left out when empty.\<close>

definition error_envelope :: "string \<Rightarrow> string \<Rightarrow> (string \<times> json) list \<Rightarrow> json" where
  "error_envelope code message details = JsObj [(''error'', JsObj ([(''code'', JsStr code), (''message'', JsStr message)]
     @ (if details = [] then [] else [(''details'', JsObj details)])))]"

definition write_error :: "int \<Rightarrow> string \<Rightarrow> string \<Rightarrow> response" where
  "write_error status code message = write_json status (error_envelope code message [])"

definition write_validation_error :: "(string \<times> string) list \<Rightarrow> response" where
  "write_validation_error errs = write_json 422 (error_envelope ''validation_failed'' ''The request has invalid fields.''
     [(''fields'', JsArr (map (\<lambda>(f, c). JsObj [(''field'', JsStr f), (''code'', JsStr c)]) errs))])"

abbreviation internal_error :: response where
  "internal_error \<equiv> write_error 500 ''internal_error'' ''The request could not be completed.''"

abbreviation unauthorized :: response where
  "unauthorized \<equiv> write_error 401 ''unauthorized'' ''Authentication is required.''"

abbreviation route_not_found :: response where
  "route_not_found \<equiv> write_error 404 ''not_found'' ''Not found.''"

abbreviation invalid_json :: response where
  "invalid_json \<equiv> write_error 400 ''invalid_json'' ''The request body is not valid JSON.''"

section \<open>Decoding a body\<close>

text \<open>\<open>if err := json.NewDecoder(http.MaxBytesReader(w, r.Body, n)).Decode(&body); err != nil { 400 }\<close>.\<close>

definition with_body :: "nat \<Rightarrow> ((string \<times> jtree) list \<Rightarrow> 'b \<times> bool) \<Rightarrow> request \<Rightarrow> ('b \<Rightarrow> response eff) \<Rightarrow> response eff" where
  "with_body n dec r k =
     (case Option.bind (read_body n (rq_body r)) members of
        None \<Rightarrow> ret invalid_json
      | Some ms \<Rightarrow> (case dec ms of (b, ok') \<Rightarrow> if ok' then k b else ret invalid_json))"

definition kib8 :: nat where "kib8 = 8192"
definition kib64 :: nat where "kib64 = 65536"

section \<open>authmw.go\<close>

record token_parser = tp_parse :: "string \<Rightarrow> claims io"
record authorizer = az_can :: "string \<Rightarrow> string \<Rightarrow> bool io"

definition bearer_token :: "request \<Rightarrow> string option" where
  "bearer_token r =
     (let header = rq_header r ''Authorization''
      in if length header \<le> 7 \<or> to_lower (take 7 header) \<noteq> ''bearer '' then None
         else let token = trim_space (drop 7 header) in if token = [] then None else Some token)"

definition require_auth :: "token_parser \<Rightarrow> handler \<Rightarrow> handler" where
  "require_auth parser next r = (case bearer_token r of
       None \<Rightarrow> ret unauthorized
     | Some token \<Rightarrow> do {
         c \<leftarrow> tp_parse parser token;
         case c of
           Inl e \<Rightarrow> ret unauthorized
         | Inr claims \<Rightarrow> next (r\<lparr>rq_user := Some (cl_sub claims)\<rparr>) })"

definition user_id_from :: "request \<Rightarrow> string option" where
  "user_id_from r = (case rq_user r of None \<Rightarrow> None | Some uid \<Rightarrow> if uid = [] then None else Some uid)"

definition require_permission :: "authorizer \<Rightarrow> string \<Rightarrow> handler \<Rightarrow> handler" where
  "require_permission authorizer permission next r = (case user_id_from r of
       None \<Rightarrow> ret unauthorized
     | Some uid \<Rightarrow> do {
         a \<leftarrow> az_can authorizer uid permission;
         case a of
           Inl e \<Rightarrow> ret internal_error
         | Inr allowed \<Rightarrow>
             if \<not> allowed then ret (write_error 403 ''permission_denied'' ''You do not have permission to perform this action.'')
             else next r })"

section \<open>cookies.go\<close>

definition refresh_cookie_name :: string where "refresh_cookie_name = ''refresh_token''"
definition csrf_cookie_name :: string where "csrf_cookie_name = ''csrf_token''"
definition csrf_header_name :: string where "csrf_header_name = ''X-CSRF-Token''"
definition session_cookie_path :: string where "session_cookie_path = ''/v1/auth''"

record cookie_settings =
  cs_origins :: "string list"
  cs_secure :: bool

definition is_browser :: "cookie_settings \<Rightarrow> request \<Rightarrow> bool" where
  "is_browser c r \<longleftrightarrow> rq_header r ''Origin'' \<noteq> [] \<and> rq_header r ''Origin'' \<in> set (cs_origins c)"

definition session_cookie :: "cookie_settings \<Rightarrow> string \<Rightarrow> string \<Rightarrow> int \<Rightarrow> cookie" where
  "session_cookie c name val age = \<lparr>ck_name = name, ck_value = val, ck_path = session_cookie_path, ck_max_age = age,
     ck_http_only = (name = refresh_cookie_name), ck_secure = cs_secure c, ck_same_site = ''Lax''\<rparr>"

definition new_csrf_token :: "string io" where
  "new_csrf_token = attempt (rand_read 32) (\<lambda>raw. ok (b64_encode b64_url raw))"

text \<open>\<open>setSession\<close>: the cookies it adds to the response and the CSRF token it returns.\<close>

definition set_session :: "cookie_settings \<Rightarrow> tokens \<Rightarrow> (cookie list \<times> string) io" where
  "set_session c t = attempt new_csrf_token (\<lambda>csrf. ok
     ([session_cookie c refresh_cookie_name (refresh_token t) (refresh_expires_in t),
       session_cookie c csrf_cookie_name csrf (refresh_expires_in t)], csrf))"

definition clear_session :: "cookie_settings \<Rightarrow> cookie list" where
  "clear_session c = map (\<lambda>name. session_cookie c name [] (-1)) [refresh_cookie_name, csrf_cookie_name]"

text \<open>\<open>presented\<close>: \<open>None\<close> is \<open>errCSRF\<close>; otherwise the token and whether it came from the cookie.\<close>

definition presented_token :: "request \<Rightarrow> string \<Rightarrow> (string \<times> bool) option" where
  "presented_token r body_token =
     (let token = trim_space body_token
      in if token \<noteq> [] then Some (token, False)
         else case rq_cookie r refresh_cookie_name of
             None \<Rightarrow> Some ([], False)
           | Some v \<Rightarrow>
               if v = [] then Some ([], False)
               else (case rq_cookie r csrf_cookie_name of
                   None \<Rightarrow> None
                 | Some csrf \<Rightarrow>
                     if csrf = [] then None
                     else if rq_header r csrf_header_name \<noteq> csrf then None
                     else Some (v, True)))"

section \<open>auth.go, what every session-opening handler shares\<close>

text \<open>\<open>tokenPairResponse\<close>: the refresh token and the CSRF token are left out when empty.\<close>

definition token_pair_json :: "tokens \<Rightarrow> string \<Rightarrow> string \<Rightarrow> json" where
  "token_pair_json t rtok csrf = JsObj
     ([(''access_token'', JsStr (access_token t)), (''token_type'', JsStr ''Bearer''), (''expires_in'', JsNum (expires_in t))]
      @ (if rtok = [] then [] else [(''refresh_token'', JsStr rtok)])
      @ [(''refresh_expires_in'', JsNum (refresh_expires_in t))]
      @ (if csrf = [] then [] else [(''csrf_token'', JsStr csrf)]))"

definition write_token_pair :: "cookie_settings \<Rightarrow> request \<Rightarrow> int \<Rightarrow> tokens \<Rightarrow> response eff" where
  "write_token_pair c r status t =
     (if is_browser c r then do {
        s \<leftarrow> set_session c t;
        case s of
          Inl e \<Rightarrow> ret internal_error
        | Inr (cookies, csrf) \<Rightarrow> ret ((write_json status (token_pair_json t [] csrf))\<lparr>rs_cookies := cookies\<rparr>) }
      else ret (write_json status (token_pair_json t (refresh_token t) [])))"

definition client_ip :: "http_lib \<Rightarrow> request \<Rightarrow> string" where
  "client_ip L r = (case hl_split_host_port L (rq_remote r) of Inl e \<Rightarrow> rq_remote r | Inr host \<Rightarrow> host)"

definition request_meta :: "http_lib \<Rightarrow> request \<Rightarrow> string \<Rightarrow> session_meta" where
  "request_meta L r device = \<lparr>m_device = device, m_user_agent = rq_header r ''User-Agent'', m_ip = client_ip L r\<rparr>"

text \<open>\<open>^[0-9]{6}$\<close>.\<close>

definition code_matches :: "string \<Rightarrow> bool" where
  "code_matches s \<longleftrightarrow> length s = 6 \<and> list_all is_digit s"

definition min_password_length :: nat where
  "min_password_length = 12"

section \<open>strconv.Atoi\<close>

text \<open>
  The number and whether there was no error: a syntax error gives 0, a number out of range the
  nearest 64-bit integer. Digits are read until one is out of range, so a later bad character
  goes unnoticed then.
\<close>

datatype digits = Number nat | Bad_Syntax | Out_Of_Range

fun parse_digits :: "nat \<Rightarrow> string \<Rightarrow> digits" where
  "parse_digits n [] = Number n"
| "parse_digits n (c # s) =
     (if \<not> is_digit c then Bad_Syntax
      else if 2 ^ 64 \<le> n * 10 then Out_Of_Range
      else if 2 ^ 64 \<le> n * 10 + (byte c - 48) then Out_Of_Range
      else parse_digits (n * 10 + (byte c - 48)) s)"

definition atoi :: "string \<Rightarrow> int \<times> bool" where
  "atoi s =
     (let neg = has_prefix s ''-'';
          ds = (if has_prefix s ''-'' \<or> has_prefix s ''+'' then tl s else s)
      in if ds = [] then (0, False)
         else case parse_digits 0 ds of
             Bad_Syntax \<Rightarrow> (0, False)
           | Out_Of_Range \<Rightarrow> (if neg then - (2 ^ 63) else 2 ^ 63 - 1, False)
           | Number n \<Rightarrow>
               if \<not> neg \<and> 2 ^ 63 \<le> n then (2 ^ 63 - 1, False)
               else if neg \<and> 2 ^ 63 < n then (- (2 ^ 63), False)
               else (if neg then - int n else int n, True))"

text \<open>\<open>paging\<close> of \<open>admin.go\<close>.\<close>

definition paging :: "request \<Rightarrow> int \<times> int" where
  "paging r =
     (let page = fst (atoi (rq_query r ''page''));
          lim = fst (atoi (rq_query r ''limit''));
          page = (if page < 1 then 1 else page);
          lim = (if lim < 1 then 20 else lim);
          lim = (if 100 < lim then 100 else lim)
      in (page, lim))"

end
