(* ===== verification/Handlers.thy ===== *)
theory Handlers
  imports Http Login Signup Password Email_Change Social Mail
begin

text \<open>
  The handlers of package \<open>httpapi\<close>: registration and sessions (\<open>auth.go\<close>), passwords
  (\<open>password.go\<close>), the change of address (\<open>emailchange.go\<close>), federated login (\<open>social.go\<close>), the
  profile and the catalogues (\<open>identity.go\<close>) and administration (\<open>admin.go\<close>). Each takes the
  service behind it as an argument, as the handler structs hold them.
\<close>

section \<open>auth.go\<close>

type_synonym signup_requester = "string \<Rightarrow> string \<Rightarrow> string \<Rightarrow> unit io"
type_synonym signup_finisher = "string \<Rightarrow> string \<Rightarrow> session_meta \<Rightarrow> tokens io"
type_synonym login_authenticator = "string \<Rightarrow> string \<Rightarrow> session_meta \<Rightarrow> tokens io"

record session_rotator =
  sro_refresh :: "string \<Rightarrow> session_meta \<Rightarrow> tokens io"
  sro_logout :: "string \<Rightarrow> unit io"

record signup_body =
  sb_email :: string
  sb_name :: string
  sb_password :: string

definition decode_signup :: "(string \<times> jtree) list \<Rightarrow> signup_body \<times> bool" where
  "decode_signup ms = (let (e, a) = string_of ''email'' ms; (n, b) = string_of ''name'' ms; (p, c) = string_of ''password'' ms
     in (\<lparr>sb_email = e, sb_name = n, sb_password = p\<rparr>, a \<and> b \<and> c))"

definition validate_signup :: "http_lib \<Rightarrow> signup_body \<Rightarrow> (string \<times> string) list" where
  "validate_signup L body =
     (let email = trim_space (sb_email body); name = trim_space (sb_name body)
      in (if \<not> hl_parse_address L email \<or> CHR ''@'' \<notin> set email then [(''email'', ''invalid'')] else [])
       @ (if name = [] then [(''name'', ''required'')] else if 120 < length name then [(''name'', ''too_long'')] else [])
       @ (if length (sb_password body) < min_password_length then [(''password'', ''too_short'')] else []))"

definition start_signup :: "http_lib \<Rightarrow> signup_requester \<Rightarrow> handler" where
  "start_signup L signup r = with_body kib8 decode_signup r (\<lambda>body.
     let errs = validate_signup L body
     in if errs \<noteq> [] then ret (write_validation_error errs)
        else do {
          s \<leftarrow> signup (sb_email body) (sb_name body) (sb_password body);
          case s of
            Inl e \<Rightarrow> ret internal_error
          | Inr _ \<Rightarrow> ret (write_header 202) })"

record verify_body =
  vb_email :: string
  vb_code :: string

definition decode_verify :: "(string \<times> jtree) list \<Rightarrow> verify_body \<times> bool" where
  "decode_verify ms = (let (e, a) = string_of ''email'' ms; (c, b) = string_of ''code'' ms
     in (\<lparr>vb_email = e, vb_code = c\<rparr>, a \<and> b))"

definition verify_signup_handler :: "http_lib \<Rightarrow> cookie_settings \<Rightarrow> signup_finisher \<Rightarrow> handler" where
  "verify_signup_handler L cs verifier r = with_body kib8 decode_verify r (\<lambda>body.
     let errs = (if \<not> hl_parse_address L (trim_space (vb_email body)) then [(''email'', ''invalid'')] else [])
              @ (if \<not> code_matches (vb_code body) then [(''code'', ''invalid'')] else [])
     in if errs \<noteq> [] then ret (write_validation_error errs)
        else do {
          t \<leftarrow> verifier (vb_email body) (vb_code body) (request_meta L r []);
          case t of
            Inl e \<Rightarrow>
              if errors_is e err_invalid_code then ret (write_error 400 ''invalid_code'' ''The code is incorrect or has expired.'')
              else if errors_is e err_too_many_attempts
                then ret (write_error 429 ''too_many_attempts'' ''Too many attempts. Request a new code.'')
              else ret internal_error
          | Inr tokens \<Rightarrow> write_token_pair cs r 201 tokens })"

record login_body =
  lb_email :: string
  lb_password :: string
  lb_device :: string

definition decode_login :: "(string \<times> jtree) list \<Rightarrow> login_body \<times> bool" where
  "decode_login ms = (let (e, a) = string_of ''email'' ms; (p, b) = string_of ''password'' ms; (d, c) = string_of ''device'' ms
     in (\<lparr>lb_email = e, lb_password = p, lb_device = d\<rparr>, a \<and> b \<and> c))"

text \<open>An answer with \<open>Retry-After\<close>; the value is truncated to whole seconds.\<close>

definition retry_response :: "int \<Rightarrow> string \<Rightarrow> string \<Rightarrow> int \<Rightarrow> response" where
  "retry_response status code message d =
     (let retry = seconds d
      in (write_json status (error_envelope code message [(''retry_after_seconds'', JsNum retry)]))
           \<lparr>rs_headers := [(''Retry-After'', show_int retry), (''Content-Type'', ''application/json'')]\<rparr>)"

definition login_handler :: "http_lib \<Rightarrow> cookie_settings \<Rightarrow> login_authenticator \<Rightarrow> handler" where
  "login_handler L cs authenticator r = with_body kib8 decode_login r (\<lambda>body.
     let errs = (if \<not> hl_parse_address L (trim_space (lb_email body)) then [(''email'', ''invalid'')] else [])
              @ (if lb_password body = [] then [(''password'', ''required'')] else [])
     in if errs \<noteq> [] then ret (write_validation_error errs)
        else do {
          t \<leftarrow> authenticator (lb_email body) (lb_password body) (request_meta L r (trim_space (lb_device body)));
          case t of
            Inl e \<Rightarrow> (case as_locked e of
                Some d \<Rightarrow> ret (retry_response 423 ''account_locked'' ''Too many failed attempts. Try again later.'' d)
              | None \<Rightarrow>
                  if errors_is e err_invalid_credentials
                  then ret (write_error 401 ''invalid_credentials'' ''Email or password is incorrect.'')
                  else ret internal_error)
          | Inr tokens \<Rightarrow> write_token_pair cs r 200 tokens })"

abbreviation csrf_invalid :: response where
  "csrf_invalid \<equiv> write_error 403 ''csrf_invalid'' ''The CSRF token is missing or does not match.''"

definition refresh_handler :: "http_lib \<Rightarrow> cookie_settings \<Rightarrow> session_rotator \<Rightarrow> handler" where
  "refresh_handler L cs rotator r = with_body kib8 (string_of ''refresh_token'') r (\<lambda>body_token.
     case presented_token r body_token of
       None \<Rightarrow> ret csrf_invalid
     | Some (presented, from_cookie) \<Rightarrow> do {
         t \<leftarrow> sro_refresh rotator presented (request_meta L r []);
         case t of
           Inl e \<Rightarrow>
             if errors_is e err_refresh_reused
             then ret (write_error 401 ''refresh_reused'' ''This session was revoked because the token was reused.'')
             else if errors_is e err_invalid_refresh
             then ret (write_error 401 ''refresh_invalid'' ''The session is no longer valid. Log in again.'')
             else ret internal_error
         | Inr tokens \<Rightarrow> write_token_pair cs r 200 tokens })"

text \<open>The decoding error is ignored here; what was decoded before it counts.\<close>

definition logout_body :: "request \<Rightarrow> string" where
  "logout_body r = (case Option.bind (read_body kib8 (rq_body r)) members of None \<Rightarrow> [] | Some ms \<Rightarrow> fst (string_of ''refresh_token'' ms))"

definition logout_handler :: "cookie_settings \<Rightarrow> session_rotator \<Rightarrow> handler" where
  "logout_handler cs rotator r = (case presented_token r (logout_body r) of
       None \<Rightarrow> ret csrf_invalid
     | Some (presented, from_cookie) \<Rightarrow> do {
         l \<leftarrow> sro_logout rotator presented;
         case l of
           Inl e \<Rightarrow> ret internal_error
         | Inr _ \<Rightarrow> ret ((write_header 204)\<lparr>rs_cookies := if from_cookie then clear_session cs else []\<rparr>) })"

section \<open>password.go\<close>

record password_api =
  pa_request :: "string \<Rightarrow> unit io"
  pa_reset :: "string \<Rightarrow> string \<Rightarrow> string \<Rightarrow> unit io"
  pa_change :: "string \<Rightarrow> string \<Rightarrow> string \<Rightarrow> unit io"

definition forgot_password :: "http_lib \<Rightarrow> password_api \<Rightarrow> handler" where
  "forgot_password L service r = with_body kib8 (string_of ''email'') r (\<lambda>email.
     if \<not> hl_parse_address L (trim_space email) then ret (write_validation_error [(''email'', ''invalid'')])
     else do {
       s \<leftarrow> pa_request service email;
       case s of
         Inl e \<Rightarrow> ret internal_error
       | Inr _ \<Rightarrow> ret (write_header 202) })"

record reset_body =
  rb_email :: string
  rb_code :: string
  rb_new :: string

definition decode_reset :: "(string \<times> jtree) list \<Rightarrow> reset_body \<times> bool" where
  "decode_reset ms = (let (e, a) = string_of ''email'' ms; (c, b) = string_of ''code'' ms; (n, d) = string_of ''new_password'' ms
     in (\<lparr>rb_email = e, rb_code = c, rb_new = n\<rparr>, a \<and> b \<and> d))"

definition reset_handler :: "http_lib \<Rightarrow> password_api \<Rightarrow> handler" where
  "reset_handler L service r = with_body kib8 decode_reset r (\<lambda>body.
     let errs = (if \<not> hl_parse_address L (trim_space (rb_email body)) then [(''email'', ''invalid'')] else [])
              @ (if \<not> code_matches (rb_code body) then [(''code'', ''invalid'')] else [])
              @ (if length (rb_new body) < min_password_length then [(''new_password'', ''too_short'')] else [])
     in if errs \<noteq> [] then ret (write_validation_error errs)
        else do {
          s \<leftarrow> pa_reset service (rb_email body) (rb_code body) (rb_new body);
          case s of
            Inl e \<Rightarrow>
              if errors_is e err_reset_invalid_code then ret (write_error 400 ''invalid_code'' ''The code is incorrect or has expired.'')
              else if errors_is e err_reset_too_many
                then ret (write_error 429 ''too_many_attempts'' ''Too many attempts. Request a new code.'')
              else ret internal_error
          | Inr _ \<Rightarrow> ret (write_header 200) })"

definition decode_change :: "(string \<times> jtree) list \<Rightarrow> (string \<times> string) \<times> bool" where
  "decode_change ms = (let (c, a) = string_of ''current_password'' ms; (n, b) = string_of ''new_password'' ms
     in ((c, n), a \<and> b))"

definition change_password_handler :: "password_api \<Rightarrow> handler" where
  "change_password_handler service r = (case user_id_from r of
       None \<Rightarrow> ret unauthorized
     | Some uid \<Rightarrow> with_body kib8 decode_change r (\<lambda>(current, new).
         let errs = (if current = [] then [(''current_password'', ''required'')] else [])
                  @ (if length new < min_password_length then [(''new_password'', ''too_short'')] else [])
         in if errs \<noteq> [] then ret (write_validation_error errs)
            else do {
              s \<leftarrow> pa_change service uid current new;
              case s of
                Inl e \<Rightarrow>
                  if errors_is e err_invalid_current then ret (write_error 400 ''invalid_password'' ''The current password is incorrect.'')
                  else ret internal_error
              | Inr _ \<Rightarrow> ret (write_header 200) }))"

section \<open>emailchange.go\<close>

record change_api =
  ca_request :: "string \<Rightarrow> string \<Rightarrow> string \<Rightarrow> unit io"
  ca_verify :: "string \<Rightarrow> string \<Rightarrow> unit io"

definition decode_email_change :: "(string \<times> jtree) list \<Rightarrow> (string \<times> string) \<times> bool" where
  "decode_email_change ms = (let (e, a) = string_of ''new_email'' ms; (p, b) = string_of ''password'' ms
     in ((e, p), a \<and> b))"

abbreviation email_unavailable :: response where
  "email_unavailable \<equiv> write_error 409 ''email_unavailable'' ''That email cannot be used.''"

definition change_request_handler :: "http_lib \<Rightarrow> change_api \<Rightarrow> handler" where
  "change_request_handler L service r = (case user_id_from r of
       None \<Rightarrow> ret unauthorized
     | Some uid \<Rightarrow> with_body kib8 decode_email_change r (\<lambda>(new_email, password).
         let errs = (if \<not> hl_parse_address L (trim_space new_email) then [(''new_email'', ''invalid'')] else [])
                  @ (if password = [] then [(''password'', ''required'')] else [])
         in if errs \<noteq> [] then ret (write_validation_error errs)
            else do {
              s \<leftarrow> ca_request service uid new_email password;
              case s of
                Inl e \<Rightarrow> (case as_too_many e of
                    Some d \<Rightarrow> ret (retry_response 429 ''rate_limited'' ''Too many requests. Try again later.'' d)
                  | None \<Rightarrow>
                      if errors_is e err_same_email then ret (write_validation_error [(''new_email'', ''unchanged'')])
                      else if errors_is e err_email_taken then ret email_unavailable
                      else if errors_is e err_change_password
                        then ret (write_error 400 ''invalid_password'' ''The current password is incorrect.'')
                      else ret internal_error)
              | Inr _ \<Rightarrow> ret (write_header 202) }))"

definition change_verify_handler :: "change_api \<Rightarrow> handler" where
  "change_verify_handler service r = (case user_id_from r of
       None \<Rightarrow> ret unauthorized
     | Some uid \<Rightarrow> with_body kib8 (string_of ''code'') r (\<lambda>code.
         if \<not> code_matches code then ret (write_validation_error [(''code'', ''invalid'')])
         else do {
           s \<leftarrow> ca_verify service uid code;
           case s of
             Inl e \<Rightarrow>
               if errors_is e err_change_invalid_code then ret (write_error 400 ''invalid_code'' ''The code is incorrect or has expired.'')
               else if errors_is e err_change_too_many
                 then ret (write_error 429 ''too_many_attempts'' ''Too many attempts. Request a new code.'')
               else if errors_is e err_email_taken then ret email_unavailable
               else ret internal_error
           | Inr _ \<Rightarrow> ret (write_header 200) }))"

section \<open>social.go\<close>

type_synonym social_authenticator = "string \<Rightarrow> string \<Rightarrow> session_meta \<Rightarrow> tokens io"

record social_body =
  so_provider :: string
  so_id_token :: string
  so_device :: string

definition decode_social :: "(string \<times> jtree) list \<Rightarrow> social_body \<times> bool" where
  "decode_social ms = (let (p, a) = string_of ''provider'' ms; (t, b) = string_of ''id_token'' ms; (d, c) = string_of ''device'' ms
     in (\<lparr>so_provider = p, so_id_token = t, so_device = d\<rparr>, a \<and> b \<and> c))"

definition social_handler :: "http_lib \<Rightarrow> cookie_settings \<Rightarrow> social_authenticator \<Rightarrow> handler" where
  "social_handler L cs authenticator r = with_body kib64 decode_social r (\<lambda>body.
     let provider = to_upper (trim_space (so_provider body));
         errs = (if provider \<noteq> provider_google \<and> provider \<noteq> provider_apple then [(''provider'', ''invalid'')] else [])
              @ (if trim_space (so_id_token body) = [] then [(''id_token'', ''required'')] else [])
     in if errs \<noteq> [] then ret (write_validation_error errs)
        else do {
          t \<leftarrow> authenticator provider (so_id_token body) (request_meta L r (trim_space (so_device body)));
          case t of
            Inl e \<Rightarrow>
              if errors_is e err_unknown_provider then ret (write_validation_error [(''provider'', ''not_configured'')])
              else if errors_is e err_social_invalid_token
                then ret (write_error 401 ''invalid_token'' ''The provider token is not valid.'')
              else ret internal_error
          | Inr tokens \<Rightarrow> write_token_pair cs r 200 tokens })"

end
