(* ===== verification/Router.thy ===== *)
theory Router
  imports Handlers
begin

text \<open>
  The rest of package \<open>httpapi\<close>: the profile and catalogue handlers (\<open>identity.go\<close>), the
  administration handlers (\<open>admin.go\<close>), health (\<open>health.go\<close>), CORS (\<open>cors.go\<close>), and \<open>New\<close>, which
  registers the routes of the services that are configured (\<open>router.go\<close>). A route is a method and
  a path pattern as \<open>net/http\<close> matches them; the catch-all answers whatever no route takes. Paths
  are those of cleaned URLs, so the redirects of \<open>ServeMux\<close> are not modelled.
\<close>

section \<open>identity.go\<close>

record identity_reader =
  ir_me :: "string \<Rightarrow> me io"
  ir_roles :: "role_entry list io"
  ir_permissions :: "permission_entry list io"

definition admin_permission :: string where
  "admin_permission = ''admin.access''"

definition json_opt :: "string option \<Rightarrow> json" where
  "json_opt x = (case x of None \<Rightarrow> JsNull | Some s \<Rightarrow> JsStr s)"

definition json_time :: "int option \<Rightarrow> json" where
  "json_time x = (case x of None \<Rightarrow> JsNull | Some t \<Rightarrow> JsTime t)"

definition me_json :: "me \<Rightarrow> json" where
  "me_json m = JsObj [(''id'', JsStr (pf_id m)), (''name'', json_opt (pf_name m)), (''email'', json_opt (pf_email m)),
     (''status'', JsStr (pf_status m)), (''email_verified_at'', json_time (pf_verified_at m)),
     (''roles'', JsArr (map JsStr (ac_roles (me_access m)))),
     (''permissions'', JsArr (map JsStr (ac_permissions (me_access m)))), (''created_at'', JsTime (pf_created m))]"

definition me_handler :: "identity_reader \<Rightarrow> handler" where
  "me_handler reader r = (case user_id_from r of
       None \<Rightarrow> ret unauthorized
     | Some uid \<Rightarrow> do {
         m \<leftarrow> ir_me reader uid;
         case m of
           Inl e \<Rightarrow> if errors_is e err_not_found then ret unauthorized else ret internal_error
         | Inr me \<Rightarrow> ret (write_json 200 (me_json me)) })"

definition role_json :: "role_entry \<Rightarrow> json" where
  "role_json x = JsObj [(''id'', JsStr (re_id x)), (''name'', JsStr (re_name x)), (''description'', json_opt (re_description x)),
     (''status'', JsStr (re_status x)), (''permissions'', JsArr (map JsStr (re_permissions x)))]"

definition roles_handler :: "identity_reader \<Rightarrow> handler" where
  "roles_handler reader r = do {
     x \<leftarrow> ir_roles reader;
     case x of
       Inl e \<Rightarrow> ret internal_error
     | Inr roles \<Rightarrow> ret (write_json 200 (JsObj [(''data'', JsArr (map role_json roles))])) }"

definition permission_json :: "permission_entry \<Rightarrow> json" where
  "permission_json x = JsObj [(''id'', JsStr (pm_id x)), (''code'', JsStr (pm_code x)), (''module'', JsStr (pm_module x)),
     (''name'', JsStr (pm_name x)), (''status'', JsStr (pm_status x))]"

definition permissions_handler :: "identity_reader \<Rightarrow> handler" where
  "permissions_handler reader r = do {
     x \<leftarrow> ir_permissions reader;
     case x of
       Inl e \<Rightarrow> ret internal_error
     | Inr permissions \<Rightarrow> ret (write_json 200 (JsObj [(''data'', JsArr (map permission_json permissions))])) }"

section \<open>admin.go\<close>

record admin_reader =
  ar_users :: "user_filter \<Rightarrow> user_summary page io"
  ar_user :: "string \<Rightarrow> user_summary io"
  ar_update_user :: "string \<Rightarrow> string \<Rightarrow> string option \<Rightarrow> string option \<Rightarrow> audit_event \<Rightarrow> user_summary io"
  ar_set_roles :: "string \<Rightarrow> string \<Rightarrow> string list \<Rightarrow> audit_event \<Rightarrow> string list io"
  ar_audit_events :: "audit_filter \<Rightarrow> event_row page io"

type_synonym invitation_sender = "string \<Rightarrow> string \<Rightarrow> unit io"

definition user_json :: "user_summary \<Rightarrow> json" where
  "user_json u = JsObj [(''id'', JsStr (us_id u)), (''name'', json_opt (us_name u)), (''email'', json_opt (us_email u)),
     (''status'', JsStr (us_status u)), (''email_verified_at'', json_time (us_verified_at u)),
     (''roles'', JsArr (map JsStr (us_roles u))), (''created_at'', JsTime (us_created u))]"

fun json_of_jval :: "jval \<Rightarrow> json" where
  "json_of_jval JNull = JsNull"
| "json_of_jval (JStr s) = JsStr s"
| "json_of_jval (JInt i) = JsNum i"
| "json_of_jval (JBool b) = JsBool b"
| "json_of_jval (JList vs) = JsArr (map json_of_jval vs)"

definition event_json :: "event_row \<Rightarrow> json" where
  "event_json e = JsObj [(''id'', JsStr (se_id e)), (''event'', JsStr (se_event e)), (''user_id'', json_opt (se_user e)),
     (''actor_user_id'', json_opt (se_actor e)), (''email_hash'', json_opt (se_email_hash e)), (''ip'', json_opt (se_ip e)),
     (''country'', json_opt (se_country e)), (''city'', json_opt (se_city e)), (''user_agent'', json_opt (se_user_agent e)),
     (''metadata'', JsObj (map (\<lambda>(k, v). (k, json_of_jval v)) (se_metadata e))), (''created_at'', JsTime (se_created e))]"

definition page_json :: "('a \<Rightarrow> json) \<Rightarrow> 'a page \<Rightarrow> json" where
  "page_json f p = JsObj [(''data'', JsArr (map f (pg_data p))), (''limit'', JsNum (pg_limit p)),
     (''page'', JsNum (pg_page p)), (''total'', JsNum (pg_total p))]"

definition user_scopes :: "string list" where
  "user_scopes = [''admin'', ''app'', ''none'']"

definition users_handler :: "admin_reader \<Rightarrow> handler" where
  "users_handler reader r =
     (let (page, lim) = paging r; scope = trim_space (rq_query r ''scope'')
      in if scope \<noteq> [] \<and> scope \<notin> set user_scopes then ret (write_validation_error [(''scope'', ''invalid'')])
         else do {
           x \<leftarrow> ar_users reader \<lparr>uf_page = page, uf_limit = lim, uf_query = trim_space (rq_query r ''q''),
                  uf_status = trim_space (rq_query r ''status''), uf_scope = scope\<rparr>;
           case x of
             Inl e \<Rightarrow> ret internal_error
           | Inr result \<Rightarrow> ret (write_json 200 (page_json user_json result)) })"

definition decode_invite :: "(string \<times> jtree) list \<Rightarrow> (string \<times> string) \<times> bool" where
  "decode_invite ms = (let (e, a) = string_of ''email'' ms; (n, b) = string_of ''name'' ms in ((e, n), a \<and> b))"

definition invite_handler :: "http_lib \<Rightarrow> invitation_sender \<Rightarrow> handler" where
  "invite_handler L invite' r = with_body kib8 decode_invite r (\<lambda>(raw, name).
     let email = to_lower (trim_space raw)
     in if \<not> hl_parse_address L email then ret (write_validation_error [(''email'', ''invalid'')])
        else do {
          x \<leftarrow> invite' email (trim_space name);
          case x of
            Inl e \<Rightarrow> ret internal_error
          | Inr _ \<Rightarrow> ret (write_header 202) })"

definition reset_user_handler :: "admin_reader \<Rightarrow> password_api \<Rightarrow> handler" where
  "reset_user_handler reader service r =
     (let target = rq_path_value r ''userId''
      in if target = [] then ret route_not_found
         else do {
           u \<leftarrow> ar_user reader target;
           case u of
             Inl e \<Rightarrow> ret route_not_found
           | Inr user \<Rightarrow> (case us_email user of
               None \<Rightarrow> ret route_not_found
             | Some email \<Rightarrow> do {
                 x \<leftarrow> pa_request service email;
                 case x of
                   Inl e \<Rightarrow> ret internal_error
                 | Inr _ \<Rightarrow> ret (write_header 202) }) })"

definition valid_user_statuses :: "string list" where
  "valid_user_statuses = [''ACTIVE'', ''INACTIVE'', ''SUSPENDED'']"

definition decode_update :: "(string \<times> jtree) list \<Rightarrow> (string option \<times> string option) \<times> bool" where
  "decode_update ms = (let (n, a) = opt_field ''name'' ms (None, True); (s, b) = opt_field ''status'' ms (None, True) in ((n, s), a \<and> b))"

definition admin_meta :: "http_lib \<Rightarrow> request \<Rightarrow> audit_event" where
  "admin_meta L r = (event [])\<lparr>ev_ip := client_ip L r, ev_user_agent := rq_header r ''User-Agent''\<rparr>"

definition update_user_handler :: "http_lib \<Rightarrow> admin_reader \<Rightarrow> handler" where
  "update_user_handler L reader r = (case user_id_from r of
       None \<Rightarrow> ret unauthorized
     | Some actor \<Rightarrow>
         let target = rq_path_value r ''userId''
         in if target = [] then ret route_not_found
            else with_body kib8 decode_update r (\<lambda>(name, status).
              if name = None \<and> status = None then ret (write_validation_error [(''name'', ''required'')])
              else let name = map_option trim_space name
              in if (\<exists>n. name = Some n \<and> 120 < length n) then ret (write_validation_error [(''name'', ''too_long'')])
              else if (\<exists>s. status = Some s \<and> s \<notin> set valid_user_statuses) then ret (write_validation_error [(''status'', ''invalid'')])
              else do {
                u \<leftarrow> ar_update_user reader actor target name status (admin_meta L r);
                case u of
                  Inl e \<Rightarrow> if errors_is e err_not_found then ret route_not_found else ret internal_error
                | Inr user \<Rightarrow> ret (write_json 200 (user_json user)) }))"

definition set_roles_handler :: "http_lib \<Rightarrow> admin_reader \<Rightarrow> handler" where
  "set_roles_handler L reader r = (case user_id_from r of
       None \<Rightarrow> ret unauthorized
     | Some actor \<Rightarrow>
         let target = rq_path_value r ''userId''
         in if target = [] then ret route_not_found
            else with_body kib8 (\<lambda>ms. strs_field ''roles'' ms (None, True)) r (\<lambda>roles. case roles of
                None \<Rightarrow> ret (write_validation_error [(''roles'', ''required'')])
              | Some names \<Rightarrow> do {
                  x \<leftarrow> ar_set_roles reader actor target names (admin_meta L r);
                  case x of
                    Inl e \<Rightarrow>
                      if errors_is e err_unknown_role then ret (write_validation_error [(''roles'', ''unknown'')])
                      else if errors_is e err_not_found then ret route_not_found
                      else ret internal_error
                  | Inr _ \<Rightarrow> do {
                      u \<leftarrow> ar_user reader target;
                      case u of
                        Inl e \<Rightarrow> ret internal_error
                      | Inr user \<Rightarrow> ret (write_json 200 (user_json user)) } }))"

text \<open>An optional time bound: absent, or what the parser says, where \<open>Inl\<close> is a parse error.\<close>

definition time_bound :: "http_lib \<Rightarrow> string \<Rightarrow> unit + int option" where
  "time_bound L raw = (let raw = trim_space raw in if raw = [] then Inr None
     else case hl_parse_time L raw of None \<Rightarrow> Inl () | Some t \<Rightarrow> Inr (Some t))"

definition audit_events_handler :: "http_lib \<Rightarrow> admin_reader \<Rightarrow> handler" where
  "audit_events_handler L reader r =
     (let (page, lim) = paging r
      in case time_bound L (rq_query r ''from'') of
           Inl _ \<Rightarrow> ret (write_validation_error [(''from'', ''invalid'')])
         | Inr from' \<Rightarrow> (case time_bound L (rq_query r ''to'') of
             Inl _ \<Rightarrow> ret (write_validation_error [(''to'', ''invalid'')])
           | Inr to' \<Rightarrow> do {
               x \<leftarrow> ar_audit_events reader \<lparr>af_page = page, af_limit = lim, af_event = trim_space (rq_query r ''event''),
                      af_user = trim_space (rq_query r ''userId''), af_email_hash = trim_space (rq_query r ''emailHash''),
                      af_from = from', af_to = to'\<rparr>;
               case x of
                 Inl e \<Rightarrow> ret internal_error
               | Inr result \<Rightarrow> ret (write_json 200 (page_json event_json result)) }))"

section \<open>health.go\<close>

record probe =
  pb_name :: string
  pb_required :: bool
  pb_check :: "int \<Rightarrow> unit io"

text \<open>The three statuses of readiness, worst last.\<close>

datatype readiness = Ready | Degraded | Unavailable

definition readiness_text :: "readiness \<Rightarrow> string" where
  "readiness_text s = (case s of Ready \<Rightarrow> ''ok'' | Degraded \<Rightarrow> ''degraded'' | Unavailable \<Rightarrow> ''unavailable'')"

definition live_handler :: handler where
  "live_handler r = ret (write_json 200 (JsObj [(''status'', JsStr ''ok'')]))"

definition check_json :: "probe \<Rightarrow> bool \<Rightarrow> json" where
  "check_json p good = JsObj [(''name'', JsStr (pb_name p)), (''status'', JsStr (if good then ''ok'' else ''error'')),
     (''required'', JsBool (pb_required p))]"

text \<open>The loop over the probes: the checks so far and the two flags.\<close>

fun run_probes :: "int \<Rightarrow> probe list \<Rightarrow> json list \<Rightarrow> bool \<Rightarrow> bool \<Rightarrow> (json list \<times> bool \<times> bool) eff" where
  "run_probes timeout [] checks required_failed optional_failed = ret (checks, required_failed, optional_failed)"
| "run_probes timeout (p # ps) checks required_failed optional_failed = do {
     x \<leftarrow> pb_check p timeout;
     run_probes timeout ps (checks @ [check_json p (is_ok x)])
       (required_failed \<or> \<not> is_ok x \<and> pb_required p) (optional_failed \<or> \<not> is_ok x \<and> \<not> pb_required p) }"

definition ready_handler :: "int \<Rightarrow> probe list \<Rightarrow> handler" where
  "ready_handler timeout probes r = do {
     (checks, required_failed, optional_failed) \<leftarrow> run_probes timeout probes [] False False;
     let status = Ready;
     let status = (if optional_failed then Degraded else status);
     let status = (if required_failed then Unavailable else status);
     ret (write_json (if status \<noteq> Ready then 503 else 200)
       (JsObj [(''status'', JsStr (readiness_text status)), (''checks'', JsArr checks)])) }"

section \<open>router.go\<close>

record options =
  op_probes :: "probe list"
  op_probe_timeout :: int
  op_cors_origins :: "string list"
  op_signup :: "signup_requester option"
  op_verifier :: "signup_finisher option"
  op_login :: "login_authenticator option"
  op_rotator :: "session_rotator option"
  op_cookie_secure :: bool
  op_token_parser :: "token_parser option"
  op_authorizer :: "authorizer option"
  op_identity :: "identity_reader option"
  op_admin :: "admin_reader option"
  op_invitations :: "invitation_sender option"
  op_password :: "password_api option"
  op_email_change :: "change_api option"
  op_social :: "social_authenticator option"

definition default_probe_timeout :: int where
  "default_probe_timeout = 2 * second"

datatype segment = Lit string | Wild string

record route =
  en_method :: string
  en_path :: "segment list"
  en_handler :: handler

abbreviation on :: "string \<Rightarrow> string list \<Rightarrow> handler \<Rightarrow> route" where
  "on m path h \<equiv> \<lparr>en_method = m, en_path = map Lit path, en_handler = h\<rparr>"

abbreviation on_user :: "string \<Rightarrow> string list \<Rightarrow> handler \<Rightarrow> route" where
  "on_user m path h \<equiv> \<lparr>en_method = m, en_path = [Lit ''v1'', Lit ''admin'', Lit ''users'', Wild ''userId''] @ map Lit path, en_handler = h\<rparr>"

text \<open>\<open>if x != nil { register(x) }\<close>.\<close>

definition if_some :: "'a option \<Rightarrow> ('a \<Rightarrow> route list) \<Rightarrow> route list" where
  "if_some x f = (case x of None \<Rightarrow> [] | Some y \<Rightarrow> f y)"

definition auth_routes :: "http_lib \<Rightarrow> options \<Rightarrow> route list" where
  "auth_routes L opts =
     (let cs = \<lparr>cs_origins = op_cors_origins opts, cs_secure = op_cookie_secure opts\<rparr>
      in if_some (op_signup opts) (\<lambda>s. [on ''POST'' [''v1'', ''auth'', ''signup''] (start_signup L s)])
       @ if_some (op_verifier opts) (\<lambda>s. [on ''POST'' [''v1'', ''auth'', ''signup'', ''verify''] (verify_signup_handler L cs s)])
       @ if_some (op_login opts) (\<lambda>s. [on ''POST'' [''v1'', ''auth'', ''login''] (login_handler L cs s)])
       @ if_some (op_rotator opts) (\<lambda>s. [on ''POST'' [''v1'', ''auth'', ''refresh''] (refresh_handler L cs s),
                                          on ''POST'' [''v1'', ''auth'', ''logout''] (logout_handler cs s)])
       @ if_some (op_password opts) (\<lambda>s.
           [on ''POST'' [''v1'', ''auth'', ''password'', ''forgot''] (forgot_password L s),
            on ''POST'' [''v1'', ''auth'', ''password'', ''reset''] (reset_handler L s)]
           @ if_some (op_token_parser opts) (\<lambda>parser.
               [on ''POST'' [''v1'', ''auth'', ''password'', ''change''] (require_auth parser (change_password_handler s))]))
       @ if_some (op_social opts) (\<lambda>s. [on ''POST'' [''v1'', ''auth'', ''social''] (social_handler L cs s)])
       @ if_some (op_email_change opts) (\<lambda>s. if_some (op_token_parser opts) (\<lambda>parser.
           [on ''POST'' [''v1'', ''auth'', ''email'', ''change''] (require_auth parser (change_request_handler L s)),
            on ''POST'' [''v1'', ''auth'', ''email'', ''change'', ''verify''] (require_auth parser (change_verify_handler s))])))"

definition admin_routes :: "http_lib \<Rightarrow> options \<Rightarrow> (handler \<Rightarrow> handler) \<Rightarrow> admin_reader \<Rightarrow> route list" where
  "admin_routes L opts admin reader =
     [on ''GET'' [''v1'', ''admin'', ''users''] (admin (users_handler reader)),
      on_user ''PATCH'' [] (admin (update_user_handler L reader))]
     @ if_some (op_invitations opts) (\<lambda>s. [on ''POST'' [''v1'', ''admin'', ''users'', ''invitations''] (admin (invite_handler L s))])
     @ if_some (op_password opts) (\<lambda>s. [on_user ''POST'' [''password-reset''] (admin (reset_user_handler reader s))])
     @ [on_user ''PATCH'' [''roles''] (admin (set_roles_handler L reader)),
        on ''GET'' [''v1'', ''admin'', ''audit-events''] (admin (audit_events_handler L reader))]"

definition identity_routes :: "http_lib \<Rightarrow> options \<Rightarrow> route list" where
  "identity_routes L opts = if_some (op_identity opts) (\<lambda>reader. if_some (op_token_parser opts) (\<lambda>parser.
     [on ''GET'' [''v1'', ''me''] (require_auth parser (me_handler reader))]
     @ if_some (op_authorizer opts) (\<lambda>authorizer.
         let admin = (\<lambda>next. require_auth parser (require_permission authorizer admin_permission next))
         in [on ''GET'' [''v1'', ''admin'', ''roles''] (admin (roles_handler reader)),
             on ''GET'' [''v1'', ''admin'', ''permissions''] (admin (permissions_handler reader))]
            @ if_some (op_admin opts) (admin_routes L opts admin))))"

definition routes :: "http_lib \<Rightarrow> options \<Rightarrow> route list" where
  "routes L opts =
     (let timeout = (if op_probe_timeout opts \<le> 0 then default_probe_timeout else op_probe_timeout opts)
      in [on ''GET'' [''health'', ''live''] live_handler,
          on ''GET'' [''health'', ''ready''] (ready_handler timeout (op_probes opts))]
         @ auth_routes L opts @ identity_routes L opts)"

text \<open>
  The multiplexer. A \<open>GET\<close> pattern also takes \<open>HEAD\<close>; no two of the registered patterns take the
  same request, so the order does not matter.
\<close>

fun match_path :: "segment list \<Rightarrow> string list \<Rightarrow> (string \<times> string) list option" where
  "match_path [] [] = Some []"
| "match_path (Lit s # ps) (x # xs) = (if s = x then match_path ps xs else None)"
| "match_path (Wild n # ps) (x # xs) = map_option ((#) (n, x)) (match_path ps xs)"
| "match_path _ _ = None"

definition method_matches :: "string \<Rightarrow> string \<Rightarrow> bool" where
  "method_matches pattern method \<longleftrightarrow> pattern = method \<or> pattern = ''GET'' \<and> method = ''HEAD''"

definition takes :: "request \<Rightarrow> route \<Rightarrow> bool" where
  "takes r x \<longleftrightarrow> method_matches (en_method x) (rq_method r) \<and> match_path (en_path x) (rq_path r) \<noteq> None"

definition bind_path :: "route \<Rightarrow> request \<Rightarrow> request" where
  "bind_path x r = r\<lparr>rq_path_value := (\<lambda>name. case map_of (the (match_path (en_path x) (rq_path r))) name of
     None \<Rightarrow> [] | Some v \<Rightarrow> v)\<rparr>"

definition not_found_handler :: handler where
  "not_found_handler r = ret route_not_found"

definition mux :: "route list \<Rightarrow> handler" where
  "mux rs r = (case find (takes r) rs of None \<Rightarrow> not_found_handler r | Some x \<Rightarrow> en_handler x (bind_path x r))"

section \<open>cors.go\<close>

definition cors_origins :: "string list \<Rightarrow> string list" where
  "cors_origins allowed = filter (\<lambda>x. x \<noteq> []) (map trim_space allowed)"

definition cors_headers :: "string \<Rightarrow> (string \<times> string) list" where
  "cors_headers origin = [(''Access-Control-Allow-Origin'', origin), (''Access-Control-Allow-Credentials'', ''true''), (''Vary'', ''Origin'')]"

definition preflight_headers :: "(string \<times> string) list" where
  "preflight_headers = [(''Access-Control-Allow-Methods'', ''GET, POST, PATCH, DELETE, OPTIONS''),
     (''Access-Control-Allow-Headers'', ''Authorization, Content-Type, X-CSRF-Token''), (''Access-Control-Max-Age'', ''600'')]"

definition is_preflight :: "request \<Rightarrow> bool" where
  "is_preflight r \<longleftrightarrow> rq_method r = ''OPTIONS'' \<and> rq_header r ''Access-Control-Request-Method'' \<noteq> []"

definition cors :: "string list \<Rightarrow> handler \<Rightarrow> handler" where
  "cors allowed next r =
     (let normalized = cors_origins allowed; origin = rq_header r ''Origin''
      in if normalized = [] then next r
         else if origin = [] \<or> origin \<notin> set normalized then next r
         else if is_preflight r then ret ((write_header 204)\<lparr>rs_headers := cors_headers origin @ preflight_headers\<rparr>)
         else do {
           x \<leftarrow> next r;
           ret (x\<lparr>rs_headers := cors_headers origin @ rs_headers x\<rparr>) })"

definition new_router :: "http_lib \<Rightarrow> options \<Rightarrow> handler" where
  "new_router L opts = cors (op_cors_origins opts) (mux (routes L opts))"

end
