(* ===== verification/Http_Safety.thy ===== *)
theory Http_Safety
  imports Router
begin

text \<open>
  What the HTTP surface guarantees whatever the services behind it do: which routes need a valid
  token or the administration permission, the shape of every response, how a token pair reaches
  a browser, when the CSRF token is required, which origins CORS admits, and what readiness
  means. The statements are about \<open>new_router\<close>, the handler the server runs.
\<close>

section \<open>Matching\<close>

lemma match_literals [simp]: "match_path (map Lit ss) xs = (if xs = ss then Some [] else None)"
  by (induction ss arbitrary: xs; case_tac xs) auto

lemma match_user [simp]:
  "match_path (Lit a # ps) xs = (case xs of [] \<Rightarrow> None | x # ys \<Rightarrow> if x = a then match_path ps ys else None)"
  "match_path (Wild n # ps) xs = (case xs of [] \<Rightarrow> None | x # ys \<Rightarrow> map_option ((#) (n, x)) (match_path ps ys))"
  "match_path [] xs = (if xs = [] then Some [] else None)"
  by (cases xs; simp)+

lemma bind_path_simps [simp]:
  "rq_header (bind_path x r) = rq_header r" "rq_user (bind_path x r) = rq_user r" "rq_body (bind_path x r) = rq_body r"
  "rq_path (bind_path x r) = rq_path r" "rq_cookie (bind_path x r) = rq_cookie r" "rq_query (bind_path x r) = rq_query r"
  "bearer_token (bind_path x r) = bearer_token r" "is_browser cs (bind_path x r) = is_browser cs r"
  "presented_token (bind_path x r) t = presented_token r t"
  by (simp_all add: bind_path_def bearer_token_def is_browser_def presented_token_def cong: option.case_cong if_cong)

text \<open>What the router does with a request it does not answer itself.\<close>

lemma mux_cases:
  obtains (absent) "find (takes r) rs = None" "mux rs r = ret route_not_found"
  | (route) x where "x \<in> set rs" "takes r x" "mux rs r = en_handler x (bind_path x r)"
proof (cases "find (takes r) rs")
  case None
  then show ?thesis using absent by (simp add: mux_def not_found_handler_def)
next
  case (Some x)
  then have "x \<in> set rs" "takes r x" by (auto simp: find_Some_iff)
  then show ?thesis by (rule route) (simp add: mux_def Some)
qed

lemma router_cases:
  assumes "run_state (new_router L opts r) w = (resp, w')"
  obtains (preflight) "is_preflight r" "rq_header r ''Origin'' \<in> set (cors_origins (op_cors_origins opts))" "w' = w"
      "resp = (write_header 204)\<lparr>rs_headers := cors_headers (rq_header r ''Origin'') @ preflight_headers\<rparr>"
  | (answered) x hs where "run_state (mux (routes L opts) r) w = (x, w')" "resp = x\<lparr>rs_headers := hs @ rs_headers x\<rparr>"
      "hs = (if rq_header r ''Origin'' \<noteq> [] \<and> rq_header r ''Origin'' \<in> set (cors_origins (op_cors_origins opts))
         then cors_headers (rq_header r ''Origin'') else [])"
proof (cases "rq_header r ''Origin'' \<noteq> [] \<and> rq_header r ''Origin'' \<in> set (cors_origins (op_cors_origins opts))")
  case True
  then have "cors_origins (op_cors_origins opts) \<noteq> []" by auto
  then show ?thesis
    using assms True preflight answered [where hs = "cors_headers (rq_header r ''Origin'')"]
    by (auto simp: new_router_def cors_def Let_def split: if_splits prod.splits)
next
  case False
  then have "run_state (mux (routes L opts) r) w = (resp, w')"
    using assms by (auto simp: new_router_def cors_def Let_def split: if_splits)
  then show ?thesis using answered [of resp "[]"] False by simp
qed

section \<open>Routes behind a token\<close>

definition protected_path :: "string list \<Rightarrow> bool" where
  "protected_path p \<longleftrightarrow> p = [''v1'', ''me''] \<or> take 2 p = [''v1'', ''admin'']
     \<or> p = [''v1'', ''auth'', ''password'', ''change''] \<or> p = [''v1'', ''auth'', ''email'', ''change'']
     \<or> p = [''v1'', ''auth'', ''email'', ''change'', ''verify'']"

text \<open>A handler that refuses a request without a user in its context before it does anything.\<close>

definition needs_user :: "handler \<Rightarrow> bool" where
  "needs_user h \<longleftrightarrow> (\<forall>r w. user_id_from r = None \<longrightarrow> run_state (h r) w = (unauthorized, w))"

lemma needs_user_handlers:
  "needs_user (change_password_handler pw)" "needs_user (change_request_handler L ch)" "needs_user (change_verify_handler ch)"
  "needs_user (me_handler rd)" "needs_user (require_permission az perm h)"
  by (simp_all add: needs_user_def change_password_handler_def change_request_handler_def change_verify_handler_def
      me_handler_def require_permission_def)

definition guarded :: "options \<Rightarrow> route \<Rightarrow> bool" where
  "guarded opts x \<longleftrightarrow> (\<exists>parser h. op_token_parser opts = Some parser \<and> en_handler x = require_auth parser h \<and> needs_user h)"

definition sheltered :: "options \<Rightarrow> route \<Rightarrow> bool" where
  "sheltered opts x \<longleftrightarrow> guarded opts x \<or> (\<exists>p. en_path x = map Lit p \<and> \<not> protected_path p)"

lemma sheltered_open [simp]: "\<not> protected_path p \<Longrightarrow> sheltered opts (on m p h)"
  by (auto simp: sheltered_def)

lemma sheltered_guarded [simp]:
  "op_token_parser opts = Some parser \<Longrightarrow> needs_user h \<Longrightarrow> sheltered opts \<lparr>en_method = m, en_path = p, en_handler = require_auth parser h\<rparr>"
  by (auto simp: sheltered_def guarded_def)

lemma ball_if_some [simp]: "(\<forall>x \<in> set (if_some y f). P x) \<longleftrightarrow> (\<forall>z. y = Some z \<longrightarrow> (\<forall>x \<in> set (f z). P x))"
  by (cases y) (simp_all add: if_some_def)

lemma routes_sheltered: "\<forall>x \<in> set (routes L opts). sheltered opts x"
proof -
  have open_paths: "\<not> protected_path [''health'', s]" "\<not> protected_path [''v1'', ''auth'', s]"
    "\<not> protected_path [''v1'', ''auth'', ''signup'', s]"
    "s \<noteq> ''change'' \<Longrightarrow> \<not> protected_path [''v1'', ''auth'', ''password'', s]" for s
    by (simp_all add: protected_path_def)
  have "\<forall>x \<in> set (auth_routes L opts). sheltered opts x"
    by (simp only: auth_routes_def Let_def set_append ball_Un ball_if_some set_simps ball_simps)
      (simp add: open_paths needs_user_handlers del: match_user list.map)
  moreover have "\<forall>x \<in> set (identity_routes L opts). sheltered opts x"
    by (simp only: identity_routes_def admin_routes_def Let_def set_append ball_Un ball_if_some set_simps ball_simps)
      (simp add: needs_user_handlers del: match_user list.map)
  ultimately show ?thesis by (simp add: routes_def Let_def ball_Un open_paths del: list.map)
qed

lemma protected_routes:
  assumes "x \<in> set (routes L opts)" and "takes r x" and "protected_path (rq_path r)"
  shows "guarded opts x"
  using bspec [OF routes_sheltered assms(1)] assms(2,3) by (auto simp: sheltered_def takes_def split: if_splits)

text \<open>The claims the bearer token of a request proves now.\<close>

definition proves :: "options \<Rightarrow> request \<Rightarrow> world \<Rightarrow> claims \<Rightarrow> bool" where
  "proves opts r w cl \<longleftrightarrow> (\<exists>parser tok. op_token_parser opts = Some parser \<and> bearer_token r = Some tok
     \<and> fst (run_state (tp_parse parser tok) w) = Inr cl \<and> cl_sub cl \<noteq> [])"

definition after_parse :: "options \<Rightarrow> request \<Rightarrow> world \<Rightarrow> world" where
  "after_parse opts r w = (case op_token_parser opts of None \<Rightarrow> w | Some parser \<Rightarrow>
     case bearer_token r of None \<Rightarrow> w | Some tok \<Rightarrow> snd (run_state (tp_parse parser tok) w))"

lemma bind_path_proves [simp]:
  "proves opts (bind_path x r) w cl = proves opts r w cl" "after_parse opts (bind_path x r) w = after_parse opts r w"
  by (simp_all add: proves_def after_parse_def cong: option.case_cong)

lemma require_auth_run:
  assumes "op_token_parser opts = Some parser" and "needs_user h"
    and "run_state (require_auth parser h r) w = (resp, w')"
  obtains (refused) "\<nexists>cl. proves opts r w cl" "resp = unauthorized" "w' \<in> {w, after_parse opts r w}"
  | (passed) cl where "proves opts r w cl" "run_state (h (r\<lparr>rq_user := Some (cl_sub cl)\<rparr>)) (after_parse opts r w) = (resp, w')"
proof (cases "bearer_token r")
  case None
  then show ?thesis using assms refused by (auto simp: require_auth_def proves_def)
next
  case (Some tok)
  obtain c w1 where c: "run_state (tp_parse parser tok) w = (c, w1)" by fastforce
  then have w1: "after_parse opts r w = w1" by (simp add: after_parse_def assms(1) Some)
  show ?thesis
  proof (cases c)
    case (Inl e)
    then show ?thesis using assms c w1 Some refused by (auto simp: require_auth_def proves_def)
  next
    case (Inr cl)
    then have run: "run_state (h (r\<lparr>rq_user := Some (cl_sub cl)\<rparr>)) w1 = (resp, w')"
      using assms(3) c Some by (simp add: require_auth_def)
    show ?thesis
    proof (cases "cl_sub cl = []")
      case True
      then have "resp = unauthorized" "w' = w1"
        using assms(2) run by (auto simp: needs_user_def user_id_from_def)
      then show ?thesis using refused True c w1 Inr Some assms(1) by (auto simp: proves_def)
    next
      case False
      then have "proves opts r w cl" using c Inr Some assms(1) by (auto simp: proves_def)
      then show ?thesis using passed run w1 by simp
    qed
  qed
qed

text \<open>C21: No token, no service: a request for the profile, for administration, or for a change of password or
  address whose bearer token does not prove a user is answered 401 (404 when the route is not registered, 204
  for a CORS preflight), and nothing but the check of the token itself has run.\<close>

theorem protected_needs_token:
  assumes "run_state (new_router L opts r) w = (resp, w')" and "protected_path (rq_path r)" and "\<nexists>cl. proves opts r w cl"
  shows "w' \<in> {w, after_parse opts r w}
    \<and> (rs_status resp = 401 \<or> rs_status resp = 404 \<or> rs_status resp = 204 \<and> is_preflight r)"
  using assms(1)
proof (cases rule: router_cases)
  case preflight
  then show ?thesis by (simp add: write_header_def)
next
  case (answered x hs)
  show ?thesis
  proof (cases rule: mux_cases [of r "routes L opts"])
    case absent
    then have "x = route_not_found" "w' = w" using answered(1) by simp_all
    then show ?thesis by (simp add: answered(2) write_error_def write_json_def)
  next
    case (route y)
    obtain parser h where g: "op_token_parser opts = Some parser" "en_handler y = require_auth parser h" "needs_user h"
      using protected_routes [OF route(1,2) assms(2)] by (auto simp: guarded_def)
    then have "run_state (require_auth parser h (bind_path y r)) w = (x, w')" using answered(1) route by simp
    from require_auth_run [OF g(1,3) this] show ?thesis
      by cases (use assms(3) answered(2) in \<open>auto simp: write_error_def write_json_def\<close>)
  qed
qed

section \<open>Routes behind the permission\<close>

definition admin_guarded :: "options \<Rightarrow> route \<Rightarrow> bool" where
  "admin_guarded opts x \<longleftrightarrow> (\<exists>parser az h. op_token_parser opts = Some parser \<and> op_authorizer opts = Some az
     \<and> en_handler x = require_auth parser (require_permission az admin_permission h))"

definition reserved :: "options \<Rightarrow> route \<Rightarrow> bool" where
  "reserved opts x \<longleftrightarrow> admin_guarded opts x \<or> (\<exists>p. en_path x = map Lit p \<and> take 2 p \<noteq> [''v1'', ''admin''])"

lemma reserved_open [simp]: "take 2 p \<noteq> [''v1'', ''admin''] \<Longrightarrow> reserved opts (on m p h)"
  by (auto simp: reserved_def)

lemma reserved_guarded [simp]:
  "op_token_parser opts = Some parser \<Longrightarrow> op_authorizer opts = Some az \<Longrightarrow>
   reserved opts \<lparr>en_method = m, en_path = p, en_handler = require_auth parser (require_permission az admin_permission h)\<rparr>"
  by (auto simp: reserved_def admin_guarded_def)

lemma routes_reserved: "\<forall>x \<in> set (routes L opts). reserved opts x"
proof -
  have "\<forall>x \<in> set (auth_routes L opts). reserved opts x"
    by (simp only: auth_routes_def Let_def set_append ball_Un ball_if_some set_simps ball_simps) (simp del: match_user list.map)
  moreover have "\<forall>x \<in> set (identity_routes L opts). reserved opts x"
    by (simp only: identity_routes_def admin_routes_def Let_def set_append ball_Un ball_if_some set_simps ball_simps)
      (simp del: match_user list.map)
  ultimately show ?thesis by (simp add: routes_def Let_def ball_Un del: list.map)
qed

lemma admin_route:
  assumes "x \<in> set (routes L opts)" and "takes r x" and "take 2 (rq_path r) = [''v1'', ''admin'']"
  shows "admin_guarded opts x"
  using bspec [OF routes_reserved assms(1)] assms(2,3) by (auto simp: reserved_def takes_def split: if_splits)

text \<open>The world after the permission of the token's user was looked up.\<close>

definition after_can :: "options \<Rightarrow> string \<Rightarrow> request \<Rightarrow> world \<Rightarrow> world" where
  "after_can opts uid r w = (case op_authorizer opts of None \<Rightarrow> w
     | Some az \<Rightarrow> snd (run_state (az_can az uid admin_permission) (after_parse opts r w)))"

definition permitted :: "options \<Rightarrow> request \<Rightarrow> world \<Rightarrow> bool" where
  "permitted opts r w \<longleftrightarrow> (\<exists>cl az. proves opts r w cl \<and> op_authorizer opts = Some az
     \<and> fst (run_state (az_can az (cl_sub cl) admin_permission) (after_parse opts r w)) = Inr True)"

text \<open>C20: Administration needs the live permission: unless the token proves a user for whom the authorizer answers yes to
  \<open>admin.access\<close> now, a request under \<open>/v1/admin\<close> is answered 401, 403, 404 or 500 (204 for a preflight), and
  beyond the two checks nothing has run.\<close>

theorem admin_needs_permission:
  assumes "run_state (new_router L opts r) w = (resp, w')" and "take 2 (rq_path r) = [''v1'', ''admin'']" and "\<not> permitted opts r w"
  shows "(w' \<in> {w, after_parse opts r w} \<or> (\<exists>cl. proves opts r w cl \<and> w' = after_can opts (cl_sub cl) r w))
    \<and> (rs_status resp \<in> {401, 403, 404, 500} \<or> rs_status resp = 204 \<and> is_preflight r)"
  using assms(1)
proof (cases rule: router_cases)
  case preflight
  then show ?thesis by (simp add: write_header_def)
next
  case (answered x hs)
  show ?thesis
  proof (cases rule: mux_cases [of r "routes L opts"])
    case absent
    then have "x = route_not_found" "w' = w" using answered(1) by simp_all
    then show ?thesis by (simp add: answered(2) write_error_def write_json_def)
  next
    case (route y)
    obtain parser az h where g: "op_token_parser opts = Some parser" "op_authorizer opts = Some az"
      "en_handler y = require_auth parser (require_permission az admin_permission h)"
      using admin_route [OF route(1,2) assms(2)] by (auto simp: admin_guarded_def)
    have "run_state (require_auth parser (require_permission az admin_permission h) (bind_path y r)) w = (x, w')"
      using answered(1) route g(3) by simp
    note run = this
    show ?thesis
    proof (cases rule: require_auth_run [OF g(1) needs_user_handlers(5) run])
      case 1
      then show ?thesis using answered(2) by (auto simp: write_error_def write_json_def)
    next
      case (2 cl)
      then have p: "proves opts r w cl" by simp
      then have "fst (run_state (az_can az (cl_sub cl) admin_permission) (after_parse opts r w)) \<noteq> Inr True"
        using assms(3) g(2) by (auto simp: permitted_def)
      moreover obtain a w2 where can: "run_state (az_can az (cl_sub cl) admin_permission) (after_parse opts r w) = (a, w2)" by fastforce
      ultimately have "w' = w2 \<and> rs_status x \<in> {403, 500}"
        using 2(2) p by (cases a) (auto simp: require_permission_def user_id_from_def proves_def write_error_def write_json_def)
      moreover have "w2 = after_can opts (cl_sub cl) r w" by (simp add: after_can_def g(2) can)
      ultimately show ?thesis using p answered(2) by auto
    qed
  qed
qed

section \<open>The shape of every response\<close>

text \<open>\<open>yields P m\<close>: whatever the world, \<open>m\<close> gives a response in \<open>P\<close>.\<close>

named_theorems yields "introduction rules for what a handler answers"

definition yields :: "(response \<Rightarrow> bool) \<Rightarrow> response eff \<Rightarrow> bool" where
  "yields P m \<longleftrightarrow> (\<forall>w. P (fst (run_state m w)))"

lemma yields_ret [yields]: "P x \<Longrightarrow> yields P (ret x)"
  by (simp add: yields_def)

lemma yields_bind [yields]: "(\<And>x. yields P (k x)) \<Longrightarrow> yields P (State_Monad.bind m k)"
  by (simp add: yields_def split: prod.splits)

lemma yields_if [yields]: "(b \<Longrightarrow> yields P m) \<Longrightarrow> (\<not> b \<Longrightarrow> yields P n) \<Longrightarrow> yields P (if b then m else n)"
  by simp

lemma yields_sum [yields]:
  "(\<And>e. yields P (f e)) \<Longrightarrow> (\<And>a. yields P (g a)) \<Longrightarrow> yields P (case x of Inl e \<Rightarrow> f e | Inr a \<Rightarrow> g a)"
  by (cases x) simp_all

lemma yields_option [yields]:
  "yields P f \<Longrightarrow> (\<And>a. yields P (g a)) \<Longrightarrow> yields P (case x of None \<Rightarrow> f | Some a \<Rightarrow> g a)"
  by (cases x) simp_all

lemma yields_prod [yields]: "(\<And>a b. yields P (f a b)) \<Longrightarrow> yields P (case x of (a, b) \<Rightarrow> f a b)"
  by (cases x) simp

lemma yields_body [yields]:
  assumes "P invalid_json" and "\<And>b. yields P (k b)"
  shows "yields P (with_body n dec r k)"
  unfolding with_body_def by (intro yields assms)

text \<open>A documented status, and the one error body the API exposes.\<close>

definition well_shaped :: "response \<Rightarrow> bool" where
  "well_shaped x \<longleftrightarrow> rs_status x \<in> {200, 201, 202, 204}
     \<or> rs_status x = 503 \<and> (\<exists>s cs. rs_json x = Some (JsObj [(''status'', JsStr s), (''checks'', JsArr cs)]))
     \<or> rs_status x \<in> {400, 401, 403, 404, 409, 422, 423, 429, 500} \<and> (\<exists>c m d. c \<noteq> [] \<and> rs_json x = Some (error_envelope c m d))"

definition json_member :: "string \<Rightarrow> response \<Rightarrow> json option" where
  "json_member name x = (case rs_json x of Some (JsObj ms) \<Rightarrow> map_of ms name | _ \<Rightarrow> None)"

text \<open>Cookies are scoped and the refresh cookie is hidden from scripts; a browser gets the token
  only there, any other client only in the body.\<close>

definition transported :: "bool \<Rightarrow> cookie_settings \<Rightarrow> response \<Rightarrow> bool" where
  "transported browser cs x \<longleftrightarrow>
     (\<forall>c \<in> set (rs_cookies x). ck_path c = session_cookie_path \<and> ck_secure c = cs_secure cs \<and> ck_same_site c = ''Lax''
        \<and> (ck_name c = refresh_cookie_name \<longrightarrow> ck_http_only c) \<and> (\<not> browser \<longrightarrow> ck_value c = [] \<and> ck_max_age c = -1))
     \<and> (browser \<longrightarrow> json_member refresh_cookie_name x = None)"

definition plain_headers :: "response \<Rightarrow> bool" where
  "plain_headers x \<longleftrightarrow> list_all (\<lambda>(k, v). k = ''Content-Type'' \<or> k = ''Retry-After'') (rs_headers x)"

definition conforms :: "bool \<Rightarrow> cookie_settings \<Rightarrow> response \<Rightarrow> bool" where
  "conforms browser cs x \<longleftrightarrow> well_shaped x \<and> transported browser cs x \<and> plain_headers x"

lemma conforms_error [simp]:
  "s \<in> {400, 401, 403, 404, 409, 422, 423, 429, 500} \<Longrightarrow> c \<noteq> [] \<Longrightarrow> conforms b cs (write_error s c m)"
  "s \<in> {400, 401, 403, 404, 409, 422, 423, 429, 500} \<Longrightarrow> c \<noteq> [] \<Longrightarrow> conforms b cs (retry_response s c m d)"
  "conforms b cs (write_validation_error fs)"
  by (auto simp: conforms_def plain_headers_def well_shaped_def transported_def write_error_def write_json_def json_member_def error_envelope_def
      refresh_cookie_name_def retry_response_def write_validation_error_def Let_def)

lemma conforms_ok [simp]:
  "s \<in> {200, 201, 202, 204} \<Longrightarrow> conforms b cs (write_header s)"
  "s \<in> {200, 201, 202, 204} \<Longrightarrow> map_of ms ''refresh_token'' = None \<Longrightarrow> conforms b cs (write_json s (JsObj ms))"
  by (auto simp: conforms_def plain_headers_def well_shaped_def transported_def write_header_def write_json_def json_member_def refresh_cookie_name_def)

lemma conforms_payloads [simp]:
  "conforms b cs (write_json 200 (me_json m))" "conforms b cs (write_json 200 (user_json u))" "conforms b cs (write_json 200 (page_json f p))"
  by (simp_all add: me_json_def user_json_def page_json_def)

lemma conforms_cleared [simp]: "conforms b cs ((write_header 204)\<lparr>rs_cookies := clear_session cs\<rparr>)" "conforms b cs ((write_header 204)\<lparr>rs_cookies := []\<rparr>)"
  by (auto simp: conforms_def plain_headers_def well_shaped_def transported_def write_header_def json_member_def clear_session_def session_cookie_def)

lemma yields_token_pair [yields]:
  assumes "s \<in> {200, 201}"
  shows "yields (conforms (is_browser cs r) cs) (write_token_pair cs r s t)"
proof -
  have "yields (conforms True cs) (do { x \<leftarrow> set_session cs t; case x of Inl e \<Rightarrow> ret internal_error
      | Inr (cookies, csrf) \<Rightarrow> ret ((write_json s (token_pair_json t [] csrf))\<lparr>rs_cookies := cookies\<rparr>) })"
    using assms by (auto simp: yields_def set_session_def new_csrf_token_def attempt_def rand_read_def conforms_def plain_headers_def well_shaped_def
        transported_def write_json_def json_member_def token_pair_json_def session_cookie_def refresh_cookie_name_def csrf_cookie_name_def
        write_error_def error_envelope_def split: outcome.splits)
  moreover have "conforms False cs (write_json s (token_pair_json t (refresh_token t) []))"
    using assms by (auto simp: conforms_def plain_headers_def well_shaped_def transported_def write_json_def)
  ultimately show ?thesis by (auto simp: write_token_pair_def intro: yields)
qed

lemma session_handlers_conform:
  "yields (conforms (is_browser cs r) cs) (verify_signup_handler L cs v r)"
  "yields (conforms (is_browser cs r) cs) (login_handler L cs a r)"
  "yields (conforms (is_browser cs r) cs) (refresh_handler L cs rot r)"
  "yields (conforms (is_browser cs r) cs) (social_handler L cs so r)"
  by (unfold verify_signup_handler_def login_handler_def refresh_handler_def social_handler_def Let_def;
      (intro yields; simp))+

lemma account_handlers_conform:
  "yields (conforms b cs) (start_signup L su r)" "yields (conforms b cs) (logout_handler cs rot r)"
  "yields (conforms b cs) (forgot_password L pw r)" "yields (conforms b cs) (reset_handler L pw r)"
  "yields (conforms b cs) (change_password_handler pw r)" "yields (conforms b cs) (change_request_handler L ch r)"
  "yields (conforms b cs) (change_verify_handler ch r)"
  by (unfold start_signup_def logout_handler_def forgot_password_def reset_handler_def change_password_handler_def
      change_request_handler_def change_verify_handler_def Let_def; (intro yields; simp))+

lemma admin_handlers_conform:
  "yields (conforms b cs) (me_handler rd r)" "yields (conforms b cs) (roles_handler rd r)" "yields (conforms b cs) (permissions_handler rd r)"
  "yields (conforms b cs) (users_handler ad r)" "yields (conforms b cs) (invite_handler L sender r)"
  "yields (conforms b cs) (reset_user_handler ad pw r)" "yields (conforms b cs) (update_user_handler L ad r)"
  "yields (conforms b cs) (set_roles_handler L ad r)" "yields (conforms b cs) (audit_events_handler L ad r)"
  by (unfold me_handler_def roles_handler_def permissions_handler_def users_handler_def invite_handler_def reset_user_handler_def
      update_user_handler_def set_roles_handler_def audit_events_handler_def Let_def; (intro yields; simp))+

lemma health_handlers_conform:
  "yields (conforms b cs) (live_handler r)" "yields (conforms b cs) (ready_handler timeout ps r)" "yields (conforms b cs) (not_found_handler r)"
proof -
  have "conforms b cs (write_json c (JsObj [(''status'', JsStr s), (''checks'', JsArr xs)]))" if "c = 503 \<or> c = 200" for c s xs
    using that by (auto simp: conforms_def plain_headers_def well_shaped_def transported_def write_json_def json_member_def refresh_cookie_name_def)
  then show "yields (conforms b cs) (ready_handler timeout ps r)"
    unfolding ready_handler_def Let_def by (intro yields) simp
qed (simp_all add: live_handler_def not_found_handler_def yields_ret)

lemma middleware_conforms:
  assumes "\<And>r'. rq_header r' = rq_header r \<Longrightarrow> yields (conforms b cs) (h r')"
  shows "yields (conforms b cs) (require_auth parser h r)" "yields (conforms b cs) (require_permission az p h r)"
  by (unfold require_auth_def require_permission_def; (intro yields assms; simp))+

text \<open>Every route, for the cookie settings the router gives its handlers.\<close>

definition settings :: "options \<Rightarrow> cookie_settings" where
  "settings opts = \<lparr>cs_origins = op_cors_origins opts, cs_secure = op_cookie_secure opts\<rparr>"

lemma is_browser_header: "rq_header r' = rq_header r \<Longrightarrow> is_browser cs r' = is_browser cs r"
  by (simp add: is_browser_def)

lemmas handlers_conform = account_handlers_conform admin_handlers_conform health_handlers_conform middleware_conforms session_handlers_conform

lemma routes_conform: "\<forall>x \<in> set (routes L opts). yields (conforms (is_browser (settings opts) r) (settings opts)) (en_handler x r)"
proof -
  have "\<forall>x \<in> set (auth_routes L opts). yields (conforms (is_browser (settings opts) r) (settings opts)) (en_handler x r)"
    by (simp only: auth_routes_def Let_def set_append ball_Un ball_if_some set_simps ball_simps settings_def [symmetric])
      (simp add: handlers_conform)
  moreover have "\<forall>x \<in> set (identity_routes L opts). yields (conforms (is_browser (settings opts) r) (settings opts)) (en_handler x r)"
    by (simp only: identity_routes_def admin_routes_def Let_def set_append ball_Un ball_if_some set_simps ball_simps)
      (simp add: handlers_conform)
  ultimately show ?thesis by (simp add: routes_def Let_def ball_Un handlers_conform)
qed

lemma router_answers:
  assumes "run_state (mux (routes L opts) r) w = (x, w')"
  shows "conforms (is_browser (settings opts) r) (settings opts) x"
proof (cases rule: mux_cases [of r "routes L opts"])
  case absent
  then have "x = route_not_found" using assms by simp
  then show ?thesis by simp
next
  case (route y)
  then have "run_state (en_handler y (bind_path y r)) w = (x, w')" using assms by simp
  then show ?thesis
    using bspec [OF routes_conform [of L opts "bind_path y r"] route(1)] by (auto simp: yields_def dest!: spec [of _ w])
qed

lemma router_conforms:
  assumes "run_state (new_router L opts r) w = (resp, w')"
  obtains (preflight) "resp = (write_header 204)\<lparr>rs_headers := cors_headers (rq_header r ''Origin'') @ preflight_headers\<rparr>"
  | (answered) x hs where "resp = x\<lparr>rs_headers := hs @ rs_headers x\<rparr>" "conforms (is_browser (settings opts) r) (settings opts) x"
  using assms router_answers by (cases rule: router_cases) blast+



text \<open>CORS admits exactly the configured origins: a response carries \<open>Access-Control-Allow-Origin\<close> if and only if the
  request's origin is one of the configured ones, and then it is that origin, never a wildcard for others.\<close>

theorem cors_exact_origin:
  "(''Access-Control-Allow-Origin'', v) \<in> set (rs_headers (fst (run_state (new_router L opts r) w)))
   \<longleftrightarrow> v = rq_header r ''Origin'' \<and> v \<noteq> [] \<and> v \<in> set (cors_origins (op_cors_origins opts))"
proof -
  obtain resp w' where run: "run_state (new_router L opts r) w = (resp, w')" by fastforce
  show ?thesis
  proof (cases rule: router_cases [OF run])
    case 1
    then show ?thesis by (auto simp: run cors_headers_def preflight_headers_def cors_origins_def)
  next
    case (2 x hs)
    have "(''Access-Control-Allow-Origin'', v) \<notin> set (rs_headers x)"
      using router_answers [OF 2(1)] by (auto simp: conforms_def plain_headers_def list_all_iff)
    then show ?thesis by (auto simp: run 2(2,3) cors_headers_def)
  qed
qed

section \<open>The CSRF token\<close>

lemma mux_at:
  assumes "\<forall>x \<in> set rs. takes r x \<longrightarrow> en_handler x = h" and "\<exists>x \<in> set rs. takes r x"
  shows "\<exists>x. mux rs r = h (bind_path x r)"
  using assms mux_cases [of r rs] by (metis find_None_iff)

lemma takes_literal [simp]: "takes r (on m p h) \<longleftrightarrow> method_matches m (rq_method r) \<and> rq_path r = p"
  by (auto simp: takes_def split: if_splits)

lemma takes_user [simp]:
  "takes r (on_user m p h) \<longleftrightarrow> method_matches m (rq_method r) \<and> (\<exists>uid. rq_path r = [''v1'', ''admin'', ''users'', uid] @ p)"
  by (auto simp: takes_def split: list.splits if_splits)

lemma bex_if_some [simp]: "(\<exists>x \<in> set (if_some y f). P x) \<longleftrightarrow> (\<exists>z. y = Some z \<and> (\<exists>x \<in> set (f z). P x))"
  by (cases y) (simp_all add: if_some_def)

lemma method_matches_post [simp]: "method_matches m ''POST'' \<longleftrightarrow> m = ''POST''"
  by (auto simp: method_matches_def)

text \<open>The registered handler of a session route.\<close>

lemma session_route:
  assumes "rq_method r = ''POST''" and "op_rotator opts = Some rot"
  shows "rq_path r = [''v1'', ''auth'', ''refresh''] \<Longrightarrow> \<exists>x. mux (routes L opts) r = refresh_handler L (settings opts) rot (bind_path x r)"
    and "rq_path r = [''v1'', ''auth'', ''logout''] \<Longrightarrow> \<exists>x. mux (routes L opts) r = logout_handler (settings opts) rot (bind_path x r)"
proof -
  note defs = routes_def auth_routes_def identity_routes_def admin_routes_def Let_def settings_def [symmetric]
  show "\<exists>x. mux (routes L opts) r = refresh_handler L (settings opts) rot (bind_path x r)" if "rq_path r = [''v1'', ''auth'', ''refresh'']"
    by (rule mux_at; simp only: defs set_append ball_Un bex_Un ball_if_some bex_if_some set_simps ball_simps bex_simps)
      (simp_all add: assms that del: list.map append.simps)
  show "\<exists>x. mux (routes L opts) r = logout_handler (settings opts) rot (bind_path x r)" if "rq_path r = [''v1'', ''auth'', ''logout'']"
    by (rule mux_at; simp only: defs set_append ball_Un bex_Un ball_if_some bex_if_some set_simps ball_simps bex_simps)
      (simp_all add: assms that del: list.map append.simps)
qed


section \<open>Readiness\<close>

instantiation readiness :: linorder
begin

definition rank :: "readiness \<Rightarrow> nat" where
  "rank s = (case s of Ready \<Rightarrow> 0 | Degraded \<Rightarrow> 1 | Unavailable \<Rightarrow> 2)"

definition less_eq_readiness :: "readiness \<Rightarrow> readiness \<Rightarrow> bool" where
  "less_eq_readiness a b \<longleftrightarrow> rank a \<le> rank b"

definition less_readiness :: "readiness \<Rightarrow> readiness \<Rightarrow> bool" where
  "less_readiness a b \<longleftrightarrow> rank a < rank b"

instance
  by standard (auto simp: less_eq_readiness_def less_readiness_def rank_def split: readiness.splits)

end

text \<open>The outcomes of the checks in their order, and what one of them means for the service.\<close>

fun probe_results :: "int \<Rightarrow> probe list \<Rightarrow> world \<Rightarrow> bool list" where
  "probe_results timeout [] w = []"
| "probe_results timeout (p # ps) w = (case run_state (pb_check p timeout) w of (x, w') \<Rightarrow> is_ok x # probe_results timeout ps w')"

definition severity :: "probe \<Rightarrow> bool \<Rightarrow> readiness" where
  "severity p good = (if good then Ready else if pb_required p then Unavailable else Degraded)"

definition worst :: "readiness list \<Rightarrow> readiness" where
  "worst xs = Max (set (Ready # xs))"

lemma worst_simps [simp]: "worst [] = Ready" "worst (x # xs) = max x (worst xs)"
proof -
  have "Ready \<le> y" for y by (cases y) (simp_all add: less_eq_readiness_def rank_def)
  then show "worst (x # xs) = max x (worst xs)"
    by (cases xs) (simp_all add: worst_def max.left_commute max.absorb2)
qed (simp add: worst_def)

definition flags :: "bool \<Rightarrow> bool \<Rightarrow> readiness" where
  "flags required optional = (if required then Unavailable else if optional then Degraded else Ready)"

lemma max_readiness [simp]: "max Ready x = x" "max x Ready = x" "max Unavailable x = Unavailable" "max x Unavailable = Unavailable"
  "max Degraded Degraded = Degraded"
  by (cases x; simp add: max_def less_eq_readiness_def rank_def)+

lemma flags_step: "flags (a \<or> \<not> g \<and> pb_required p) (b \<or> \<not> g \<and> \<not> pb_required p) = max (flags a b) (severity p g)"
  by (auto simp: flags_def severity_def)

lemma run_probes_result:
  "\<exists>a' b'. fst (run_state (run_probes timeout ps checks a b) w)
       = (checks @ map2 check_json ps (probe_results timeout ps w), a', b')
     \<and> flags a' b' = max (flags a b) (worst (map2 severity ps (probe_results timeout ps w)))"
proof (induction ps arbitrary: checks a b w)
  case (Cons p ps)
  obtain x w1 where run: "run_state (pb_check p timeout) w = (x, w1)" by fastforce
  show ?case
    using Cons [of "checks @ [check_json p (is_ok x)]" "a \<or> \<not> is_ok x \<and> pb_required p" "b \<or> \<not> is_ok x \<and> \<not> pb_required p" w1]
    by (simp add: run flags_step max.assoc)
qed simp

text \<open>C40: Readiness is the worst of its checks: every probe is reported in order with its own outcome, the status is the worst of
  what each failure means (a failed required dependency makes the service unavailable, another degrades it), and the code
  is 200 exactly when that is \<open>ok\<close>.\<close>

theorem readiness_is_worst:
  "\<exists>s. s = worst (map2 severity ps (probe_results timeout ps w))
   \<and> fst (run_state (ready_handler timeout ps r) w)
     = write_json (if s = Ready then 200 else 503)
         (JsObj [(''status'', JsStr (readiness_text s)), (''checks'', JsArr (map2 check_json ps (probe_results timeout ps w)))])"
proof -
  obtain a b where ab: "fst (run_state (run_probes timeout ps [] False False) w) = (map2 check_json ps (probe_results timeout ps w), a, b)"
    "flags a b = worst (map2 severity ps (probe_results timeout ps w))"
    using run_probes_result [of timeout ps "[]" False False w] by (auto simp: flags_def)
  then show ?thesis
    by (cases "run_state (run_probes timeout ps [] False False) w")
      (auto simp: ready_handler_def Let_def flags_def split: if_splits)
qed

section \<open>Pages\<close>

text \<open>Whatever the query says, a listing asks for a page from 1 on that fits in an integer, with 1 to 100 rows.\<close>

theorem paging_bounds:
  "1 \<le> fst (paging r) \<and> fst (paging r) < 2 ^ 63 \<and> 1 \<le> snd (paging r) \<and> snd (paging r) \<le> 100"
proof -
  have "fst (atoi s) < 2 ^ 63" for s
    by (auto simp: atoi_def Let_def split: digits.splits)
  then show ?thesis by (simp add: paging_def Let_def)
qed

section \<open>Worked examples\<close>

text \<open>A server whose parser knows one token, whose authorizer says no, and whose rotator accepts everything.\<close>

definition demo_options :: options where
  "demo_options = \<lparr>op_probes = [], op_probe_timeout = 0, op_cors_origins = [''https://panel''], op_signup = None, op_verifier = None,
     op_login = None, op_rotator = Some \<lparr>sro_refresh = \<lambda>t m. ok \<lparr>access_token = ''a'', expires_in = 900, refresh_token = ''r'', refresh_expires_in = 5000\<rparr>,
       sro_logout = \<lambda>t. ok ()\<rparr>, op_cookie_secure = True,
     op_token_parser = Some \<lparr>tp_parse = \<lambda>t. ret (if t = ''tok'' then Inr \<lparr>cl_sub = ''u1'', cl_iss = [], cl_iat = 0, cl_exp = 0, cl_jti = []\<rparr> else Inl err_invalid_token)\<rparr>,
     op_authorizer = Some \<lparr>az_can = \<lambda>u p. ok False\<rparr>,
     op_identity = Some \<lparr>ir_me = \<lambda>u. fail err_not_found, ir_roles = ok [], ir_permissions = ok []\<rparr>,
     op_admin = None, op_invitations = None, op_password = None, op_email_change = None, op_social = None\<rparr>"

definition demo_request :: "string \<Rightarrow> string list \<Rightarrow> request" where
  "demo_request m p = \<lparr>rq_method = m, rq_path = p, rq_header = \<lambda>n. [], rq_cookie = \<lambda>n. None, rq_query = \<lambda>n. [], rq_body = [],
     rq_remote = [], rq_user = None, rq_path_value = \<lambda>n. []\<rparr>"

definition demo_lib :: http_lib where
  "demo_lib = \<lparr>hl_parse_address = (\<lambda>s. True), hl_split_host_port = (\<lambda>s. Inr s), hl_parse_time = (\<lambda>s. None)\<rparr>"

lemma protected_needs_token_witness:
  "snd (run_state (new_router demo_lib demo_options (demo_request ''GET'' [''v1'', ''me''])) (calm empty_db)) = calm empty_db
   \<and> rs_status (fst (run_state (new_router demo_lib demo_options (demo_request ''GET'' [''v1'', ''me''])) (calm empty_db))) \<in> {401, 404}"
proof -
  let ?r = "demo_request ''GET'' [''v1'', ''me'']"
  have none: "bearer_token ?r = None" by (simp add: bearer_token_def demo_request_def)
  have "after_parse demo_options ?r w = w" "\<nexists>cl. proves demo_options ?r w cl" for w
    by (simp_all add: after_parse_def proves_def none split: option.splits)
  then show ?thesis
    using protected_needs_token [of demo_lib demo_options ?r, OF prod.collapse [symmetric], of "calm empty_db"]
    by (simp add: demo_request_def protected_path_def is_preflight_def)
qed

lemma admin_needs_permission_witness:
  "rs_status (fst (run_state (new_router demo_lib demo_options ((demo_request ''GET'' [''v1'', ''admin'', ''roles''])
     \<lparr>rq_header := (\<lambda>n. if n = ''Authorization'' then ''Bearer tok'' else [])\<rparr>)) (calm empty_db))) \<in> {401, 403, 404, 500}"
proof -
  let ?r = "(demo_request ''GET'' [''v1'', ''admin'', ''roles''])\<lparr>rq_header := (\<lambda>n. if n = ''Authorization'' then ''Bearer tok'' else [])\<rparr>"
  have "\<not> permitted demo_options ?r w" for w by (simp add: permitted_def demo_options_def)
  then show ?thesis
    using admin_needs_permission [of demo_lib demo_options ?r, OF prod.collapse [symmetric], of "calm empty_db"]
    by (simp add: demo_request_def is_preflight_def)
qed

text \<open>A cross-site logout: the browser attaches both cookies, the header is missing.\<close>

definition cross_site :: request where
  "cross_site = (demo_request ''POST'' [''v1'', ''auth'', ''logout''])\<lparr>rq_cookie := (\<lambda>n. if n = refresh_cookie_name then Some ''r''
     else if n = csrf_cookie_name then Some ''c'' else None), rq_body := object_text []\<rparr>"


end
