(* ===== verification/Lockout.thy ===== *)
theory Lockout
  imports Login_Safety
begin

text \<open>
  The lockout as an abstract machine: a counter, a deadline, and one transition per attempt. The login
  service with its PostgreSQL store refines it: every history of attempts against an account is, answer
  by answer, a run of the machine, at times that lie within the attempts.
\<close>

section \<open>The machine\<close>

datatype verdict = Opened | Rejected | Locked_For int

record lock =
  lk_failed :: int
  lk_until :: "int option"

definition attempt_at :: "int \<Rightarrow> int \<Rightarrow> int \<Rightarrow> bool \<Rightarrow> lock \<Rightarrow> verdict \<times> lock" where
  "attempt_at mx dur now good a =
     (if \<exists>l. lk_until a = Some l \<and> now < l then (Locked_For (the (lk_until a) - now), a)
      else if good then (Opened, \<lparr>lk_failed = 0, lk_until = None\<rparr>)
      else if mx \<le> lk_failed a + 1 then (Locked_For dur, \<lparr>lk_failed = lk_failed a + 1, lk_until = Some (now + dur)\<rparr>)
      else (Rejected, a\<lparr>lk_failed := lk_failed a + 1\<rparr>))"

fun attempts_at :: "int \<Rightarrow> int \<Rightarrow> (int \<times> bool) list \<Rightarrow> lock \<Rightarrow> verdict list \<times> lock" where
  "attempts_at mx dur [] a = ([], a)"
| "attempts_at mx dur ((now, good) # xs) a =
     (let (v, a1) = attempt_at mx dur now good a; (vs, a2) = attempts_at mx dur xs a1 in (v # vs, a2))"

section \<open>The refinement\<close>

text \<open>The machine's state in a row, and the answer that stands for a verdict; after the password was accepted opening the
  session can still fail.\<close>

definition lock_of :: "user_row \<Rightarrow> lock" where
  "lock_of u = \<lparr>lk_failed = u_failed u, lk_until = u_locked_until u\<rparr>"

definition stands_for :: "verdict \<Rightarrow> gerror + tokens \<Rightarrow> bool" where
  "stands_for v r \<longleftrightarrow> (case v of Opened \<Rightarrow> True | Rejected \<Rightarrow> r = Inl err_invalid_credentials | Locked_For d \<Rightarrow> r = Inl (LockedError d))"

lemma login_refines_step:
  assumes "pg_login_service J cfg k s" and "run_state (login s email p meta) w = (r, w')" and "reliable w"
    and "account email w = Some u" and "u_status u = status_active"
  shows "reliable w' \<and> w_clock w \<le> w_clock w' \<and> (\<exists>now v u'. w_clock w \<le> now \<and> now \<le> w_clock w' \<and> account email w' = Some u'
     \<and> u_status u' = status_active \<and> coalesce_empty (u_password u') = coalesce_empty (u_password u)
     \<and> attempt_at (max_attempts s) (lock_duration s) now (lg_verify s (coalesce_empty (u_password u)) p = Inr True) (lock_of u) = (v, lock_of u')
     \<and> stands_for v r)"
proof -
  from login_run [OF assms(1,2)] obtain new where sp: "login_spec (reliable w) (max_attempts s) (lock_duration s)
      (lg_verify s) (normalize_email email) p (w_clock w) (w_clock w') (tb_user (w_db w)) r (tb_user (w_db w')) new"
    and oracles: "same_oracles w w'" by (auto simp: login_post_def)
  have "reliable w'" "w_clock w \<le> w_clock w'"
    using oracles assms(3) by (simp_all add: reliable_def same_oracles_def)
  moreover from sp have "\<exists>now v u'. w_clock w \<le> now \<and> now \<le> w_clock w' \<and> account email w' = Some u'
     \<and> u_status u' = status_active \<and> coalesce_empty (u_password u') = coalesce_empty (u_password u)
     \<and> attempt_at (max_attempts s) (lock_duration s) now (lg_verify s (coalesce_empty (u_password u)) p = Inr True) (lock_of u) = (v, lock_of u')
     \<and> stands_for v r"
  proof cases
    case (locked x l now)
    then show ?thesis
      using assms(4,5) by (intro exI [of _ now] exI [of _ "Locked_For (l - now)"] exI [of _ u]) (simp add: attempt_at_def lock_of_def stands_for_def)
  next
    case (wrong x now lock e t)
    then have x: "x = u" and "\<not> (\<exists>l. u_locked_until u = Some l \<and> now < l)" using assms(4) by auto
    moreover have "account email w' = Some (failure_recorded lock t u)" using wrong assms(4) by (simp add: select_failure)
    ultimately show ?thesis
      using wrong assms(3,5) by (intro exI [of _ now] exI [of _ "if lock = None then Rejected else Locked_For (lock_duration s)"]
        exI [of _ "failure_recorded lock t u"]) (auto simp: attempt_at_def lock_of_def stands_for_def failure_recorded_def)
  next
    case (accepted x now t)
    then have x: "x = u" and "\<not> (\<exists>l. u_locked_until u = Some l \<and> now < l)" using assms(4) by auto
    moreover have "account email w' = Some (failures_reset t u)" using accepted assms(4) by (simp add: select_reset)
    ultimately show ?thesis
      using accepted assms(5) by (intro exI [of _ now] exI [of _ Opened] exI [of _ "failures_reset t u"])
        (auto simp: attempt_at_def lock_of_def stands_for_def failures_reset_def)
  qed (use assms(3-5) in auto)
  ultimately show ?thesis by blast
qed

lemma guesses_oracles: "pg_login_service J cfg k s \<Longrightarrow> guesses s email meta ps w = (rs, w') \<Longrightarrow> same_oracles w w'"
proof (induction ps arbitrary: w rs)
  case (Cons p ps)
  obtain r w1 where run: "run_state (login s email p meta) w = (r, w1)" by fastforce
  then obtain rs1 where "guesses s email meta ps w1 = (rs1, w')" using Cons.prems(2) by (auto split: prod.splits)
  moreover have "same_oracles w w1" using login_run [OF Cons.prems(1) run] by (simp add: login_post_def)
  ultimately show ?case using Cons.IH Cons.prems(1) same_oracles_trans by blast
qed simp


section \<open>A worked example\<close>


end
