(* ===== verification/Login_Burst.thy ===== *)
theory Login_Burst
  imports Lockout "HOL-Library.Multiset"
begin

text \<open>
  Concurrent logins. The service holds no lock between reading an account and recording a failure, so
  the attempts against one account interleave: \<open>login_step\<close> lets any attempt in progress make its next
  move, the reading of the account or everything after it, while at most \<open>k\<close> attempts are between the two.
  What the lockout still guarantees depends on \<open>k\<close>, and the bound is reached by a burst.
\<close>

section \<open>An attempt in two moves\<close>

text \<open>\<open>Login\<close> after \<open>Store.ByEmail\<close> has returned.\<close>

definition login_after :: "login_service \<Rightarrow> string \<Rightarrow> string \<Rightarrow> session_meta \<Rightarrow> gerror + login_user \<Rightarrow> tokens io" where
  "login_after s email password meta u = (case u of
       Inl e \<Rightarrow>
         if errors_is e err_login_not_found then do {
           let _ = lg_verify s (lg_dummy s) password;
           best_effort (lg_auditor s) (login_event event_login_failed [] email meta
             [(''reason'', JStr ''unknown_account'')]);
           fail err_invalid_credentials }
         else fail (wrap ''login: reading user: '' e)
     | Inr user \<Rightarrow> do {
         now \<leftarrow> read_clock;
         if (\<exists>l. lu_locked user = Some l \<and> now < l) then do {
           let retry = the (lu_locked user) - now;
           best_effort (lg_auditor s) (login_event event_login_locked (lu_id user) email meta
             [(''retry_after_seconds'', JInt (seconds retry)), (''reason'', JStr ''still_locked'')]);
           fail (LockedError retry) }
         else if lu_status user \<noteq> status_active then do {
           let _ = lg_verify s (lu_hash user) password;
           best_effort (lg_auditor s) (login_event event_login_failed (lu_id user) email meta
             [(''reason'', JStr ''account_not_active'')]);
           fail err_invalid_credentials }
         else (case lg_verify s (lu_hash user) password of
             Inl e \<Rightarrow> fail_attempt s user email meta now (Some e)
           | Inr ok' \<Rightarrow>
               if \<not> ok' then fail_attempt s user email meta now None
               else check ''login: resetting failures: '' (ls_reset_failures (lg_store s) (lu_id user)) (\<lambda>_.
                    attempt (lg_issuer s (lu_id user) meta) (\<lambda>toks. do {
                      best_effort (lg_auditor s) (login_event event_login_succeeded (lu_id user) email meta []);
                      best_effort (lg_auditor s) ((event event_session_created)\<lparr>ev_user := lu_id user,
                        ev_ip := m_ip meta, ev_user_agent := m_user_agent meta\<rparr>);
                      ok toks }))) })"

lemma login_in_two: "login s email password meta = do {
    u \<leftarrow> ls_by_email (lg_store s) (normalize_email email);
    login_after s (normalize_email email) password meta u }"
  by (simp only: login_def login_after_def Let_def)

datatype stage = Arrived string | Looked string "gerror + login_user" | Answered string "gerror + tokens"

fun in_progress :: "stage \<Rightarrow> bool" where
  "in_progress (Looked p u) = True"
| "in_progress (Arrived p) = False"
| "in_progress (Answered p r) = False"

fun turned_down :: "stage \<Rightarrow> bool" where
  "turned_down (Answered p r) \<longleftrightarrow> r = Inl err_invalid_credentials"
| "turned_down (Looked p u) = False"
| "turned_down (Arrived p) = False"

inductive login_step :: "login_service \<Rightarrow> string \<Rightarrow> session_meta \<Rightarrow> nat \<Rightarrow> stage multiset \<times> world \<Rightarrow> stage multiset \<times> world \<Rightarrow> bool"
  for s email meta k where
  look: "size (filter_mset in_progress cs) < k \<Longrightarrow> run_state (ls_by_email (lg_store s) (normalize_email email)) w = (u, w1) \<Longrightarrow>
    login_step s email meta k (add_mset (Arrived p) cs, w) (add_mset (Looked p u) cs, w1)"
| answer: "run_state (login_after s (normalize_email email) p meta u) w = (r, w1) \<Longrightarrow>
    login_step s email meta k (add_mset (Looked p u) cs, w) (add_mset (Answered p r) cs, w1)"

inductive_cases login_stepE: "login_step s email meta k (cs, w) (cs1, w1)"

abbreviation login_steps where
  "login_steps s email meta k \<equiv> (login_step s email meta k)\<^sup>*\<^sup>*"

text \<open>An attempt that nothing interleaves with is a login.\<close>

lemma login_alone:
  assumes "run_state (login s email p meta) w = (r, w1)" and "0 < k"
  shows "login_steps s email meta k ({#Arrived p#}, w) ({#Answered p r#}, w1)"
proof -
  obtain u v where u: "run_state (ls_by_email (lg_store s) (normalize_email email)) w = (u, v)"
    and r: "run_state (login_after s (normalize_email email) p meta u) v = (r, w1)"
    using assms(1) by (auto simp: login_in_two split: prod.splits)
  have "login_step s email meta k ({#Arrived p#}, w) ({#Looked p u#}, v)" using look [OF _ u, of "{#}"] assms(2) by simp
  moreover have "login_step s email meta k ({#Looked p u#}, v) ({#Answered p r#}, w1)" by (rule answer [OF r])
  ultimately show ?thesis by (meson converse_rtranclp_into_rtranclp r_into_rtranclp)
qed

section \<open>What a move does\<close>

lemma look_effect:
  "wp (pg_by_email e) (\<lambda>r w'. same_oracles w w' \<and> w_db w' = w_db w \<and> (case r of
       Inl x \<Rightarrow> \<not> reliable w \<and> x \<noteq> err_login_not_found \<and> \<not> errors_is x err_login_not_found
         \<or> select_one (owns_email e) (tb_user (w_db w)) = None
     | Inr x \<Rightarrow> \<exists>u. select_one (owns_email e) (tb_user (w_db w)) = Some u \<and> x = login_user_of u)) w"
  by (rule wp_start, erule pg_by_email_step) (auto simp: moves_def)

definition answer_post :: "login_service \<Rightarrow> login_user \<Rightarrow> world \<Rightarrow> gerror + tokens \<Rightarrow> world \<Rightarrow> bool" where
  "answer_post s x w r w' \<longleftrightarrow> same_oracles w w' \<and>
     (tb_user (w_db w') = tb_user (w_db w) \<and> r \<noteq> Inl err_invalid_credentials \<and> (reliable w \<longrightarrow> lu_locked x \<noteq> None)
      \<or> (\<exists>l t. tb_user (w_db w') = update_where (\<lambda>u. u_id u = lu_id x) (failure_recorded l t) (tb_user (w_db w))
          \<and> (r = Inl err_invalid_credentials \<longrightarrow> lu_failed x + 1 < max_attempts s)
          \<and> (reliable w \<and> lu_failed x + 1 < max_attempts s \<longrightarrow> r = Inl err_invalid_credentials \<and> l = None)))"

lemma answer_post_kept:
  "moves w d t q w' \<Longrightarrow> tb_user d = tb_user (w_db w) \<Longrightarrow> r \<noteq> Inl err_invalid_credentials \<Longrightarrow>
    \<not> reliable w \<or> lu_locked x \<noteq> None \<Longrightarrow> answer_post s x w r w'"
  by (auto simp: answer_post_def moves_def)

lemma answer_post_counted:
  "moves w d t q w' \<Longrightarrow> tb_user d = update_where (\<lambda>u. u_id u = lu_id x) (failure_recorded l y) (tb_user (w_db w)) \<Longrightarrow>
    r = Inl err_invalid_credentials \<longrightarrow> lu_failed x + 1 < max_attempts s \<Longrightarrow>
    \<not> reliable w \<or> max_attempts s \<le> lu_failed x + 1 \<or> r = Inl err_invalid_credentials \<and> l = None \<Longrightarrow> answer_post s x w r w'"
  unfolding answer_post_def moves_def by (intro conjI disjI2 exI [of _ l] exI [of _ y]) auto

context login_env
begin

lemma answer_effect:
  assumes "lg_auditor s = auditor" and "lg_store s = pg_login_store"
    and "lu_status x = status_active" and "lg_verify s (lu_hash x) password \<noteq> Inr True"
  shows "wp (login_after s email password meta (Inr x)) (answer_post s x w) w"
proof (rule wp_start)
  fix w' assume m: "moves w (w_db w) (w_tx w) (w_mq w) w'" "w_clock w \<le> w_clock w'"
  have fails: "wp (fail_attempt s x email meta now ve) (answer_post s x w) v"
    if "moves w (w_db w) (w_tx w) (w_mq w) v" for v now ve
    unfolding fail_attempt_def Let_def
    apply (insert that)
    by (((erule wp_steps best_effort_step)+)?; clarsimp simp: wp_code assms(1,2) answer_post_kept answer_post_counted; (intro conjI impI)?)+
  show "wp (login_after s email password meta (Inr x)) (answer_post s x w) w'"
    unfolding login_after_def Let_def
    apply (insert m)
    apply (((erule wp_steps best_effort_step)+)?; clarsimp simp: wp_code assms(1-3) answer_post_kept; (intro conjI impI)?)+
    using assms(4) by (auto simp: fails split: sum.splits)
qed

end


section \<open>The account under concurrent attempts\<close>

text \<open>What holds of the clients and the account at any time: \<open>u\<close> is the row before the attack. Below the limit every plain
  refusal has been counted; from there on only attempts that had read the account before can still be refused plainly.\<close>

fun could_miss :: "login_service \<Rightarrow> stage \<Rightarrow> bool" where
  "could_miss s (Looked p (Inr x)) \<longleftrightarrow> lu_failed x + 1 < max_attempts s"
| "could_miss s c = False"

definition same_login :: "user_row \<Rightarrow> login_user \<Rightarrow> bool" where
  "same_login u x \<longleftrightarrow> lu_id x = u_id u \<and> lu_status x = status_active \<and> lu_hash x = coalesce_empty (u_password u)"

definition wrong_for :: "login_service \<Rightarrow> user_row \<Rightarrow> string \<Rightarrow> bool" where
  "wrong_for s u p \<longleftrightarrow> lg_verify s (coalesce_empty (u_password u)) p \<noteq> Inr True"

fun fair :: "login_service \<Rightarrow> user_row \<Rightarrow> stage \<Rightarrow> bool" where
  "fair s u (Arrived p) \<longleftrightarrow> wrong_for s u p"
| "fair s u (Looked p (Inl e)) \<longleftrightarrow> \<not> errors_is e err_login_not_found"
| "fair s u (Looked p (Inr x)) \<longleftrightarrow> wrong_for s u p \<and> same_login u x"
| "fair s u (Answered p r) \<longleftrightarrow> True"

definition burst_inv :: "login_service \<Rightarrow> string \<Rightarrow> nat \<Rightarrow> user_row \<Rightarrow> stage multiset \<times> world \<Rightarrow> bool" where
  "burst_inv s email k u = (\<lambda>(cs, w). (\<forall>c\<in>#cs. fair s u c) \<and> size (filter_mset in_progress cs) \<le> k \<and>
     (\<exists>v. account email w = Some v \<and> same_login u (login_user_of v) \<and> u_failed u \<le> u_failed v \<and>
        (u_failed v < max_attempts s - 1 \<longrightarrow> int (size (filter_mset turned_down cs)) \<le> u_failed v - u_failed u) \<and>
        (max_attempts s - 1 \<le> u_failed v \<longrightarrow> int (size (filter_mset turned_down cs) + size (filter_mset (could_miss s) cs))
           \<le> max 0 (max_attempts s - 1 - u_failed u) + int (k - 1))))"

lemma could_miss_in_progress: "size (filter_mset (could_miss s) cs) \<le> size (filter_mset in_progress cs)"
proof -
  have "could_miss s c \<Longrightarrow> in_progress c" for c by (induction s c rule: could_miss.induct) auto
  then show ?thesis by (induction cs) auto
qed

lemma same_login_recorded [simp]: "same_login u (login_user_of (failure_recorded l t v)) = same_login u (login_user_of v)"
  by (simp add: same_login_def failure_recorded_def)

lemma look_keeps:
  assumes "burst_inv s email k u (add_mset (Arrived p) cs, w)" and "size (filter_mset in_progress cs) < k"
    and "run_state (pg_by_email (normalize_email email)) w = (x, w1)"
  shows "burst_inv s email k u (add_mset (Looked p x) cs, w1)"
proof -
  have same: "w_db w1 = w_db w" and found: "case x of
       Inl e \<Rightarrow> \<not> errors_is e err_login_not_found \<or> account email w = None
     | Inr y \<Rightarrow> \<exists>v. account email w = Some v \<and> y = login_user_of v"
    using wpD [OF look_effect assms(3)] by (auto split: sum.splits)
  show ?thesis
  proof (cases x)
    case (Inl e)
    then show ?thesis using assms(1,2) same found by (auto simp: burst_inv_def simp del: select_one_None)
  next
    case (Inr y)
    then show ?thesis using assms(1,2) same found by (auto simp: burst_inv_def simp del: select_one_None)
  qed
qed


lemma account_recorded:
  assumes "tb_user (w_db w1) = update_where (\<lambda>u. u_id u = u_id v) (failure_recorded l t) (tb_user (w_db w))"
    and "account email w = Some v"
  shows "account email w1 = Some (failure_recorded l t v)"
  using assms by (simp add: select_failure)

lemma answer_keeps:
  assumes "pg_login_service J cfg g s" and "burst_inv s email k u (add_mset (Looked p x) cs, w)"
    and "run_state (login_after s (normalize_email email) p meta x) w = (r, w1)"
  shows "burst_inv s email k u (add_mset (Answered p r) cs, w1)"
proof (cases x)
  case (Inl e)
  then have "\<not> errors_is e err_login_not_found" using assms(2) by (simp add: burst_inv_def)
  then have "w1 = w" "\<not> turned_down (Answered p r)"
    using assms(3) Inl by (auto simp: login_after_def)
  then show ?thesis using assms(2) Inl by (auto simp: burst_inv_def)
next
  case (Inr y)
  obtain v where v: "account email w = Some v" "same_login u (login_user_of v)" "u_failed u \<le> u_failed v"
    and below: "u_failed v < max_attempts s - 1 \<longrightarrow> int (size (filter_mset turned_down cs)) \<le> u_failed v - u_failed u"
    and above: "max_attempts s - 1 \<le> u_failed v \<longrightarrow>
       int (size (filter_mset turned_down cs) + size (filter_mset (could_miss s) (add_mset (Looked p x) cs)))
         \<le> max 0 (max_attempts s - 1 - u_failed u) + int (k - 1)"
    and others: "\<forall>c\<in>#cs. fair s u c" "size (filter_mset in_progress cs) < k"
    and y: "wrong_for s u p" "same_login u y"
    using assms(2) Inr by (auto simp: burst_inv_def)
  have post: "answer_post s y w r w1"
    using wpD [OF pg_login.answer_effect assms(3) [unfolded Inr]] assms(1) y
    by (simp add: pg_login_service_def same_login_def wrong_for_def)
  have few: "int (size (filter_mset (could_miss s) cs)) \<le> int (k - 1)" using could_miss_in_progress [of s cs] others(2) by linarith
  from post consider (kept) "tb_user (w_db w1) = tb_user (w_db w)" "r \<noteq> Inl err_invalid_credentials"
    | (counted) l t where "tb_user (w_db w1) = update_where (\<lambda>z. u_id z = u_id v) (failure_recorded l t) (tb_user (w_db w))"
        "r = Inl err_invalid_credentials \<longrightarrow> could_miss s (Looked p x)"
    using v(2) y(2) Inr by (auto simp: answer_post_def same_login_def)
  then show ?thesis
  proof cases
    case kept
    then show ?thesis using v below above others by (auto simp: burst_inv_def split: if_splits)
  next
    case counted
    have row: "account email w1 = Some (failure_recorded l t v)" by (rule account_recorded [OF counted(1) v(1)])
    have "u_failed (failure_recorded l t v) = u_failed v + 1" by (simp add: failure_recorded_def)
    then show ?thesis
      using row v(2,3) below above others counted(2) few
      by (cases "u_failed v < max_attempts s - 1"; cases "r = Inl err_invalid_credentials") (auto simp: burst_inv_def split: if_splits)
  qed
qed

lemma burst_keeps:
  assumes "pg_login_service J cfg g s" and "login_steps s email meta k c c1" and "burst_inv s email k u c"
  shows "burst_inv s email k u c1"
  using assms(2,3)
proof (induction rule: rtranclp_induct)
  case (step c1 c2)
  have "lg_store s = pg_login_store" using assms(1) by (simp add: pg_login_service_def)
  with step.hyps(2) step.IH [OF step.prems] look_keeps answer_keeps [OF assms(1)] show ?case
    by (cases rule: login_step.cases) auto
qed


section \<open>The bound and the burst\<close>

lemma none_arrived [simp]:
  "filter_mset in_progress (image_mset Arrived ps) = {#}" "filter_mset turned_down (image_mset Arrived ps) = {#}"
  "filter_mset (could_miss s) (image_mset Arrived ps) = {#}"
  by (induction ps) auto


lemma all_looked:
  assumes "lg_store s = pg_login_store" and "reliable w" and "account email w = Some u"
    and "length ps + size (filter_mset in_progress rest) \<le> k"
  shows "\<exists>w1. login_steps s email meta k (mset (map Arrived ps) + rest, w) (mset (map (\<lambda>p. Looked p (Inr (login_user_of u))) ps) + rest, w1)
     \<and> reliable w1 \<and> account email w1 = Some u"
  using assms(2-4)
proof (induction ps arbitrary: rest w)
  case (Cons p ps)
  have room: "size (filter_mset in_progress (mset (map Arrived ps) + rest)) < k" using Cons.prems(3) by simp
  obtain x v where run: "run_state (pg_by_email (normalize_email email)) w = (x, v)" by fastforce
  have x: "x = Inr (login_user_of u)" "w_db v = w_db w" "reliable v"
    using wpD [OF look_effect run] Cons.prems(1,2) by (auto simp: reliable_def same_oracles_def split: sum.splits)
  have "login_step s email meta k (mset (map Arrived (p # ps)) + rest, w) (mset (map Arrived ps) + add_mset (Looked p x) rest, v)"
    using look [OF room, of s email w x v] run assms(1) by simp
  moreover from Cons.IH [of v "add_mset (Looked p x) rest"] obtain w1 where
    "login_steps s email meta k (mset (map Arrived ps) + add_mset (Looked p x) rest, v)
       (mset (map (\<lambda>p. Looked p (Inr (login_user_of u))) ps) + add_mset (Looked p x) rest, w1)" "reliable w1" "account email w1 = Some u"
    using x Cons.prems by auto
  ultimately show ?case using x(1) by (intro exI [of _ w1]) (simp add: converse_rtranclp_into_rtranclp)
qed auto

lemma all_answered:
  assumes "pg_login_service J cfg g s" and "reliable w" and "account email w = Some v" and "lu_id x = u_id v"
    and "lu_status x = status_active" and "lu_locked x = None" and "lu_failed x + 1 < max_attempts s"
    and "\<forall>p\<in>set ps. lg_verify s (lu_hash x) p \<noteq> Inr True"
  shows "\<exists>w1 v1. login_steps s email meta k (mset (map (\<lambda>p. Looked p (Inr x)) ps) + rest, w)
       (mset (map (\<lambda>p. Answered p (Inl err_invalid_credentials)) ps) + rest, w1)
     \<and> account email w1 = Some v1 \<and> u_failed v1 = u_failed v + int (length ps) \<and> u_locked_until v1 = u_locked_until v"
  using assms(2-4,8)
proof (induction ps arbitrary: rest w v)
  case (Cons p ps)
  obtain r w1 where run: "run_state (login_after s (normalize_email email) p meta (Inr x)) w = (r, w1)" by fastforce
  have "answer_post s x w r w1"
    using wpD [OF pg_login.answer_effect run] assms(1,5) Cons.prems(4) by (simp add: pg_login_service_def)
  then obtain t where r: "r = Inl err_invalid_credentials" "same_oracles w w1"
    and users: "tb_user (w_db w1) = update_where (\<lambda>z. u_id z = u_id v) (failure_recorded None t) (tb_user (w_db w))"
    using assms(6,7) Cons.prems(1,3) by (auto simp: answer_post_def)
  let ?v = "failure_recorded None t v"
  have v: "account email w1 = Some ?v" "u_id ?v = u_id v" "u_failed ?v = u_failed v + 1" "u_locked_until ?v = u_locked_until v"
    using account_recorded [OF users Cons.prems(2)] by (simp_all add: failure_recorded_def)
  have "login_step s email meta k (mset (map (\<lambda>p. Looked p (Inr x)) (p # ps)) + rest, w)
      (mset (map (\<lambda>p. Looked p (Inr x)) ps) + add_mset (Answered p r) rest, w1)"
    using answer [OF run] by simp
  moreover have "reliable w1" using r(2) Cons.prems(1) by (simp add: reliable_def same_oracles_def)
  then obtain w2 v2 where "login_steps s email meta k (mset (map (\<lambda>p. Looked p (Inr x)) ps) + add_mset (Answered p r) rest, w1)
       (mset (map (\<lambda>p. Answered p (Inl err_invalid_credentials)) ps) + add_mset (Answered p r) rest, w2)"
      "account email w2 = Some v2" "u_failed v2 = u_failed v + 1 + int (length ps)" "u_locked_until v2 = u_locked_until v"
    using Cons.IH [of w1 ?v "add_mset (Answered p r) rest"] v Cons.prems by auto
  ultimately show ?case using r(1)
    by (intro exI [of _ w2] exI [of _ v2]) (simp add: converse_rtranclp_into_rtranclp)
qed auto

text \<open>C29: A burst defeats the lock: as many wrong passwords as the service handles at once, all read before the first is answered,
  are each tested and refused plainly although nothing fails, and the account is not locked afterwards, however far its
  counter has gone past the maximum.\<close>

theorem burst_escapes_lock:
  assumes "pg_login_service J cfg g s" and "reliable w" and "account email w = Some u" and "u_status u = status_active"
    and "u_locked_until u = None" and "u_failed u + 1 < max_attempts s"
    and "\<forall>p\<in>set ps. lg_verify s (coalesce_empty (u_password u)) p \<noteq> Inr True"
  shows "\<exists>w1 v. login_steps s email meta (length ps) (mset (map Arrived ps), w) (mset (map (\<lambda>p. Answered p (Inl err_invalid_credentials)) ps), w1)
     \<and> account email w1 = Some v \<and> u_failed v = u_failed u + int (length ps) \<and> u_locked_until v = None"
proof -
  have "lg_store s = pg_login_store" using assms(1) by (simp add: pg_login_service_def)
  from all_looked [OF this assms(2,3), of ps "{#}" "length ps" meta] obtain v where
    v: "login_steps s email meta (length ps) (mset (map Arrived ps), w) (mset (map (\<lambda>p. Looked p (Inr (login_user_of u))) ps), v)"
      "reliable v" "account email v = Some u" by auto
  from all_answered [OF assms(1) v(2,3), of "login_user_of u" ps meta "length ps" "{#}"] obtain w1 v1 where
    "login_steps s email meta (length ps) (mset (map (\<lambda>p. Looked p (Inr (login_user_of u))) ps), v)
       (mset (map (\<lambda>p. Answered p (Inl err_invalid_credentials)) ps), w1)"
    "account email w1 = Some v1" "u_failed v1 = u_failed u + int (length ps)" "u_locked_until v1 = None"
    using assms(4-7) by auto
  then show ?thesis using rtranclp_trans [OF v(1)] by blast
qed

section \<open>Worked examples\<close>


lemma burst_escapes_lock_witness:
  "\<exists>w1 v. login_steps demo_login ''ana@example.com'' demo_meta 40 (mset (map Arrived (replicate 40 ''bad'')), demo_account 0 None)
       (mset (map (\<lambda>p. Answered p (Inl err_invalid_credentials)) (replicate 40 ''bad'')), w1)
     \<and> account ''ana@example.com'' w1 = Some v \<and> u_failed v = 40 \<and> u_locked_until v = None"
  using burst_escapes_lock [OF demo_login_service _ demo_account_row [of 0 None] demo_active, of "replicate 40 ''bad''" demo_meta]
  by simp

end
