(* ===== verification/Token_Race.thy ===== *)
theory Token_Race
  imports Session_Safety "HOL-Library.Multiset"
begin

text \<open>
  Concurrent refreshes and logouts. Each call runs its own transaction at READ COMMITTED, the isolation \<open>Pool.Begin\<close> opens:
  a statement sees what was committed when it started and what its own transaction wrote; \<open>FOR UPDATE\<close> and \<open>UPDATE\<close>
  wait for a row another transaction has locked and then look at the row's new version, but \<open>UPDATE\<close> does not see rows
  inserted after it started. \<open>race_step\<close> lets any call in progress make its next move under these rules.

  Every move refines \<open>evolve\<close>, so the guarantees of the sequential runs hold of every interleaving; what does not
  survive is that a reused token ends its family, which \<open>reuse_misses_rotation\<close> shows.
\<close>

section \<open>The calls, move by move\<close>

text \<open>\<open>Refresh\<close> and \<open>Logout\<close> after \<open>tx.Token\<close> has returned, up to the deferred rollback.\<close>

definition refresh_after :: "jwt_lib \<Rightarrow> session_config \<Rightarrow> rotate_tx \<Rightarrow> session_meta \<Rightarrow> gerror + token_row \<Rightarrow> (world, tokens) body" where
  "refresh_after J cfg tx meta r = (case r of
       Inl e \<Rightarrow> if errors_is e err_no_token then leave False (Inl err_invalid_refresh)
                 else leave False (Inl (wrap ''session: reading refresh token: '' e))
     | Inr row \<Rightarrow> do {
         now \<leftarrow> read_clock;
         if tr_revoked row \<noteq> None then
           tcheck ''session: revoking family: '' (rtx_revoke_family tx) (\<lambda>_.
           tcheck ''session: committing family revocation: '' (rtx_commit tx) (\<lambda>_.
           leave True (Inl err_refresh_reused)))
         else if \<not> now < tr_expires row then leave False (Inl err_invalid_refresh)
         else
           tcheck ''session: revoking presented token: '' (rtx_revoke tx) (\<lambda>_. do {
           n \<leftarrow> new_refresh_token;
           case n of
             Inl e \<Rightarrow> leave False (Inl e)
           | Inr (new_token, new_hash) \<Rightarrow>
               tcheck ''session: storing rotated token: ''
                 (rtx_insert tx \<lparr>rr_user = tr_user row, rr_hash = new_hash,
                    rr_family = tr_family row, rr_device = tr_device row,
                    rr_user_agent = tr_user_agent row, rr_ip = m_ip meta,
                    rr_expires = now + sc_refresh_ttl cfg\<rparr>) (\<lambda>_.
               tcheck ''session: committing rotation: '' (rtx_commit tx) (\<lambda>_. do {
                 a \<leftarrow> sign_access J cfg (tr_user row) now;
                 case a of
                   Inl e \<Rightarrow> leave True (Inl e)
                 | Inr access \<Rightarrow> leave True (Inr (make_tokens cfg access new_token))
               }))
           })
       })"

definition logout_after :: "rotate_tx \<Rightarrow> gerror + token_row \<Rightarrow> (world, unit) body" where
  "logout_after tx r = (case r of
       Inl e \<Rightarrow> if errors_is e err_no_token then leave False (Inr ())
                 else leave False (Inl (wrap ''session: reading refresh token: '' e))
     | Inr _ \<Rightarrow>
         tcheck ''session: revoking family: '' (rtx_revoke_family tx) (\<lambda>_.
         tcheck ''session: committing logout: '' (rtx_commit tx) (\<lambda>_.
         leave True (Inr ()))))"

definition refresh_unopened :: "gerror \<Rightarrow> gerror" where
  "refresh_unopened e = (if errors_is e err_no_token then err_invalid_refresh else wrap ''session: opening rotation: '' e)"

definition logout_unopened :: "gerror \<Rightarrow> gerror + unit" where
  "logout_unopened e = (if errors_is e err_no_token then Inr () else Inl (wrap ''session: opening logout: '' e))"

lemma deferred_bind: "deferred rb (State_Monad.bind m k) = State_Monad.bind m (\<lambda>x. deferred rb (k x))"
  by (simp add: deferred_def)

lemma return_if:
  "fail (if b then e else e') = (if b then fail e else fail e')" "ret (if b then x else y) = (if b then ret x else ret y)"
  by simp_all

lemma refresh_in_moves: "presented \<noteq> [] \<Longrightarrow> refresh J cfg begin_rotate presented meta = do {
    b \<leftarrow> begin_rotate (hash_refresh_token presented);
    case b of
      Inl e \<Rightarrow> fail (refresh_unopened e)
    | Inr tx \<Rightarrow> do { r \<leftarrow> rtx_token tx; deferred (rtx_rollback tx) (refresh_after J cfg tx meta r) } }"
  by (simp only: refresh_def refresh_after_def refresh_unopened_def deferred_bind return_if if_False)

lemma logout_in_moves: "presented \<noteq> [] \<Longrightarrow> logout begin_rotate presented = do {
    b \<leftarrow> begin_rotate (hash_refresh_token presented);
    case b of
      Inl e \<Rightarrow> ret (logout_unopened e)
    | Inr tx \<Rightarrow> do { r \<leftarrow> rtx_token tx; deferred (rtx_rollback tx) (logout_after tx r) } }"
  by (simp only: logout_def logout_after_def logout_unopened_def deferred_bind return_if if_False)

datatype call = Refreshing session_meta | Leaving

datatype reply = Rotated "gerror + tokens" | Left "gerror + unit"

definition finish :: "jwt_lib \<Rightarrow> session_config \<Rightarrow> rotate_tx \<Rightarrow> call \<Rightarrow> gerror + token_row \<Rightarrow> reply eff" where
  "finish J cfg tx c r = (case c of
       Refreshing meta \<Rightarrow> do { x \<leftarrow> deferred (rtx_rollback tx) (refresh_after J cfg tx meta r); ret (Rotated x) }
     | Leaving \<Rightarrow> do { x \<leftarrow> deferred (rtx_rollback tx) (logout_after tx r); ret (Left x) })"

fun unopened :: "call \<Rightarrow> gerror \<Rightarrow> reply" where
  "unopened (Refreshing meta) e = Rotated (Inl (refresh_unopened e))"
| "unopened Leaving e = Left (logout_unopened e)"

text \<open>Whether the call goes on to revoke the family.\<close>

fun sweeps :: "call \<Rightarrow> gerror + token_row \<Rightarrow> bool" where
  "sweeps c (Inl e) = False"
| "sweeps (Refreshing meta) (Inr row) \<longleftrightarrow> tr_revoked row \<noteq> None"
| "sweeps Leaving (Inr row) = True"

section \<open>Transactions in parallel\<close>

text \<open>
  Between its moves a call keeps its transaction's \<open>now()\<close>; it has written nothing yet, so when it resumes its statements
  read the database as it is committed by then. A call that holds its token's row has it locked until it is
  served. \<open>Sweeping\<close> is the family's \<open>UPDATE\<close> between its start, which selects the rows, and the moment it may lock
  them; what it has selected and finds revoked by then it leaves alone.
\<close>

datatype client = Asking string call
  | Begun string call "int option"
  | Holding string call "int option" "gerror + token_row"
  | Sweeping string call "int option" token_row "string list"
  | Served string call "gerror + token_row" reply

definition tx_time :: "world \<Rightarrow> int option" where
  "tx_time w = map_option tx_now (w_tx w)"

definition set_aside :: "world \<Rightarrow> world" where
  "set_aside w = w\<lparr>w_tx := None\<rparr>"

definition resume :: "int option \<Rightarrow> world \<Rightarrow> world" where
  "resume t w = w\<lparr>w_tx := map_option (\<lambda>t. \<lparr>tx_db = w_db w, tx_now = t\<rparr>) t\<rparr>"

fun locks :: "string \<Rightarrow> client \<Rightarrow> bool" where
  "locks h (Holding p c t (Inr row)) \<longleftrightarrow> h = hash_refresh_token p"
| "locks h (Sweeping p c t row hs) \<longleftrightarrow> h = hash_refresh_token p"
| "locks h _ = False"

definition family_targets :: "string \<Rightarrow> refresh_row list \<Rightarrow> string list" where
  "family_targets h rows = map rt_hash (filter (\<lambda>r. in_family_of h rows r \<and> rt_revoked r = None) rows)"

definition pg_revoke_among :: "string \<Rightarrow> string list \<Rightarrow> unit io" where
  "pg_revoke_among h hs = check ''revoking token family: '' (tx_exec (update_stmt (\<lambda>t d.
     d\<lparr>tb_refresh_token := revoke_where (\<lambda>r. in_family_of h (tb_refresh_token d) r \<and> rt_hash r \<in> set hs) t (tb_refresh_token d)\<rparr>))) ok"

definition sweeping_tx :: "string \<Rightarrow> string list \<Rightarrow> rotate_tx" where
  "sweeping_tx h hs = (pg_rotate_tx h)\<lparr>rtx_revoke_family := pg_revoke_among h hs\<rparr>"

inductive race_step :: "jwt_lib \<Rightarrow> session_config \<Rightarrow> client multiset \<times> world \<Rightarrow> client multiset \<times> world \<Rightarrow> bool" for J cfg where
  opens: "p \<noteq> [] \<Longrightarrow> run_state (pg_begin_rotate (hash_refresh_token p)) w = (b, w1) \<Longrightarrow>
    race_step J cfg (add_mset (Asking p c) cs, w)
      (add_mset (case b of Inl e \<Rightarrow> Served p c (Inl e) (unopened c e) | Inr tx \<Rightarrow> Begun p c (tx_time w1)) cs, set_aside w1)"
| fetches: "filter_mset (locks (hash_refresh_token p)) cs = {#} \<Longrightarrow>
    run_state (pg_rotate_token (hash_refresh_token p)) (resume t w) = (r, w1) \<Longrightarrow>
    race_step J cfg (add_mset (Begun p c t) cs, w) (add_mset (Holding p c (tx_time w1) r) cs, set_aside w1)"
| finishes: "\<not> sweeps c r \<Longrightarrow> run_state (finish J cfg (pg_rotate_tx (hash_refresh_token p)) c r) (resume t w) = (x, w1) \<Longrightarrow>
    race_step J cfg (add_mset (Holding p c t r) cs, w) (add_mset (Served p c r x) cs, w1)"
| aims: "sweeps c (Inr row) \<Longrightarrow>
    race_step J cfg (add_mset (Holding p c t (Inr row)) cs, w)
      (add_mset (Sweeping p c t row (family_targets (hash_refresh_token p) (token_rows w))) cs, w)"
| revokes: "(\<And>h. h \<in> set hs \<Longrightarrow> filter_mset (locks h) cs = {#}) \<Longrightarrow>
    run_state (finish J cfg (sweeping_tx (hash_refresh_token p) hs) c (Inr row)) (resume t w) = (x, w1) \<Longrightarrow>
    race_step J cfg (add_mset (Sweeping p c t row hs) cs, w) (add_mset (Served p c (Inr row) x) cs, w1)"
| issues: "run_state (issue J cfg pg_store_refresh_token uid meta) w = (r, w1) \<Longrightarrow>
    (\<And>n. token_rows w1 = token_rows w @ [n] \<Longrightarrow> rt_family n \<notin> families (token_rows w)) \<Longrightarrow> race_step J cfg (cs, w) (cs, w1)"
| outside: "w_tx w1 = None \<Longrightarrow> token_rows w1 = revoke_where q t (token_rows w) \<Longrightarrow>
    (\<And>r. r \<in> set (token_rows w) \<Longrightarrow> q r \<Longrightarrow> filter_mset (locks (rt_hash r)) cs = {#}) \<Longrightarrow> race_step J cfg (cs, w) (cs, w1)"

abbreviation race_steps where
  "race_steps J cfg \<equiv> (race_step J cfg)\<^sup>*\<^sup>*"

text \<open>With nothing in between, the \<open>UPDATE\<close> in two moves is the statement of the code.\<close>

lemma revoke_targets:
  "revoke_where (\<lambda>r. in_family_of h rows r \<and> rt_hash r \<in> set (family_targets h rows)) t rows = revoke_where (in_family_of h rows) t rows"
proof -
  have "in_family_of h rows r \<and> rt_hash r \<in> set (family_targets h rows) \<and> rt_revoked r = None
      \<longleftrightarrow> in_family_of h rows r \<and> rt_revoked r = None" if "r \<in> set rows" for r
    using that by (auto simp: family_targets_def)
  then show ?thesis by (auto simp: revoke_where_def update_where_def)
qed

lemma sweep_now:
  assumes "w_tx w = Some tx"
  shows "run_state (pg_revoke_among h (family_targets h (tb_refresh_token (tx_db tx)))) w = run_state (pg_rotate_revoke_family h) w"
  using assms unfolding pg_revoke_among_def pg_rotate_revoke_family_def check_def tx_exec_def update_stmt_def
  by (simp add: revoke_targets split: outcome.splits)

section \<open>What a move does\<close>

lemma aside_simps [simp]:
  "w_db (set_aside w) = w_db w" "w_tx (set_aside w) = None" "w_mq (set_aside w) = w_mq w" "w_clock (set_aside w) = w_clock w"
  "same_oracles v (set_aside w) = same_oracles v w" "same_oracles (set_aside v) w = same_oracles v w"
  "w_db (resume t w) = w_db w" "w_mq (resume t w) = w_mq w" "w_clock (resume t w) = w_clock w"
  "same_oracles v (resume t w) = same_oracles v w" "same_oracles (resume t v) w = same_oracles v w"
  "reliable (set_aside w) = reliable w" "reliable (resume t w) = reliable w"
  "w_tx (resume t w) = map_option (\<lambda>t. \<lparr>tx_db = w_db w, tx_now = t\<rparr>) t"
  by (simp_all add: set_aside_def resume_def same_oracles_def reliable_def)

lemma sweeping_tx_simps [simp]:
  "rtx_token (sweeping_tx h hs) = pg_rotate_token h" "rtx_revoke (sweeping_tx h hs) = pg_rotate_revoke h"
  "rtx_revoke_family (sweeping_tx h hs) = pg_revoke_among h hs" "rtx_insert (sweeping_tx h hs) = pg_rotate_insert"
  "rtx_commit (sweeping_tx h hs) = tx_commit" "rtx_rollback (sweeping_tx h hs) = tx_rollback"
  by (simp_all add: sweeping_tx_def)

lemma opens_effect:
  "wp (pg_begin_rotate h) (\<lambda>b w1. same_oracles w w1 \<and> w_db w1 = w_db w \<and> (reliable w \<longrightarrow> is_ok b)
     \<and> (is_ok b \<longrightarrow> tx_time w1 \<noteq> None)) w"
  by (rule wp_start, erule pg_begin_step) (auto simp: moves_def tx_time_def)

lemma fetch_effect:
  "wp (pg_rotate_token h) (\<lambda>r w1. same_oracles w w1 \<and> w_db w1 = w_db w \<and> (case r of
       Inl e \<Rightarrow> reliable w \<and> t \<noteq> None \<longrightarrow> row_by_hash h (token_rows w) = None
     | Inr row \<Rightarrow> tx_time w1 \<noteq> None \<and> (\<exists>x. row_by_hash h (token_rows w) = Some x \<and> row = token_row_of x))) (resume t w)"
proof (cases t)
  case None
  have "wp (pg_rotate_token h) (\<lambda>r w1. r = Inl (wrap ''selecting refresh token: '' tx_closed) \<and> w1 = tickd (resume t w)) (resume t w)"
    unfolding pg_rotate_token_def wp_code tx_exec_def wp_State by (simp add: None)
  then show ?thesis by (rule wp_mono) (use None in \<open>auto intro!: same_oracles_tickd\<close>)
next
  case (Some n)
  have "moves (resume t w) (w_db w) (Some \<lparr>tx_db = w_db w, tx_now = n\<rparr>) (w_mq w) (resume t w)"
    using moves_refl [of "resume t w"] Some by simp
  then show ?thesis by (rule pg_token_step) (auto simp: moves_def tx_time_def)
qed

lemma pg_revoke_among_step [wp_steps]:
  assumes "moves w0 d (Some \<lparr>tx_db = d1, tx_now = t\<rparr>) q w"
    and "\<And>p e w'. \<not> reliable w0 \<Longrightarrow> moves w0 d None q w' \<Longrightarrow> w_clock w \<le> w_clock w' \<Longrightarrow> Q (Inl (wrap p e)) w'"
    and "\<And>w'. moves w0 d (Some \<lparr>tx_db = d1\<lparr>tb_refresh_token := revoke_where (\<lambda>r. in_family_of h (tb_refresh_token d1) r \<and> rt_hash r \<in> set hs)
             t (tb_refresh_token d1)\<rparr>, tx_now = t\<rparr>) q w' \<Longrightarrow> w_clock w \<le> w_clock w' \<Longrightarrow> Q (Inr ()) w'"
  shows "wp (pg_revoke_among h hs) Q w"
  unfolding pg_revoke_among_def wp_code
  by (rule tx_exec_step [OF assms(1)]) (auto intro: assms)

text \<open>How the token table and the reply change when a call is served: \<open>r\<close> is the row it read, \<open>hs\<close> the rows it may revoke.\<close>

inductive settles :: "string \<Rightarrow> string list \<Rightarrow> gerror + token_row \<Rightarrow> refresh_row list \<Rightarrow> reply \<Rightarrow> refresh_row list \<Rightarrow> bool"
  for h :: string and hs :: "string list" and r :: "gerror + token_row" and rows :: "refresh_row list"
where
  refused: "\<forall>toks. x \<noteq> Rotated (Inr toks) \<Longrightarrow> (x = Left (Inr ()) \<Longrightarrow> \<not> is_ok r) \<Longrightarrow> settles h hs r rows x rows"
| swept: "\<forall>toks. x \<noteq> Rotated (Inr toks) \<Longrightarrow>
    settles h hs r rows x (revoke_where (\<lambda>y. in_family_of h rows y \<and> rt_hash y \<in> set hs) t rows)"
| rotated: "r = Inr row \<Longrightarrow> tr_revoked row = None \<Longrightarrow> rt_family n = tr_family row \<Longrightarrow> rt_revoked n = None \<Longrightarrow>
    rt_hash n \<notin> set (map rt_hash rows) \<Longrightarrow> settles h hs r rows (Rotated y) (revoke_where (\<lambda>y. rt_hash y = h) t rows @ [n])"

definition settle_post :: "string \<Rightarrow> string list \<Rightarrow> gerror + token_row \<Rightarrow> world \<Rightarrow> reply \<Rightarrow> world \<Rightarrow> bool" where
  "settle_post h hs r w x w' \<longleftrightarrow> (\<exists>rows'. only_tokens (set_aside w) rows' w' \<and> settles h hs r (token_rows w) x rows')"

lemma settle_refused:
  "moves (resume t w) (w_db w) None (w_mq w) w' \<Longrightarrow> (\<forall>toks. x \<noteq> Rotated (Inr toks)) \<and> (x = Left (Inr ()) \<longrightarrow> \<not> is_ok r) \<Longrightarrow>
    settle_post h hs r w x w'"
  unfolding settle_post_def only_tokens_def
  by (rule exI [of _ "token_rows w"]) (auto simp: moves_def intro: settles.refused)

lemma settle_swept:
  "moves (resume t w) ((w_db w)\<lparr>tb_refresh_token := revoke_where (\<lambda>y. in_family_of h (token_rows w) y \<and> rt_hash y \<in> set hs) n (token_rows w)\<rparr>)
     None (w_mq w) w' \<Longrightarrow> \<forall>toks. x \<noteq> Rotated (Inr toks) \<Longrightarrow> settle_post h hs r w x w'"
  unfolding settle_post_def only_tokens_def by (auto simp: moves_def intro: settles.swept)

lemma settle_rotated:
  assumes "moves (resume t w) d' None (w_mq w) w'"
    and "insert_refresh (refresh_row_of \<lparr>rr_user = uid, rr_hash = hash, rr_family = tr_family row, rr_device = dev, rr_user_agent = ua,
            rr_ip = ip, rr_expires = e\<rparr> n u) ((w_db w)\<lparr>tb_refresh_token := revoke_where (\<lambda>r. rt_hash r = h) n (token_rows w)\<rparr>) = Inr d'"
    and "tr_revoked row = None"
  shows "settle_post h hs (Inr row) w (Rotated y) w'"
  unfolding settle_post_def only_tokens_def using assms
  by (auto simp: moves_def insert_refresh_Inr refresh_row_of_def simp del: set_map intro!: settles.rotated)

lemma finish_effect:
  assumes "is_ok r \<longrightarrow> t \<noteq> None" and "tx = pg_rotate_tx h \<and> \<not> sweeps c r \<or> tx = sweeping_tx h hs"
  shows "wp (finish J cfg tx c r) (settle_post h hs r w) (resume t w)"
proof (rule wp_start)
  note post = settle_refused settle_swept settle_rotated
  fix w' assume m: "moves (resume t w) (w_db (resume t w)) (w_tx (resume t w)) (w_mq (resume t w)) w'"
  show "wp (finish J cfg tx c r) (settle_post h hs r w) w'"
  proof (cases r)
    case (Inl e)
    then show ?thesis using m assms(2)
      by (cases c) (auto simp: finish_def refresh_after_def logout_after_def wp_code intro!: tx_rollback_step settle_refused)
  next
    case (Inr row)
    then obtain n where step: "moves (resume t w) (w_db w) (Some \<lparr>tx_db = w_db w, tx_now = n\<rparr>) (w_mq w) w'"
      using m assms(1) by auto
    note code = finish_def refresh_after_def logout_after_def Inr
    from assms(2) consider (plain) "tx = pg_rotate_tx h" "\<not> sweeps c (Inr row)" | (sweep) "tx = sweeping_tx h hs" using Inr by blast
    then show ?thesis
    proof cases
      case plain
      show ?thesis
        unfolding code
        apply (insert step plain)
        by (cases c) ((((erule wp_steps)+)?; clarsimp simp: wp_code post; (intro conjI impI)?)+)
    next
      case sweep
      show ?thesis
        unfolding code
        apply (insert step sweep)
        by (cases c) ((((erule wp_steps)+)?; clarsimp simp: wp_code post; (intro conjI impI)?)+)
    qed
  qed
qed

lemma finish_kind: "run_state (finish J cfg tx c r) w = (Left y, w1) \<Longrightarrow> c = Leaving"
  by (cases c) (auto simp: finish_def split: prod.splits)

section \<open>The invariant of the interleavings\<close>

text \<open>\<open>exchanged h\<close>: the client got new tokens for the token with digest \<open>h\<close>.\<close>

fun exchanged :: "string \<Rightarrow> client \<Rightarrow> bool" where
  "exchanged h (Served p c r (Rotated (Inr toks))) \<longleftrightarrow> hash_refresh_token p = h"
| "exchanged h _ = False"

definition read_row :: "string \<Rightarrow> refresh_row list \<Rightarrow> token_row \<Rightarrow> bool" where
  "read_row p rows row \<longleftrightarrow> (\<exists>x. row_by_hash (hash_refresh_token p) rows = Some x \<and> row = token_row_of x)"

text \<open>What a client knows and has been told, against the table: the row it has locked is as it read it.\<close>

fun accords :: "refresh_row list \<Rightarrow> client \<Rightarrow> bool" where
  "accords rows (Holding p c t (Inr row)) \<longleftrightarrow> t \<noteq> None \<and> read_row p rows row"
| "accords rows (Sweeping p c t row hs) \<longleftrightarrow> t \<noteq> None \<and> read_row p rows row \<and> sweeps c (Inr row)
     \<and> (tr_revoked row = None \<longrightarrow> set hs = {hash_refresh_token p})"
| "accords rows (Served p c r (Rotated (Inr toks))) \<longleftrightarrow> spent (hash_refresh_token p) rows"
| "accords rows (Served p c (Inr row) (Left (Inr u))) \<longleftrightarrow> (tr_revoked row = None \<longrightarrow> dead (tr_family row) rows)"
| "accords rows _ = True"

definition race_inv :: "client multiset \<times> world \<Rightarrow> bool" where
  "race_inv = (\<lambda>(cs, w). w_tx w = None \<and> token_inv (token_rows w) \<and> (\<forall>c\<in>#cs. accords (token_rows w) c)
     \<and> (\<forall>h. size (filter_mset (locks h) cs) \<le> 1 \<and> size (filter_mset (exchanged h) cs) \<le> 1))"

lemma accords_evolve:
  assumes "accords rows c" and "evolve rows rows'"
    and "\<And>h x. locks h c \<Longrightarrow> row_by_hash h rows = Some x \<Longrightarrow> row_by_hash h rows' = Some x"
  shows "accords rows' c"
  using assms by (induction rows c rule: accords.induct) (auto simp: read_row_def dest: evolve_spent evolve_dead)

lemma live_targets:
  assumes "token_inv rows" and "row_by_hash h rows = Some x" and "rt_revoked x = None"
  shows "live_of (rt_family x) rows = [x]" and "family_targets h rows = [h]"
proof -
  have "x \<in> set (live_of (rt_family x) rows)" using row_by_hash_D [OF assms(2)] assms(3) by (simp add: live_of_def)
  moreover have "length (live_of (rt_family x) rows) \<le> 1" using assms(1) by (simp add: token_inv_def)
  ultimately show live: "live_of (rt_family x) rows = [x]" by (cases "live_of (rt_family x) rows") auto
  have "family_targets h rows = map rt_hash (live_of (rt_family x) rows)"
    by (simp add: family_targets_def live_of_def in_family_of_def assms(2))
  then show "family_targets h rows = [h]" using live row_by_hash_D [OF assms(2)] by simp
qed

lemma settles_evolve:
  assumes "settles h hs r rows x rows'" and "\<And>row. r = Inr row \<Longrightarrow> \<exists>y. row_by_hash h rows = Some y \<and> row = token_row_of y"
  shows "evolve rows rows'"
  using assms by (induction rule: settles.induct) (auto intro: evolve.intros simp del: set_map)

lemma settles_others:
  assumes "settles h hs r rows x rows'" and "row_by_hash h' rows = Some y" and "is_ok r \<longrightarrow> h' \<noteq> h" and "h' \<notin> set hs"
  shows "row_by_hash h' rows' = Some y"
  using assms row_by_hash_D [OF assms(2)] by (induction rule: settles.induct) (auto simp: row_by_hash_revoke row_by_hash_append)

lemma reply_cases:
  obtains (denied) e where "x = Rotated (Inl e)" | (tokens) toks where "x = Rotated (Inr toks)"
    | (failed) e where "x = Left (Inl e)" | (ended) "x = Left (Inr ())"
proof (cases x)
  case (Rotated y)
  then show ?thesis using that(1,2) by (cases y) auto
next
  case (Left y)
  then show ?thesis using that(3,4) by (cases y) auto
qed

lemma settles_accords:
  assumes "settles (hash_refresh_token p) hs r rows x rows'" and "token_inv rows" and "\<And>row. r = Inr row \<Longrightarrow> read_row p rows row"
    and "\<And>row. r = Inr row \<Longrightarrow> x = Left (Inr ()) \<Longrightarrow> tr_revoked row = None \<Longrightarrow> set hs = {hash_refresh_token p}"
  shows "accords rows' (Served p c r x)"
  using assms(1)
proof cases
  case refused
  then show ?thesis by (cases x rule: reply_cases; cases r) auto
next
  case (swept t)
  have "dead (tr_family row) rows'" if left: "x = Left (Inr ())" and r: "r = Inr row" "tr_revoked row = None" for row
  proof -
    obtain y where y: "row_by_hash (hash_refresh_token p) rows = Some y" "row = token_row_of y" using assms(3) r(1) by (auto simp: read_row_def)
    have "live_of (rt_family y) rows = [y]" using live_targets(1) [OF assms(2) y(1)] y(2) r(2) by simp
    then have "live_of (rt_family y) rows' = []" "rt_family y \<in> families rows"
      using swept(1) y row_by_hash_D [OF y(1)] assms(4) [OF r(1) left r(2)]
      by (auto simp: live_of_revoke in_family_of_def families_def)
    then show ?thesis using y(2) swept(1) by (simp add: dead_def)
  qed
  then show ?thesis using swept(2) by (cases x rule: reply_cases; cases r) auto
next
  case (rotated row n y t)
  obtain z where "row_by_hash (hash_refresh_token p) rows = Some z" "row = token_row_of z" using assms(3) rotated by (auto simp: read_row_def)
  then have "spent (hash_refresh_token p) rows'"
    using rotated by (auto simp: spent_def row_by_hash_append row_by_hash_revoke dest: row_by_hash_D)
  then show ?thesis using rotated(1) by (cases y) auto
qed


lemma exchanged_spent: "exchanged h c \<Longrightarrow> accords rows c \<Longrightarrow> spent h rows"
  by (cases "(h, c)" rule: exchanged.cases) auto

lemma settles_unspent:
  assumes "settles (hash_refresh_token p) hs r rows (Rotated (Inr toks)) rows'" and "\<And>row. r = Inr row \<Longrightarrow> read_row p rows row"
  shows "\<not> spent (hash_refresh_token p) rows"
  using assms by (auto simp: settles.simps read_row_def spent_def)

lemma at_most_one:
  assumes "size (filter_mset P (add_mset c0 cs)) \<le> 1" and "P c1 \<Longrightarrow> P c0 \<or> filter_mset P cs = {#}"
  shows "size (filter_mset P (add_mset c1 cs)) \<le> 1"
proof -
  have "size (filter_mset P cs) \<le> 1 - of_bool (P c0)" using assms(1) by (simp split: if_splits del: size_eq_0_iff_empty filter_mset_eq_mempty_iff)
  then show ?thesis using assms(2) by (cases "P c1"; cases "P c0") (simp_all del: filter_mset_eq_mempty_iff size_eq_0_iff_empty)
qed

text \<open>A call is served: the client \<open>c0\<close> in its last move.\<close>

lemma served_keeps:
  assumes "race_inv (add_mset c0 cs, w)" and "settle_post (hash_refresh_token p) hs r w x w1"
    and "\<And>row. r = Inr row \<Longrightarrow> read_row p (token_rows w) row \<and> locks (hash_refresh_token p) c0"
    and "\<And>row. r = Inr row \<Longrightarrow> x = Left (Inr ()) \<Longrightarrow> tr_revoked row = None \<Longrightarrow> set hs = {hash_refresh_token p}"
    and "\<And>h. h \<in> set hs \<Longrightarrow> filter_mset (locks h) cs = {#}"
  shows "race_inv (add_mset (Served p c r x) cs, w1) \<and> evolve (token_rows w) (token_rows w1)"
proof -
  let ?h = "hash_refresh_token p"
  have inv: "w_tx w = None" "token_inv (token_rows w)" "\<forall>c\<in>#cs. accords (token_rows w) c"
    "size (filter_mset (locks h) (add_mset c0 cs)) \<le> 1" "size (filter_mset (exchanged h) (add_mset c0 cs)) \<le> 1" for h
    using assms(1) by (auto simp: race_inv_def)
  obtain rows' where rows': "settles ?h hs r (token_rows w) x rows'" "token_rows w1 = rows'" "w_tx w1 = None"
    using assms(2) by (auto simp: settle_post_def only_tokens_def)
  have ev: "evolve (token_rows w) rows'" by (rule settles_evolve [OF rows'(1)]) (use assms(3) in \<open>auto simp: read_row_def\<close>)
  have alone: "filter_mset (locks ?h) cs = {#}" if ok: "is_ok r"
  proof -
    obtain row where "r = Inr row" using ok by (cases r) auto
    then show ?thesis using inv(4) [of ?h] assms(3) by simp
  qed
  have others: "accords rows' d" if "d \<in># cs" for d
  proof (rule accords_evolve [OF _ ev])
    show "accords (token_rows w) d" using inv(3) that by simp
    fix h y assume "locks h d" and y: "row_by_hash h (token_rows w) = Some y"
    then have "filter_mset (locks h) cs \<noteq> {#}" using that by auto
    then have "is_ok r \<longrightarrow> h \<noteq> ?h" "h \<notin> set hs" using alone assms(5) by blast+
    then show "row_by_hash h rows' = Some y" by (rule settles_others [OF rows'(1) y])
  qed
  have "filter_mset (exchanged h) cs = {#}" if ex: "exchanged h (Served p c r x)" for h
  proof -
    obtain toks where "x = Rotated (Inr toks)" "h = ?h" using ex by (cases x rule: reply_cases) auto
    then have "\<not> spent h (token_rows w)" using settles_unspent rows'(1) assms(3) by blast
    then show ?thesis using inv(3) exchanged_spent by auto
  qed
  then have one: "size (filter_mset (exchanged h) (add_mset (Served p c r x) cs)) \<le> 1" for h
    by (intro at_most_one [OF inv(5)]) blast
  have "accords rows' (Served p c r x)" by (rule settles_accords [OF rows'(1) inv(2)]) (use assms(3,4) in auto)
  moreover have "size (filter_mset (locks h) (add_mset (Served p c r x) cs)) \<le> 1" for h
    by (rule at_most_one [OF inv(4)]) simp
  ultimately show ?thesis using others one rows'(2,3) ev evolve_inv [OF ev inv(2)] by (simp add: race_inv_def)
qed


lemma race_inv_same: "race_inv (cs, w) \<Longrightarrow> token_rows w1 = token_rows w \<Longrightarrow> w_tx w1 = None \<Longrightarrow> race_inv (cs, w1)"
  by (simp add: race_inv_def)

lemma waits_keeps:
  assumes "race_inv (add_mset c0 cs, w)" and "token_rows w1 = token_rows w" and "w_tx w1 = None" and "accords (token_rows w) c1"
    and "\<And>h. locks h c1 \<Longrightarrow> locks h c0 \<or> filter_mset (locks h) cs = {#}" and "\<And>h. \<not> exchanged h c1"
  shows "race_inv (add_mset c1 cs, w1)"
proof -
  have "size (filter_mset (locks h) (add_mset c0 cs)) \<le> 1" "size (filter_mset (exchanged h) (add_mset c0 cs)) \<le> 1" for h
    using assms(1) by (simp_all add: race_inv_def)
  then have "size (filter_mset (locks h) (add_mset c1 cs)) \<le> 1 \<and> size (filter_mset (exchanged h) (add_mset c1 cs)) \<le> 1" for h
    using at_most_one [of "locks h" c0 cs c1] at_most_one [of "exchanged h" c0 cs c1] assms(5,6) by blast
  then show ?thesis using assms(1-4) by (simp add: race_inv_def)
qed

lemma frame_keeps:
  assumes "race_inv (cs, w)" and "evolve (token_rows w) (token_rows w1)" and "w_tx w1 = None"
    and "\<And>c h x. c \<in># cs \<Longrightarrow> locks h c \<Longrightarrow> row_by_hash h (token_rows w) = Some x \<Longrightarrow> row_by_hash h (token_rows w1) = Some x"
  shows "race_inv (cs, w1)"
proof -
  have "accords (token_rows w1) c" if "c \<in># cs" for c
    by (rule accords_evolve [OF _ assms(2)]) (use assms(1,4) that in \<open>auto simp: race_inv_def\<close>)
  then show ?thesis using assms(1,3) evolve_inv [OF assms(2)] by (simp add: race_inv_def)
qed

lemma race_step_inv:
  assumes "race_step J cfg (cs, w) (cs1, w1)" and "race_inv (cs, w)"
  shows "race_inv (cs1, w1) \<and> evolve (token_rows w) (token_rows w1)"
  using assms
proof cases
  case (opens p b v c ds)
  have db: "w_db v = w_db w" using wpD [OF opens_effect opens(5)] by simp
  let ?c1 = "case b of Inl e \<Rightarrow> Served p c (Inl e) (unopened c e) | Inr tx \<Rightarrow> Begun p c (tx_time v)"
  have c1: "accords (token_rows w) ?c1" "\<not> locks h ?c1" "\<not> exchanged h ?c1" for h
    by (cases b; cases c; simp add: logout_unopened_def)+
  have "race_inv (cs1, w1)" unfolding opens(2,3)
    by (rule waits_keeps [OF assms(2) [unfolded opens(1)]]) (use db c1 in auto)
  then show ?thesis using db opens(3) by (simp add: evolve.keep)
next
  case (fetches p ds t r v c)
  let ?c1 = "Holding p c (tx_time v) r"
  have db: "w_db v = w_db w" and read: "case r of Inl e \<Rightarrow> True | Inr row \<Rightarrow> tx_time v \<noteq> None \<and> read_row p (token_rows w) row"
    using wpD [OF fetch_effect fetches(5)] by (auto simp: read_row_def split: sum.splits)
  have c1: "accords (token_rows w) ?c1" "locks h ?c1 \<Longrightarrow> h = hash_refresh_token p" for h
    using read by (cases r; simp)+
  have "race_inv (cs1, w1)" unfolding fetches(2,3)
    by (rule waits_keeps [OF assms(2) [unfolded fetches(1)]]) (use db c1 fetches(4) in auto)
  then show ?thesis using db fetches(3) by (simp add: evolve.keep)
next
  case (finishes c r p t x ds)
  have "accords (token_rows w) (Holding p c t r)" using assms(2) finishes(1) by (simp add: race_inv_def)
  then have r: "is_ok r \<longrightarrow> t \<noteq> None" "\<And>row. r = Inr row \<Longrightarrow> read_row p (token_rows w) row" by (cases r; simp)+
  have "settle_post (hash_refresh_token p) [] r w x w1"
    by (rule wpD [OF finish_effect finishes(4)]) (use r(1) finishes(3) in auto)
  moreover have "x \<noteq> Left y" if "r = Inr row" for row y using finishes(3,4) that by (auto dest: finish_kind)
  ultimately show ?thesis unfolding finishes(2)
    by (intro served_keeps [OF assms(2) [unfolded finishes(1)]]) (use r(2) in auto)
next
  case (aims c row p t ds)
  let ?c1 = "Sweeping p c t row (family_targets (hash_refresh_token p) (token_rows w))"
  have inv: "t \<noteq> None" "read_row p (token_rows w) row" "token_inv (token_rows w)" "w_tx w = None" using assms(2) aims(1) by (simp_all add: race_inv_def)
  then have "set (family_targets (hash_refresh_token p) (token_rows w)) = {hash_refresh_token p}" if "tr_revoked row = None"
    using that live_targets(2) [OF inv(3)] by (auto simp: read_row_def)
  then have "accords (token_rows w) ?c1" using inv aims(4) by simp
  then have "race_inv (cs1, w1)" unfolding aims(2,3)
    by (intro waits_keeps [OF assms(2) [unfolded aims(1)]]) (use inv in auto)
  then show ?thesis using aims(3) by (simp add: evolve.keep)
next
  case (revokes hs ds p c row t x)
  have "accords (token_rows w) (Sweeping p c t row hs)" using assms(2) revokes(1) by (simp add: race_inv_def)
  then have r: "t \<noteq> None" "read_row p (token_rows w) row" "tr_revoked row = None \<longrightarrow> set hs = {hash_refresh_token p}" by simp_all
  have "settle_post (hash_refresh_token p) hs (Inr row) w x w1"
    by (rule wpD [OF finish_effect revokes(4)]) (use r(1) in auto)
  then show ?thesis unfolding revokes(2)
    by (intro served_keeps [OF assms(2) [unfolded revokes(1)]]) (use r(2,3) revokes(3) in auto)
next
  case (issues uid meta r)
  have "w_tx w = None" using assms(2) by (simp add: race_inv_def)
  then have run: "w_tx w1 = None" "evolve (token_rows w) (token_rows w1)" using issue_run [OF _ issues(2,3)] by blast+
  have "race_inv (cs, w1)"
    by (rule frame_keeps [OF assms(2) run(2,1)])
      (use wpD [OF issue_effect issues(2)] in \<open>auto simp: issue_post_def only_tokens_def row_by_hash_append simp del: set_map\<close>)
  then show ?thesis using issues(1) run(2) by simp
next
  case (outside q t)
  have ev: "evolve (token_rows w) (token_rows w1)" unfolding outside(3) by (rule evolve.revoke)
  have "race_inv (cs, w1)"
  proof (rule frame_keeps [OF assms(2) ev outside(2)])
    fix c h x assume "c \<in># cs" "locks h c" and x: "row_by_hash h (token_rows w) = Some x"
    then have "\<not> q x" using outside(4) [of x] row_by_hash_D [OF x] by auto
    then show "row_by_hash h (token_rows w1) = Some x" using x by (simp add: outside(3) row_by_hash_revoke)
  qed
  then show ?thesis using outside(1) ev by simp
qed


lemma race_run_inv:
  assumes "race_steps J cfg (cs, w) (cs1, w1)" and "race_inv (cs, w)"
  shows "race_inv (cs1, w1) \<and> evolve\<^sup>*\<^sup>* (token_rows w) (token_rows w1)"
  using assms
proof (induction rule: rtranclp_induct2)
  case (step cs1 w1 cs2 w2)
  from race_step_inv [OF step.hyps(2)] step.IH [OF step.prems] show ?case by (meson rtranclp.rtrancl_into_rtrancl)
qed simp

section \<open>What survives concurrency\<close>

abbreviation asking :: "(string \<times> call) list \<Rightarrow> client multiset" where
  "asking calls \<equiv> mset (map (\<lambda>(p, c). Asking p c) calls)"

lemma asking_inv:
  assumes "w_tx w = None" and "token_inv (token_rows w)"
  shows "race_inv (asking calls, w)"
proof -
  have "filter_mset (locks h) (asking calls) = {#} \<and> filter_mset (exchanged h) (asking calls) = {#}" for h
    by (induction calls) auto
  then have "size (filter_mset (locks h) (asking calls)) = 0" "size (filter_mset (exchanged h) (asking calls)) = 0" for h by simp_all
  then show ?thesis using assms by (auto simp: race_inv_def simp del: size_eq_0_iff_empty)
qed

text \<open>C2: Refresh tokens under concurrency: any number of refreshes and logouts, with new sessions and outside revocations, interleave
  in any way and fail anywhere, and still no family ever has two live tokens, no two rows share a hash, and each token is
  exchanged for new ones at most once.\<close>

theorem concurrent_single_use:
  assumes "race_steps J cfg (asking calls, w) (cs, w1)" and "w_tx w = None" and "token_inv (token_rows w)"
  shows "token_inv (token_rows w1) \<and> size (filter_mset (exchanged h) cs) \<le> 1"
  using race_run_inv [OF assms(1) asking_inv [OF assms(2,3)]] by (simp add: race_inv_def)

text \<open>C19: A logout with the current token ends the session under concurrency too: once it has been answered with success, the
  family has no live token, whatever else was in progress or has happened since.\<close>

theorem concurrent_logout_ends_family:
  assumes "race_steps J cfg (asking calls, w) (cs, w1)" and "w_tx w = None" and "token_inv (token_rows w)"
    and "Served p Leaving (Inr row) (Left (Inr ())) \<in># cs" and "tr_revoked row = None"
  shows "dead (tr_family row) (token_rows w1)"
proof -
  have "\<forall>c\<in>#cs. accords (token_rows w1) c"
    using race_run_inv [OF assms(1) asking_inv [OF assms(2,3)]] by (simp add: race_inv_def)
  then have "accords (token_rows w1) (Served p Leaving (Inr row) (Left (Inr ())))" using assms(4) by (rule bspec)
  then show ?thesis using assms(5) by simp
qed

section \<open>What does not\<close>

lemma still: "moves (resume t w) d x q v \<Longrightarrow> \<forall>n. w_tick w n = 0 \<Longrightarrow> w_clock v = w_clock w"
  by (simp add: moves_def same_oracles_def resume_def)

definition rotates_to :: "string \<Rightarrow> refresh_row \<Rightarrow> world \<Rightarrow> reply \<Rightarrow> world \<Rightarrow> bool" where
  "rotates_to h x w y w' \<longleftrightarrow> same_oracles w w' \<and> w_tx w' = None \<and> (\<exists>toks n t. y = Rotated (Inr toks)
     \<and> token_rows w' = revoke_where (\<lambda>r. rt_hash r = h) t (token_rows w) @ [n] \<and> rt_hash n = hash_refresh_token (refresh_token toks)
     \<and> rt_revoked n = None \<and> rt_family n = rt_family x \<and> rt_hash n \<notin> set (map rt_hash (token_rows w)))"

lemma rotates_toI:
  assumes "moves (resume t w) d' None q w'"
    and "insert_refresh (refresh_row_of \<lparr>rr_user = uid, rr_hash = hash_refresh_token tok, rr_family = rt_family x, rr_device = dev,
            rr_user_agent = ua, rr_ip = ip, rr_expires = e\<rparr> n u) ((w_db w)\<lparr>tb_refresh_token := revoke_where (\<lambda>r. rt_hash r = h) n (token_rows w)\<rparr>) = Inr d'"
    and "refresh_token toks = tok"
  shows "rotates_to h x w (Rotated (Inr toks)) w'"
  using assms by (auto simp: rotates_to_def moves_def insert_refresh_Inr refresh_row_of_def simp del: set_map)

lemma finish_rotates:
  assumes "reliable w" and "uncollided w" and "\<And>secret c. \<exists>tok. jwt_sign J secret c = Inr tok" and "\<forall>n. w_tick w n = 0"
    and "rt_user x \<in> set (map u_id (tb_user (w_db w)))" and "rt_revoked x = None" and "w_clock w < rt_expires x"
  shows "wp (finish J cfg (pg_rotate_tx h) (Refreshing meta) (Inr (token_row_of x))) (rotates_to h x w) (resume (Some n) w)"
proof (rule wp_start)
  fix w' assume m: "moves (resume (Some n) w) (w_db (resume (Some n) w)) (w_tx (resume (Some n) w)) (w_mq (resume (Some n) w)) w'"
  have sign: "jwt_sign J secret c \<noteq> Inl e" for secret c e using assms(3) [of secret c] by auto
  have oracles: "w_entropy (resume t w) = w_entropy w" "w_uuid (resume t w) = w_uuid w" for t by (simp_all add: resume_def)
  note facts = assms(1,6,7) sign oracles still [OF _ assms(4)] insert_rotated_ok [OF assms(2,5)]
  show "wp (finish J cfg (pg_rotate_tx h) (Refreshing meta) (Inr (token_row_of x))) (rotates_to h x w) w'"
    unfolding finish_def refresh_after_def
    apply (insert m)
    by (((erule wp_steps)+)?; (clarsimp simp: wp_code facts simp del: set_map)?; (intro conjI impI)?;
      (erule rotates_toI, assumption, simp add: make_tokens_def)?)+
qed

lemma finish_reports:
  assumes "reliable w" and "tr_revoked row \<noteq> None"
  shows "wp (finish J cfg (sweeping_tx h hs) (Refreshing meta) (Inr row)) (\<lambda>y w'. y = Rotated (Inl err_refresh_reused) \<and> w_tx w' = None
    \<and> (\<exists>t. token_rows w' = revoke_where (\<lambda>r. in_family_of h (token_rows w) r \<and> rt_hash r \<in> set hs) t (token_rows w))) (resume (Some n) w)"
proof (rule wp_start)
  fix w' assume m: "moves (resume (Some n) w) (w_db (resume (Some n) w)) (w_tx (resume (Some n) w)) (w_mq (resume (Some n) w)) w'"
  show "wp (finish J cfg (sweeping_tx h hs) (Refreshing meta) (Inr row)) (\<lambda>y w'. y = Rotated (Inl err_refresh_reused) \<and> w_tx w' = None
    \<and> (\<exists>t. token_rows w' = revoke_where (\<lambda>r. in_family_of h (token_rows w) r \<and> rt_hash r \<in> set hs) t (token_rows w))) w'"
    unfolding finish_def refresh_after_def
    apply (insert m assms(2))
    by (((erule wp_steps)+)?; (clarsimp simp: wp_code assms(1) simp del: set_map)?; (intro conjI impI)?; (frule movesD(1), frule movesD(2), force)?)+
qed


lemma finish_leaves:
  assumes "reliable w"
  shows "wp (finish J cfg (sweeping_tx h hs) Leaving (Inr row)) (\<lambda>y w'. y = Left (Inr ())) (resume (Some n) w)"
proof (rule wp_start)
  fix w' assume m: "moves (resume (Some n) w) (w_db (resume (Some n) w)) (w_tx (resume (Some n) w)) (w_mq (resume (Some n) w)) w'"
  show "wp (finish J cfg (sweeping_tx h hs) Leaving (Inr row)) (\<lambda>y w'. y = Left (Inr ())) w'"
    unfolding finish_def logout_after_def
    apply (insert m)
    by (((erule wp_steps)+)?; (clarsimp simp: wp_code assms)?)+
qed

text \<open>A client takes its row and, when that is live, its new tokens, with nothing failing.\<close>

lemma takes_row:
  assumes "reliable w" and "p \<noteq> []" and "row_by_hash (hash_refresh_token p) (token_rows w) = Some x"
    and "filter_mset (locks (hash_refresh_token p)) cs = {#}"
  obtains n v where "race_steps J cfg (add_mset (Asking p c) cs, w) (add_mset (Holding p c (Some n) (Inr (token_row_of x))) cs, v)"
    and "same_oracles w v" and "w_db v = w_db w" and "w_tx v = None"
proof -
  let ?h = "hash_refresh_token p"
  obtain b v1 where b: "run_state (pg_begin_rotate ?h) w = (b, v1)" by fastforce
  from wpD [OF opens_effect b] obtain tx n where n: "b = Inr tx" "tx_time v1 = Some n" "same_oracles w v1" "w_db v1 = w_db w"
    using assms(1) by (cases b) auto
  obtain r v2 where r: "run_state (pg_rotate_token ?h) (resume (Some n) (set_aside v1)) = (r, v2)" by fastforce
  have "reliable v1" using n(3) assms(1) by (simp add: reliable_def same_oracles_def)
  then obtain m where m: "r = Inr (token_row_of x)" "tx_time v2 = Some m" "same_oracles v1 v2" "w_db v2 = w_db w"
    using wpD [OF fetch_effect r] assms(3) n(4) by (cases r) auto
  have "race_step J cfg (add_mset (Asking p c) cs, w) (add_mset (Begun p c (Some n)) cs, set_aside v1)"
    using opens [OF assms(2) b, of J cfg c cs] n by simp
  moreover have "race_step J cfg (add_mset (Begun p c (Some n)) cs, set_aside v1) (add_mset (Holding p c (Some m) (Inr (token_row_of x))) cs, set_aside v2)"
    using fetches [OF assms(4) r, of J cfg c] m by simp
  ultimately have "race_steps J cfg (add_mset (Asking p c) cs, w) (add_mset (Holding p c (Some m) (Inr (token_row_of x))) cs, set_aside v2)"
    by (meson converse_rtranclp_into_rtranclp r_into_rtranclp)
  then show ?thesis by (rule that) (use m n same_oracles_trans in auto)
qed

lemma takes_tokens:
  assumes "reliable w" and "uncollided w" and "\<And>secret c. \<exists>tok. jwt_sign J secret c = Inr tok" and "\<forall>n. w_tick w n = 0"
    and "rt_user x \<in> set (map u_id (tb_user (w_db w)))" and "rt_revoked x = None" and "w_clock w < rt_expires x"
  obtains toks v where "rotates_to (hash_refresh_token p) x w (Rotated (Inr toks)) v"
    and "race_step J cfg (add_mset (Holding p (Refreshing meta) (Some n) (Inr (token_row_of x))) cs, w)
      (add_mset (Served p (Refreshing meta) (Inr (token_row_of x)) (Rotated (Inr toks))) cs, v)"
proof -
  obtain y v where y: "run_state (finish J cfg (pg_rotate_tx (hash_refresh_token p)) (Refreshing meta) (Inr (token_row_of x))) (resume (Some n) w) = (y, v)"
    by fastforce
  have rot: "rotates_to (hash_refresh_token p) x w y v" by (rule wpD [OF finish_rotates y]) (use assms in auto)
  then obtain toks where "y = Rotated (Inr toks)" by (auto simp: rotates_to_def)
  with rot finishes [OF _ y] assms(6) show ?thesis by (intro that) auto
qed

text \<open>C30: Reuse detection can miss a rotation in progress: when a spent token and the live token of its family are presented at
  the same time, nothing needs to fail for the first call to report the reuse and the second to get a new token, which
  is live after both: the family the report should have ended goes on.\<close>

theorem reuse_misses_rotation:
  assumes "reliable w" and "w_tx w = None" and "token_inv (token_rows w)" and "uncollided w"
    and "\<And>secret c. \<exists>tok. jwt_sign J secret c = Inr tok" and "\<forall>n. w_tick w n = 0" and "p1 \<noteq> []" and "p2 \<noteq> []"
    and "row_by_hash (hash_refresh_token p1) (token_rows w) = Some x1" and "rt_revoked x1 \<noteq> None"
    and "row_by_hash (hash_refresh_token p2) (token_rows w) = Some x2" and "rt_revoked x2 = None" and "w_clock w < rt_expires x2"
    and "rt_family x2 = rt_family x1" and "rt_user x2 \<in> set (map u_id (tb_user (w_db w)))"
  shows "\<exists>w1 toks n. race_steps J cfg (asking [(p1, Refreshing m1), (p2, Refreshing m2)], w)
       ({#Served p1 (Refreshing m1) (Inr (token_row_of x1)) (Rotated (Inl err_refresh_reused)),
          Served p2 (Refreshing m2) (Inr (token_row_of x2)) (Rotated (Inr toks))#}, w1)
     \<and> live_of (rt_family x1) (token_rows w1) = [n] \<and> rt_hash n = hash_refresh_token (refresh_token toks)"
proof -
  let ?h1 = "hash_refresh_token p1" and ?h2 = "hash_refresh_token p2"
  let ?A = "Asking p2 (Refreshing m2)"
  have h: "?h1 \<noteq> ?h2" using assms(9-12) by auto
  obtain n1 v1 where s1: "race_steps J cfg ({#Asking p1 (Refreshing m1), ?A#}, w) ({#Holding p1 (Refreshing m1) (Some n1) (Inr (token_row_of x1)), ?A#}, v1)"
    and v1: "same_oracles w v1" "w_db v1 = w_db w" "w_tx v1 = None"
    by (rule takes_row [OF assms(1,7,9), of "{#?A#}" J cfg "Refreshing m1"]) simp_all
  let ?B = "\<lambda>c. {#c, Holding p1 (Refreshing m1) (Some n1) (Inr (token_row_of x1))#}"
  have rel1: "reliable v1" using v1(1) assms(1) by (simp add: reliable_def same_oracles_def)
  obtain n2 v2 where s2: "race_steps J cfg (?B ?A, v1) (?B (Holding p2 (Refreshing m2) (Some n2) (Inr (token_row_of x2))), v2)"
    and v2: "same_oracles v1 v2" "w_db v2 = w_db w" "w_tx v2 = None"
    using takes_row [OF rel1 assms(8), of x2 "{#Holding p1 (Refreshing m1) (Some n1) (Inr (token_row_of x1))#}" J cfg "Refreshing m2"] assms(11) v1(2) h
    by auto
  let ?r1 = "Inr (token_row_of x1)" and ?r2 = "Inr (token_row_of x2)"
  have w2: "same_oracles w v2" "reliable v2" "uncollided v2" "\<forall>n. w_tick v2 n = 0" "w_clock v2 = w_clock w" "token_rows v2 = token_rows w"
    using same_oracles_trans [OF v1(1) v2(1)] v2(2) assms(1,4,6) by (auto simp: same_oracles_def reliable_def uncollided_def)
  have live: "live_of (rt_family x1) (token_rows w) = [x2]" using live_targets(1) [OF assms(3,11,12)] assms(14) by simp
  have "family_targets ?h1 (token_rows v2) = map rt_hash (live_of (rt_family x1) (token_rows w))"
    by (simp add: family_targets_def live_of_def in_family_of_def w2(6) assms(9))
  then have targets: "family_targets ?h1 (token_rows v2) = [?h2]" using live row_by_hash_D [OF assms(11)] by simp
  obtain toks v3 where served: "rotates_to ?h2 x2 v2 (Rotated (Inr toks)) v3"
    "race_step J cfg ({#Holding p2 (Refreshing m2) (Some n2) ?r2, Sweeping p1 (Refreshing m1) (Some n1) (token_row_of x1) [?h2]#}, v2)
      ({#Served p2 (Refreshing m2) ?r2 (Rotated (Inr toks)), Sweeping p1 (Refreshing m1) (Some n1) (token_row_of x1) [?h2]#}, v3)"
    by (rule takes_tokens [OF w2(2,3) assms(5) w2(4), of x2 p2 cfg m2 n2 "{#Sweeping p1 (Refreshing m1) (Some n1) (token_row_of x1) [?h2]#}"])
      (use w2(5) v2(2) assms(12,13,15) in auto)
  then obtain n t2 where rot: "token_rows v3 = revoke_where (\<lambda>r. rt_hash r = ?h2) t2 (token_rows w) @ [n]"
    "rt_hash n = hash_refresh_token (refresh_token toks)" "rt_revoked n = None" "rt_family n = rt_family x1"
    "rt_hash n \<notin> set (map rt_hash (token_rows w))" "same_oracles v2 v3"
    by (auto simp: rotates_to_def w2(6) assms(14) simp del: set_map)
  have rel3: "reliable v3" using rot(6) w2(2) by (simp add: reliable_def same_oracles_def)
  have "?h2 \<in> rt_hash ` set (token_rows w)" using row_by_hash_D [OF assms(11)] by (auto intro: rev_image_eqI)
  then have new: "rt_hash n \<noteq> ?h2" using rot(5) by auto
  obtain y1 v4 where y1: "run_state (finish J cfg (sweeping_tx ?h1 [?h2]) (Refreshing m1) ?r1) (resume (Some n1) v3) = (y1, v4)" by fastforce
  have rep: "y1 = Rotated (Inl err_refresh_reused)"
    "\<exists>t. token_rows v4 = revoke_where (\<lambda>r. in_family_of ?h1 (token_rows v3) r \<and> rt_hash r \<in> set [?h2]) t (token_rows v3)"
    using wpD [OF finish_reports [OF rel3] y1] assms(10) by simp_all
  have "race_step J cfg (?B (Holding p2 (Refreshing m2) (Some n2) ?r2), v2)
      ({#Holding p2 (Refreshing m2) (Some n2) ?r2, Sweeping p1 (Refreshing m1) (Some n1) (token_row_of x1) [?h2]#}, v2)"
    using aims [of "Refreshing m1" "token_row_of x1" J cfg p1 "Some n1" "{#Holding p2 (Refreshing m2) (Some n2) ?r2#}" v2] assms(10) targets
    by (simp add: add_mset_commute)
  moreover note served(2)
  moreover have "race_step J cfg ({#Served p2 (Refreshing m2) ?r2 (Rotated (Inr toks)), Sweeping p1 (Refreshing m1) (Some n1) (token_row_of x1) [?h2]#}, v3)
      ({#Served p1 (Refreshing m1) ?r1 y1, Served p2 (Refreshing m2) ?r2 (Rotated (Inr toks))#}, v4)"
    using revokes [OF _ y1, of "{#Served p2 (Refreshing m2) ?r2 (Rotated (Inr toks))#}"] by (simp add: add_mset_commute)
  moreover have "race_steps J cfg ({#Asking p1 (Refreshing m1), ?A#}, w) (?B (Holding p2 (Refreshing m2) (Some n2) ?r2), v2)"
    using rtranclp_trans [OF s1] s2 by (simp add: add_mset_commute)
  ultimately have "race_steps J cfg ({#Asking p1 (Refreshing m1), ?A#}, w) ({#Served p1 (Refreshing m1) ?r1 y1, Served p2 (Refreshing m2) ?r2 (Rotated (Inr toks))#}, v4)"
    by (meson rtranclp.rtrancl_into_rtrancl)
  moreover have "live_of (rt_family x1) (token_rows v4) = [n]"
    using rep(2) live rot(3,4) new row_by_hash_D [OF assms(11)] by (auto simp: rot(1) live_of_revoke)
  ultimately show ?thesis using rep(1) rot(2) by (intro exI [of _ v4] exI [of _ toks] exI [of _ n]) simp
qed


section \<open>Worked examples\<close>

text \<open>A family of two tokens, the first spent, the second live.\<close>

definition demo_pair :: world where
  "demo_pair = calm ((demo_db (Some 0))\<lparr>tb_refresh_token := [demo_row (Some 0), (demo_row None)\<lparr>rt_id := ''s'', rt_hash := hash_refresh_token ''123456''\<rparr>]\<rparr>)"

lemma demo_pair_rows [simp]:
  "token_rows demo_pair = [demo_row (Some 0), (demo_row None)\<lparr>rt_id := ''s'', rt_hash := hash_refresh_token ''123456''\<rparr>]"
  "tb_user (w_db demo_pair) = [demo_user]" "reliable demo_pair" "w_tx demo_pair = None" "w_tick demo_pair n = 0" "w_clock demo_pair = 0"
  by (simp_all add: demo_pair_def)

lemma demo_hashes: "hash_refresh_token ''abc'' \<noteq> hash_refresh_token ''123456''"
  by (simp add: hash_refresh_token_def sha256_abc sha256_123456)

lemma demo_pair_by_hash: "row_by_hash (hash_refresh_token ''abc'') (token_rows demo_pair) = Some (demo_row (Some 0))"
  "row_by_hash (hash_refresh_token ''123456'') (token_rows demo_pair) = Some ((demo_row None)\<lparr>rt_id := ''s'', rt_hash := hash_refresh_token ''123456''\<rparr>)"
  using demo_hashes by (simp_all add: row_by_hash_def)

lemma demo_pair_facts: "token_inv (token_rows demo_pair)" "uncollided demo_pair"
proof -
  have "show_nat n \<noteq> ''r''" "show_nat n \<noteq> ''s''" for n
    using show_nat_digits [of n] by (auto simp: is_digit_def byte_def)
  then show "uncollided demo_pair"
    by (simp add: uncollided_def demo_pair_def hash_refresh_token_def sha256_abc sha256_123456 b64_url_sevens sha256_sevens)
  show "token_inv (token_rows demo_pair)" using demo_hashes by (simp add: token_inv_def live_of_def)
qed

lemma reuse_misses_rotation_witness:
  "\<exists>w1 toks n r1 r2. race_steps demo_jwt demo_config (asking [(''abc'', Refreshing demo_meta), (''123456'', Refreshing demo_meta)], demo_pair)
       ({#Served ''abc'' (Refreshing demo_meta) r1 (Rotated (Inl err_refresh_reused)),
          Served ''123456'' (Refreshing demo_meta) r2 (Rotated (Inr toks))#}, w1)
     \<and> live_of ''f'' (token_rows w1) = [n] \<and> rt_hash n = hash_refresh_token (refresh_token toks)"
  using reuse_misses_rotation [where w = demo_pair and J = demo_jwt and cfg = demo_config and ?p1.0 = "''abc''" and ?p2.0 = "''123456''" and ?m1.0 = demo_meta
      and ?m2.0 = demo_meta, OF _ _ demo_pair_facts demo_sign _ _ _ demo_pair_by_hash(1) _ demo_pair_by_hash(2)]
  by fastforce


text \<open>One token presented twice: the first call gets new tokens while the second has not begun.\<close>

lemma concurrent_single_use_witness:
  "\<exists>toks r w1. race_steps demo_jwt demo_config (asking [(''abc'', Refreshing demo_meta), (''abc'', Refreshing demo_meta)], calm (demo_db None))
       ({#Served ''abc'' (Refreshing demo_meta) r (Rotated (Inr toks)), Asking ''abc'' (Refreshing demo_meta)#}, w1)
     \<and> token_inv (token_rows w1)"
proof -
  let ?w = "calm (demo_db None)" and ?A = "Asking ''abc'' (Refreshing demo_meta)" and ?r = "Inr (token_row_of (demo_row None))"
  have row: "row_by_hash (hash_refresh_token ''abc'') (token_rows ?w) = Some (demo_row None)" by simp
  obtain n v where
    v: "race_steps demo_jwt demo_config ({#?A, ?A#}, ?w) ({#Holding ''abc'' (Refreshing demo_meta) (Some n) ?r, ?A#}, v)"
      "same_oracles ?w v" "w_db v = w_db ?w"
    by (rule takes_row [OF _ _ row, of "{#?A#}" demo_jwt demo_config "Refreshing demo_meta"]) simp_all
  have facts: "reliable v" "uncollided v" "\<forall>n. w_tick v n = 0" "w_clock v = 0"
    using v(2,3) demo_uncollided [of None] by (auto simp: reliable_def same_oracles_def uncollided_def)
  obtain toks w1 where "race_step demo_jwt demo_config ({#Holding ''abc'' (Refreshing demo_meta) (Some n) ?r, ?A#}, v)
      ({#Served ''abc'' (Refreshing demo_meta) ?r (Rotated (Inr toks)), ?A#}, w1)"
    by (rule takes_tokens [OF facts(1,2) demo_sign facts(3), of "demo_row None" "''abc''" demo_config demo_meta n "{#?A#}"])
      (use v(3) facts(4) in auto)
  with v(1) have run: "race_steps demo_jwt demo_config (asking [(''abc'', Refreshing demo_meta), (''abc'', Refreshing demo_meta)], ?w)
      ({#Served ''abc'' (Refreshing demo_meta) ?r (Rotated (Inr toks)), ?A#}, w1)" by simp
  moreover have "token_inv (token_rows w1)" using concurrent_single_use [OF run] demo_inv by simp
  ultimately show ?thesis by blast
qed

lemma concurrent_logout_ends_family_witness:
  "\<exists>r w1. race_steps demo_jwt demo_config (asking [(''abc'', Leaving)], calm (demo_db None)) ({#Served ''abc'' Leaving r (Left (Inr ()))#}, w1)
     \<and> dead ''f'' (token_rows w1)"
proof -
  let ?w = "calm (demo_db None)" and ?r = "token_row_of (demo_row None)" and ?h = "hash_refresh_token ''abc''"
  have row: "row_by_hash ?h (token_rows ?w) = Some (demo_row None)" by simp
  obtain n v where
    v: "race_steps demo_jwt demo_config ({#Asking ''abc'' Leaving#}, ?w) ({#Holding ''abc'' Leaving (Some n) (Inr ?r)#}, v)"
      "same_oracles ?w v"
    by (rule takes_row [OF _ _ row, of "{#}" demo_jwt demo_config Leaving]) simp_all
  let ?hs = "family_targets ?h (token_rows v)"
  obtain y w1 where y: "run_state (finish demo_jwt demo_config (sweeping_tx ?h ?hs) Leaving (Inr ?r)) (resume (Some n) v) = (y, w1)" by fastforce
  have "reliable v" using v(2) by (simp add: reliable_def same_oracles_def)
  then have "y = Left (Inr ())" by (rule wpD [OF finish_leaves y])
  moreover have "race_step demo_jwt demo_config ({#Holding ''abc'' Leaving (Some n) (Inr ?r)#}, v) ({#Sweeping ''abc'' Leaving (Some n) ?r ?hs#}, v)"
    by (rule aims) simp
  moreover have "race_step demo_jwt demo_config ({#Sweeping ''abc'' Leaving (Some n) ?r ?hs#}, v) ({#Served ''abc'' Leaving (Inr ?r) y#}, w1)"
    by (rule revokes [OF _ y]) simp
  ultimately have run: "race_steps demo_jwt demo_config (asking [(''abc'', Leaving)], ?w) ({#Served ''abc'' Leaving (Inr ?r) (Left (Inr ()))#}, w1)"
    using v(1) by simp
  then have "dead ''f'' (token_rows w1)" using concurrent_logout_ends_family [OF run, of "''abc''" ?r] demo_inv by simp
  with run show ?thesis by blast
qed

end
