(* ===== verification/Code_Race.thy ===== *)
theory Code_Race
  imports Token_Race
begin

text \<open>
  Codes presented at the same time. An operation that takes a code opens a transaction, reads and locks the pending row
  (\<open>FOR UPDATE\<close>), and does the rest while it holds the lock; between these three moves any other presentation of a code for
  the same row may move, and the rest of the service may do anything that leaves the row alone. \<open>locked_guard\<close> is
  the contract of the three moves; it bounds the guesses of every interleaving as \<open>code_guard\<close> bounds those of a sequence.
  \<open>Code_Race_Safety\<close> interprets it.
\<close>

section \<open>Presentations in parallel\<close>

record ('g, 'r, 'a) presenting =
  gu_open :: "unit io"
  gu_fetch :: "'r io"
  gu_finish :: "'g \<Rightarrow> gerror + 'r \<Rightarrow> (gerror + 'a) eff"
  gu_pending :: "world \<Rightarrow> 'r option"

text \<open>The operation without interruption.\<close>

definition present_alone :: "('g, 'r, 'a) presenting \<Rightarrow> 'g \<Rightarrow> 'a io" where
  "present_alone G g = do {
     b \<leftarrow> gu_open G;
     case b of
       Inl e \<Rightarrow> fail e
     | Inr _ \<Rightarrow> do { r \<leftarrow> gu_fetch G; gu_finish G g r } }"

datatype ('g, 'r, 'a) guesser = Trying 'g
  | Opened 'g "int option"
  | Locked 'g "int option" "gerror + 'r"
  | Told 'g "gerror + 'r" "gerror + 'a"

fun holds :: "('g, 'r, 'a) guesser \<Rightarrow> bool" where
  "holds (Locked g t (Inr row)) = True"
| "holds _ = False"

inductive guess_step ::
  "('g, 'r, 'a) presenting \<Rightarrow> ('g, 'r, 'a) guesser multiset \<times> world \<Rightarrow> ('g, 'r, 'a) guesser multiset \<times> world \<Rightarrow> bool" for G where
  opens: "run_state (gu_open G) w = (b, w1) \<Longrightarrow>
    guess_step G (add_mset (Trying g) cs, w)
      (add_mset (case b of Inl e \<Rightarrow> Told g (Inl e) (Inl e) | Inr _ \<Rightarrow> Opened g (tx_time w1)) cs, set_aside w1)"
| fetches: "filter_mset holds cs = {#} \<Longrightarrow> run_state (gu_fetch G) (resume t w) = (r, w1) \<Longrightarrow>
    guess_step G (add_mset (Opened g t) cs, w) (add_mset (Locked g (tx_time w1) r) cs, set_aside w1)"
| finishes: "run_state (gu_finish G g r) (resume t w) = (x, w1) \<Longrightarrow>
    guess_step G (add_mset (Locked g t r) cs, w) (add_mset (Told g r x) cs, w1)"
| outside: "w_tx w1 = None \<Longrightarrow> w_clock w \<le> w_clock w1 \<Longrightarrow> gu_pending G w1 = gu_pending G w \<Longrightarrow> guess_step G (cs, w) (cs, w1)"

abbreviation guess_steps where
  "guess_steps G \<equiv> (guess_step G)\<^sup>*\<^sup>*"

definition trying :: "'g list \<Rightarrow> ('g, 'r, 'a) guesser multiset" where
  "trying gs = mset (map Trying gs)"

fun accepted :: "('g, 'r, 'a) guesser \<Rightarrow> bool" where
  "accepted (Told g r (Inr a)) = True"
| "accepted _ = False"

fun turned_down :: "gerror \<Rightarrow> ('g, 'r, 'a) guesser \<Rightarrow> bool" where
  "turned_down e (Told g r (Inl e1)) \<longleftrightarrow> e1 = e"
| "turned_down e _ = False"

fun guess_of :: "('g, 'r, 'a) guesser \<Rightarrow> 'g" where
  "guess_of (Trying g) = g"
| "guess_of (Opened g t) = g"
| "guess_of (Locked g t r) = g"
| "guess_of (Told g r x) = g"

lemma trying_facts:
  "filter_mset holds (trying gs) = {#}" "filter_mset (turned_down e) (trying gs) = {#}" "filter_mset accepted (trying gs) = {#}"
  "c \<in># trying gs \<longleftrightarrow> (\<exists>g\<in>set gs. c = Trying g)"
  by (auto simp: trying_def filter_mset_eq_mempty_iff)

lemma accepted_Told [simp]: "accepted (Told g r x) \<longleftrightarrow> is_ok x"
  by (cases x) simp_all

section \<open>The contract\<close>

text \<open>
  \<open>key\<close> is the digest, the attempts and the expiry of a row. Opening and fetching change nothing; who has read a row may
  finish, and then a wrong code is counted or fails in a way that does not tell; who has read none leaves the row alone.
\<close>

locale locked_guard =
  fixes G :: "('g, 'r, 'a) presenting" and code_of :: "'g \<Rightarrow> string" and key :: "'r \<Rightarrow> string \<times> int \<times> int"
    and absent :: gerror and rejected :: gerror and ceiling :: int
  assumes open_law: "w_tx w = None \<Longrightarrow> run_state (gu_open G) w = (b, w1) \<Longrightarrow>
      gu_pending G (set_aside w1) = gu_pending G w \<and> w_clock w \<le> w_clock w1 \<and> b \<noteq> Inl rejected"
    and fetch_law: "run_state (gu_fetch G) (resume t w) = (r, w1) \<Longrightarrow>
      gu_pending G (set_aside w1) = gu_pending G w \<and> w_clock w \<le> w_clock w1
        \<and> (case r of Inl e \<Rightarrow> errors_is e absent \<longrightarrow> gu_pending G w = None | Inr row \<Rightarrow> gu_pending G w = Some row \<and> tx_time w1 \<noteq> None)"
    and fail_law: "run_state (gu_finish G g (Inl e)) (resume t w) = (x, w1) \<Longrightarrow>
      \<not> is_ok x \<and> w_tx w1 = None \<and> gu_pending G w1 = gu_pending G w \<and> w_clock w \<le> w_clock w1 \<and> (x = Inl rejected \<longrightarrow> errors_is e absent)"
    and miss_law: "t \<noteq> None \<Longrightarrow> gu_pending G w = Some row \<Longrightarrow> key row = (h, a, u) \<Longrightarrow> hash_code (code_of g) \<noteq> h \<Longrightarrow>
      run_state (gu_finish G g (Inr row)) (resume t w) = (x, w1) \<Longrightarrow>
      \<not> is_ok x \<and> w_tx w1 = None \<and> w_clock w \<le> w_clock w1 \<and>
      (gu_pending G w1 = Some row \<and> (x = Inl rejected \<longrightarrow> u \<le> w_clock w1)
       \<or> map_option key (gu_pending G w1) = Some (h, a + 1, u) \<and> a < ceiling)"
begin

text \<open>The row a guesser has locked is the row there is; while there is one, nobody has found none.\<close>

definition sound :: "world \<Rightarrow> ('g, 'r, 'a) guesser \<Rightarrow> bool" where
  "sound w c \<longleftrightarrow> (case c of Locked g t (Inr row) \<Rightarrow> t \<noteq> None \<and> gu_pending G w = Some row | _ \<Rightarrow> True)"

fun missed :: "('g, 'r, 'a) guesser \<Rightarrow> bool" where
  "missed (Locked g t (Inl e)) \<longleftrightarrow> errors_is e absent"
| "missed _ = False"

definition bounded :: "string \<Rightarrow> int \<Rightarrow> int \<Rightarrow> ('g, 'r, 'a) guesser multiset \<times> world \<Rightarrow> bool" where
  "bounded h a e = (\<lambda>(cs, w). w_tx w = None \<and> size (filter_mset holds cs) \<le> 1
     \<and> (\<forall>c\<in>#cs. sound w c \<and> \<not> missed c \<and> hash_code (code_of (guess_of c)) \<noteq> h \<and> \<not> accepted c)
     \<and> (\<exists>n. map_option key (gu_pending G w) = Some (h, n, e) \<and> a \<le> n \<and> n \<le> ceiling
          \<and> (w_clock w < e \<longrightarrow> int (size (filter_mset (turned_down rejected) cs)) \<le> n - a)))"

lemma sound_kept: "sound w c \<Longrightarrow> gu_pending G w1 = gu_pending G w \<Longrightarrow> sound w1 c"
  by (auto simp: sound_def split: guesser.splits sum.splits)

lemma sound_free: "\<not> holds c \<Longrightarrow> sound w c \<Longrightarrow> sound w1 c"
  by (auto simp: sound_def split: guesser.splits sum.splits)

lemma bounded_step:
  assumes "guess_step G s s1" and "bounded h a e s"
  shows "bounded h a e s1"
  using assms
proof (cases rule: guess_step.cases)
  case (opens w b w1 g cs)
  then have inv: "bounded h a e (add_mset (Trying g) cs, w)" using assms(2) by simp
  then have "w_tx w = None" by (simp add: bounded_def)
  note o = open_law [OF this opens(3)]
  show ?thesis using inv o unfolding opens(2)
    by (cases b) (auto simp: bounded_def sound_def [of _ "Opened _ _"] sound_def [of _ "Told _ _ _"] intro: sound_kept)
next
  case (fetches cs t w r w1 g)
  then have inv: "bounded h a e (add_mset (Opened g t) cs, w)" using assms(2) by simp
  note f = fetch_law [OF fetches(4)]
  show ?thesis using inv f unfolding fetches(2)
    by (cases r) (auto simp: bounded_def sound_def [of _ "Locked _ _ _"] fetches(3) intro: sound_kept)
next
  case (finishes g r t w x w1 cs)
  then have inv: "bounded h a e (add_mset (Locked g t r) cs, w)" using assms(2) by simp
  show ?thesis
  proof (cases r)
    case (Inl e1)
    note f = fail_law [OF finishes(3) [unfolded Inl]]
    have "\<not> errors_is e1 absent" using inv by (simp add: bounded_def sound_def Inl)
    then show ?thesis using inv f unfolding finishes(2)
      by (cases x) (auto simp: bounded_def Inl sound_def [of _ "Told _ _ _"] intro: sound_kept)
  next
    case (Inr row)
    from inv have row: "t \<noteq> None" "gu_pending G w = Some row" by (auto simp: bounded_def sound_def Inr)
    with inv obtain n where n: "key row = (h, n, e)" "a \<le> n" "n \<le> ceiling"
        "w_clock w < e \<Longrightarrow> int (size (filter_mset (turned_down rejected) cs)) \<le> n - a" "hash_code (code_of g) \<noteq> h"
      by (auto simp: bounded_def)
    note f = miss_law [OF row n(1,5) finishes(3) [unfolded Inr]]
    have free: "\<forall>c\<in>#cs. \<not> holds c" using inv by (auto simp: bounded_def Inr filter_mset_eq_conv simp del: size_eq_0_iff_empty)
    then have others: "\<forall>c\<in>#cs. sound w1 c" using inv by (auto simp: bounded_def intro: sound_free)
    have one: "int (size (filter_mset (turned_down rejected) (add_mset (Told g (Inr row) x) cs)))
        = (if x = Inl rejected then 1 else 0) + int (size (filter_mset (turned_down rejected) cs))"
      by (cases x) auto
    obtain m where m: "map_option key (gu_pending G w1) = Some (h, m, e)" "n \<le> m" "m \<le> ceiling" "x = Inl rejected \<longrightarrow> n < m \<or> e \<le> w_clock w1"
    proof (cases "gu_pending G w1 = Some row \<and> (x = Inl rejected \<longrightarrow> e \<le> w_clock w1)")
      case True
      then show ?thesis using that [of n] n(1,3) by simp
    next
      case False
      then show ?thesis using that [of "n + 1"] f n(3) by auto
    qed
    have "w_clock w1 < e \<longrightarrow> int (size (filter_mset (turned_down rejected) (add_mset (Told g (Inr row) x) cs))) \<le> m - a"
      using m(2,4) n(4) f unfolding one by auto
    moreover have "size (filter_mset holds (add_mset (Told g (Inr row) x) cs)) \<le> 1"
      using free by (simp add: filter_mset_eq_mempty_iff [THEN iffD2])
    moreover have "\<forall>c\<in>#add_mset (Told g (Inr row) x) cs. sound w1 c \<and> \<not> missed c \<and> hash_code (code_of (guess_of c)) \<noteq> h \<and> \<not> accepted c"
      using inv f others by (cases x) (auto simp: bounded_def sound_def [of _ "Told _ _ _"])
    moreover have "w_tx w1 = None" using f by simp
    moreover have "a \<le> m" using n(2) m(2) by simp
    ultimately have "bounded h a e (add_mset (Told g (Inr row) x) cs, w1)"
      unfolding bounded_def prod.case using m(1,3) by blast
    then show ?thesis unfolding finishes(2) Inr .
  qed
next
  case (outside w1 w cs)
  then have "bounded h a e (cs, w)" using assms(2) by simp
  then show ?thesis using outside(3-5) unfolding outside(2) by (auto simp: bounded_def intro: sound_kept)
qed

lemma bounded_run: "guess_steps G s s1 \<Longrightarrow> bounded h a e s \<Longrightarrow> bounded h a e s1"
  by (induction rule: rtranclp_induct) (auto intro: bounded_step)

lemma guesses_bounded:
  assumes "guess_steps G (trying gs, w) (cs, w1)" and "w_tx w = None" and "map_option key (gu_pending G w) = Some (h, a, e)"
    and "a \<le> ceiling" and "\<forall>g \<in> set gs. hash_code (code_of g) \<noteq> h"
  shows "(\<forall>c\<in>#cs. \<not> accepted c) \<and> (\<exists>n. map_option key (gu_pending G w1) = Some (h, n, e) \<and> n \<le> ceiling
    \<and> (w_clock w1 < e \<longrightarrow> int (size (filter_mset (turned_down rejected) cs)) \<le> n - a))"
proof -
  have "bounded h a e (trying gs, w)"
    using assms(2-5) by (auto simp: bounded_def sound_def trying_facts) blast
  from bounded_run [OF assms(1) this] show ?thesis by (auto simp: bounded_def)
qed

end

text \<open>A code that is used up when it is accepted is accepted once.\<close>

locale locked_once = locked_guard +
  assumes hit_law: "t \<noteq> None \<Longrightarrow> gu_pending G w = Some row \<Longrightarrow> run_state (gu_finish G g (Inr row)) (resume t w) = (x, w1) \<Longrightarrow>
      w_tx w1 = None \<and> (is_ok x \<longrightarrow> gu_pending G w1 = None)"
begin

definition once :: "('a, 'b, 'c) guesser multiset \<times> world \<Rightarrow> bool" where
  "once = (\<lambda>(cs, w). w_tx w = None \<and> size (filter_mset holds cs) \<le> 1 \<and> (\<forall>c\<in>#cs. sound w c)
     \<and> size (filter_mset accepted cs) \<le> 1 \<and> (\<forall>c\<in>#cs. accepted c \<longrightarrow> gu_pending G w = None))"

lemma once_step:
  assumes "guess_step G s s1" and "once s"
  shows "once s1"
  using assms
proof (cases rule: guess_step.cases)
  case (opens w b w1 g cs)
  then have inv: "once (add_mset (Trying g) cs, w)" using assms(2) by simp
  then have "w_tx w = None" by (simp add: once_def)
  note o = open_law [OF this opens(3)]
  show ?thesis using inv o unfolding opens(2)
    by (cases b) (auto simp: once_def sound_def [of _ "Opened _ _"] sound_def [of _ "Told _ _ _"] intro: sound_kept)
next
  case (fetches cs t w r w1 g)
  then have inv: "once (add_mset (Opened g t) cs, w)" using assms(2) by simp
  note f = fetch_law [OF fetches(4)]
  show ?thesis using inv f unfolding fetches(2)
    by (cases r) (auto simp: once_def sound_def [of _ "Locked _ _ _"] fetches(3) intro: sound_kept)
next
  case (finishes g r t w x w1 cs)
  then have inv: "once (add_mset (Locked g t r) cs, w)" using assms(2) by simp
  show ?thesis
  proof (cases r)
    case (Inl e1)
    note f = fail_law [OF finishes(3) [unfolded Inl]]
    then show ?thesis using inv f unfolding finishes(2)
      by (cases x) (auto simp: once_def Inl sound_def [of _ "Told _ _ _"] intro: sound_kept)
  next
    case (Inr row)
    from inv have row: "t \<noteq> None" "gu_pending G w = Some row" by (auto simp: once_def sound_def Inr)
    note f = hit_law [OF row finishes(3) [unfolded Inr]]
    have free: "\<forall>c\<in>#cs. \<not> holds c" using inv by (auto simp: once_def Inr filter_mset_eq_conv simp del: size_eq_0_iff_empty)
    then have others: "\<forall>c\<in>#cs. sound w1 c" using inv by (auto simp: once_def intro: sound_free)
    have none: "\<forall>c\<in>#cs. \<not> accepted c" using inv row(2) by (auto simp: once_def)
    show ?thesis unfolding finishes(2) Inr once_def prod.case
      using f others free none
      by (cases x) (auto simp: sound_def [of _ "Told _ _ _"] filter_mset_eq_mempty_iff [THEN iffD2])
  qed
next
  case (outside w1 w cs)
  then have "once (cs, w)" using assms(2) by simp
  then show ?thesis using outside(3-5) unfolding outside(2) by (auto simp: once_def intro: sound_kept)
qed

lemma once_run: "guess_steps G s s1 \<Longrightarrow> once s \<Longrightarrow> once s1"
  by (induction rule: rtranclp_induct) (auto intro: once_step)

lemma accepted_once:
  assumes "guess_steps G (trying gs, w) (cs, w1)" and "w_tx w = None"
  shows "size (filter_mset accepted cs) \<le> 1"
proof -
  have "once (trying gs, w)" using assms(2) by (auto simp: once_def sound_def trying_facts)
  from once_run [OF assms(1) this] show ?thesis by (auto simp: once_def)
qed

end

section \<open>Splitting an operation\<close>

lemma bind_sum_cong: "(\<And>x. k (Inr x) = k' (Inr x)) \<Longrightarrow> (\<And>e. k (Inl e) = k' (Inl e)) \<Longrightarrow> State_Monad.bind m k = State_Monad.bind m k'"
  by (rule arg_cong [where f = "State_Monad.bind m"], rule ext) (case_tac x, simp_all)

lemma open_effect:
  "wp (check p (check q pool_begin (\<lambda>_. ok tx)) (\<lambda>_. ok ())) (\<lambda>b w1. w_db w1 = w_db w \<and> w_clock w \<le> w_clock w1
     \<and> (\<forall>e. b = Inl e \<longrightarrow> (\<exists>x. e = wrap p x))) w"
  unfolding wp_code by (rule wp_start, erule pool_begin_step) (auto simp: moves_def wp_code same_oracles_clock)

text \<open>Two attempts, of which the first is answered while the second is in progress.\<close>

lemma first_answered: "\<exists>r x c w1. guess_steps G (trying [g, g'], w) ({#Told g r x, c#}, w1)"
proof -
  obtain b w1 where o: "run_state (gu_open G) w = (b, w1)" by fastforce
  note s = guess_step.opens [OF o, of g "{#Trying g'#}"]
  show ?thesis
  proof (cases b)
    case (Inl e)
    then have "guess_steps G (trying [g, g'], w) ({#Told g (Inl e) (Inl e), Trying g'#}, set_aside w1)" using s by (auto simp: trying_def)
    then show ?thesis by blast
  next
    case (Inr u)
    obtain b' w2 where o': "run_state (gu_open G) (set_aside w1) = (b', w2)" by fastforce
    let ?c = "case b' of Inl e \<Rightarrow> Told g' (Inl e) (Inl e) | Inr _ \<Rightarrow> Opened g' (tx_time w2)"
    obtain r w3 where f: "run_state (gu_fetch G) (resume (tx_time w1) (set_aside w2)) = (r, w3)" by fastforce
    obtain x w4 where e: "run_state (gu_finish G g r) (resume (tx_time w3) (set_aside w3)) = (x, w4)" by fastforce
    have free: "filter_mset holds {#?c#} = {#}" by (cases b') simp_all
    have "guess_steps G (trying [g, g'], w) ({#Opened g (tx_time w1), Trying g'#}, set_aside w1)" using s Inr by (simp add: trying_def r_into_rtranclp)
    also have "guess_steps G \<dots> ({#Opened g (tx_time w1), ?c#}, set_aside w2)"
      using guess_step.opens [OF o', of g' "{#Opened g (tx_time w1)#}"] by (simp add: add_mset_commute r_into_rtranclp)
    also have "guess_steps G \<dots> ({#Locked g (tx_time w3) r, ?c#}, set_aside w3)" by (intro r_into_rtranclp guess_step.fetches free f)
    also have "guess_steps G \<dots> ({#Told g r x, ?c#}, w4)" by (intro r_into_rtranclp guess_step.finishes e)
    finally show ?thesis by blast
  qed
qed

end
