(* ===== verification/Code_Race_Safety.thy ===== *)
theory Code_Race_Safety
  imports Code_Race Signup_Safety Recovery Relocation
begin

text \<open>
  The three operations that take a mailed code, split where they hold the lock of the pending row (\<open>signup_alone\<close>, \<open>reset_alone\<close>,
  \<open>change_alone\<close>), and the contract of \<open>Code_Race\<close> for each: how far concurrent guesses get, and that a registration is
  consumed once.
\<close>

section \<open>Registration\<close>

text \<open>\<open>Verify\<close> after \<open>tx.Pending\<close> has returned, up to the deferred rollback.\<close>

definition verify_signup_after ::
  "verifier \<Rightarrow> string \<Rightarrow> session_meta \<Rightarrow> string \<Rightarrow> verify_tx \<Rightarrow> gerror + pending_row \<Rightarrow> (world, tokens) body" where
  "verify_signup_after v email meta code tx p = (case p of
         Inl e \<Rightarrow>
           if errors_is e err_no_pending then do {
             best_effort (vf_auditor v) (signup_event event_signup_code_rejected [] email meta
               [(''reason'', JStr ''no_pending_registration'')]);
             leave False (Inl err_invalid_code) }
           else leave False (Inl (wrap ''signup: reading pending registration: '' e))
       | Inr row \<Rightarrow> do {
           now \<leftarrow> read_clock;
           if \<not> now < pr_expires row then do {
             best_effort (vf_auditor v) (signup_event event_signup_code_rejected [] email meta
               [(''reason'', JStr ''expired'')]);
             leave False (Inl err_invalid_code) }
           else if signup_max_attempts \<le> pr_attempts row then leave False (Inl err_too_many_attempts)
           else if \<not> codes_equal (hash_code code) (pr_code row) then
             tcheck ''signup: recording failed attempt: '' (vtx_record_failed tx) (\<lambda>_.
             tcheck ''signup: committing failed attempt: '' (vtx_commit tx) (\<lambda>_. do {
               best_effort (vf_auditor v) (signup_event event_signup_code_rejected [] email meta
                 [(''reason'', JStr ''wrong_code''), (''attempts'', JInt (pr_attempts row + 1))]);
               leave True (Inl err_invalid_code) }))
           else do {
             verified_at \<leftarrow> read_clock;
             tcheck ''signup: creating user: '' (vtx_promote tx \<lparr>nu_name = pr_name row, nu_email = email,
                 nu_password = pr_password row, nu_verified_at = verified_at\<rparr>) (\<lambda>uid.
             tcheck ''signup: discarding pending registration: '' (vtx_discard tx) (\<lambda>_.
             tcheck ''signup: committing verification: '' (vtx_commit tx) (\<lambda>_. do {
               t \<leftarrow> vf_issuer v uid meta;
               case t of
                 Inl e \<Rightarrow> leave True (Inl e)
               | Inr toks \<Rightarrow> do {
                   best_effort (vf_auditor v) (signup_event event_signup_verified uid email meta []);
                   best_effort (vf_auditor v) ((event event_session_created)\<lparr>ev_user := uid,
                     ev_ip := m_ip meta, ev_user_agent := m_user_agent meta\<rparr>);
                   leave True (Inr toks) } }))) } })"

definition signup_presenting :: "verifier \<Rightarrow> string \<Rightarrow> (session_meta \<times> string, pending_row, tokens) presenting" where
  "signup_presenting v email = \<lparr>
     gu_open = check ''signup: opening verification: '' (pg_begin_verify email) (\<lambda>_. ok ()),
     gu_fetch = pg_pending email,
     gu_finish = (\<lambda>(meta, code) p. deferred tx_rollback (verify_signup_after v email meta code (pg_verify_tx email) p)),
     gu_pending = (\<lambda>w. map_option pending_row_of (pending_of email (signup_rows w)))\<rparr>"

lemma signup_alone:
  assumes "vf_store v = pg_begin_verify"
  shows "verify_signup v raw meta code = present_alone (signup_presenting v (normalize_email raw)) (meta, code)"
  unfolding present_alone_def signup_presenting_def verify_signup_def Let_def assms check_def pg_begin_verify_def presenting.simps prod.case
    State_Monad.bind_assoc
  by (rule bind_sum_cong) (simp_all add: verify_signup_after_def deferred_bind pg_verify_tx_def)

lemma pending_effect:
  "wp (pg_pending email) (\<lambda>r w1. w_db w1 = w_db w \<and> w_clock w \<le> w_clock w1 \<and> (case r of
       Inl e \<Rightarrow> errors_is e err_no_pending \<longrightarrow> pending_of email (signup_rows w) = None
     | Inr row \<Rightarrow> tx_time w1 \<noteq> None \<and> map_option pending_row_of (pending_of email (signup_rows w)) = Some row)) (resume t w)"
proof (cases t)
  case None
  have "wp (pg_pending email) (\<lambda>r w1. r = Inl (wrap ''selecting pending registration: '' tx_closed) \<and> w1 = tickd (resume t w)) (resume t w)"
    unfolding pg_pending_def wp_code tx_exec_def wp_State by (simp add: None)
  then show ?thesis by (rule wp_mono) (use None stmt_now_ge [of "resume None w"] in \<open>auto simp: tx_closed_def err_no_pending_def\<close>)
next
  case (Some n)
  have "moves (resume t w) (w_db w) (Some \<lparr>tx_db = w_db w, tx_now = n\<rparr>) (w_mq w) (resume t w)"
    using moves_refl [of "resume t w"] Some by simp
  then show ?thesis by (rule pg_pending_step) (auto simp: moves_def tx_time_def dest: same_oracles_clock)
qed

text \<open>What the last move leaves of the row, and its answer.\<close>

definition signup_settled :: "string \<Rightarrow> string \<Rightarrow> gerror + pending_row \<Rightarrow> world \<Rightarrow> gerror + tokens \<Rightarrow> world \<Rightarrow> bool" where
  "signup_settled email code r w x w' \<longleftrightarrow> w_tx w' = None \<and> w_clock w \<le> w_clock w' \<and> (case r of
       Inl e \<Rightarrow> \<not> is_ok x \<and> pending_of email (signup_rows w') = pending_of email (signup_rows w) \<and>
         (x = Inl err_invalid_code \<longrightarrow> errors_is e err_no_pending)
     | Inr row \<Rightarrow>
         \<not> is_ok x \<and> pending_of email (signup_rows w') = pending_of email (signup_rows w) \<and>
           (x = Inl err_invalid_code \<longrightarrow> pr_expires row \<le> w_clock w')
         \<or> \<not> is_ok x \<and> hash_code code \<noteq> pr_code row \<and> pr_attempts row < signup_max_attempts \<and>
           (\<exists>t. pending_of email (signup_rows w') = map_option (failed_once t) (pending_of email (signup_rows w)))
         \<or> hash_code code = pr_code row \<and> pending_of email (signup_rows w') = None)"

lemma signup_settled_unread:
  assumes "moves (resume t w) d None q w'" and "tb_signup_request d = signup_rows w" and "\<not> is_ok x"
    and "x = Inl err_invalid_code \<longrightarrow> errors_is e err_no_pending"
  shows "signup_settled email code (Inl e) w x w'"
  using assms movesD [OF assms(1)] by (simp add: signup_settled_def)

lemma signup_settled_kept:
  assumes "moves (resume t w) d None q w'" and "tb_signup_request d = signup_rows w" and "\<not> is_ok x"
    and "x = Inl err_invalid_code \<longrightarrow> pr_expires row \<le> w_clock w'"
  shows "signup_settled email code (Inr row) w x w'"
  using assms movesD [OF assms(1)] by (simp add: signup_settled_def)

lemma signup_settled_counted:
  assumes "moves (resume t w) d None q w'"
    and "tb_signup_request d = update_where (\<lambda>r. sr_email r = email) (failed_once n) (signup_rows w)" and "\<not> is_ok x"
    and "hash_code code \<noteq> pr_code row" and "pr_attempts row < signup_max_attempts"
  shows "signup_settled email code (Inr row) w x w'"
  using assms movesD [OF assms(1)] by (auto simp: signup_settled_def pending_failed_once)

lemma signup_settled_used:
  assumes "moves (resume t w) d None q w'"
    and "tb_signup_request d = filter (\<lambda>r. sr_email r \<noteq> email) (signup_rows w)" and "hash_code code = pr_code row"
  shows "signup_settled email code (Inr row) w x w'"
  using assms movesD [OF assms(1)] by (auto simp: signup_settled_def pending_discarded)

context signup_env
begin

lemma signup_finish_effect:
  assumes "vf_issuer v = issuer" and "vf_auditor v = auditor" and "is_ok r \<longrightarrow> t \<noteq> None"
  shows "wp (gu_finish (signup_presenting v email) (meta, code) r) (signup_settled email code r w) (resume t w)"
proof (rule wp_start)
  fix w' assume m: "moves (resume t w) (w_db (resume t w)) (w_tx (resume t w)) (w_mq (resume t w)) w'"
  note code = signup_presenting_def presenting.simps prod.case verify_signup_after_def codes_equal_def
  show "wp (gu_finish (signup_presenting v email) (meta, code) r) (signup_settled email code r w) w'"
  proof (cases r)
    case (Inl e)
    show ?thesis
      unfolding code Inl sum.case
      apply (insert m)
      by (((erule wp_steps best_effort_step)+)?; clarsimp simp: wp_code assms(2) signup_settled_unread; (intro conjI impI)?)+
  next
    case (Inr row)
    then obtain n where step: "moves (resume t w) (w_db w) (Some \<lparr>tx_db = w_db w, tx_now = n\<rparr>) (w_mq w) w'"
      using m assms(3) by auto
    note post = signup_settled_kept signup_settled_counted signup_settled_used
    show ?thesis
      unfolding code Inr sum.case
      apply (insert step)
      by (((erule wp_steps issuer_step best_effort_step)+)?; clarsimp simp: wp_code assms(1,2) post not_less not_le insert_user_Inr
         simp del: set_map; (intro conjI impI)?; (rule state_cases)?)+
  qed
qed

end

definition row_key :: "pending_row \<Rightarrow> string \<times> int \<times> int" where
  "row_key row = (pr_code row, pr_attempts row, pr_expires row)"

lemma signup_finished:
  assumes "run_state (gu_finish (signup_presenting (pg_verifier J cfg k) email) g r) (resume t w) = (x, w1)" and "is_ok r \<longrightarrow> t \<noteq> None"
  shows "signup_settled email (snd g) r w x w1"
proof (cases g)
  case (Pair meta code)
  show ?thesis
    unfolding Pair snd_conv
    by (rule wpD [OF pg_signup.signup_finish_effect [OF _ _ assms(2)] assms(1) [unfolded Pair]]) (simp_all add: pg_verifier_def new_verifier_def)
qed

lemma signup_pending [simp]:
  "gu_pending (signup_presenting v email) w = map_option pending_row_of (pending_of email (signup_rows w))"
  "gu_open (signup_presenting v email) = check ''signup: opening verification: '' (pg_begin_verify email) (\<lambda>_. ok ())"
  "gu_fetch (signup_presenting v email) = pg_pending email"
  by (simp_all add: signup_presenting_def)

interpretation signup_race: locked_once "signup_presenting (pg_verifier J cfg k) email" snd row_key err_no_pending err_invalid_code
    signup_max_attempts for J cfg k email
proof
  fix w b w1
  assume "run_state (gu_open (signup_presenting (pg_verifier J cfg k) email)) w = (b, w1)"
  from wpD [OF open_effect this [simplified pg_begin_verify_def signup_pending]]
  show "gu_pending (signup_presenting (pg_verifier J cfg k) email) (set_aside w1) = gu_pending (signup_presenting (pg_verifier J cfg k) email) w
      \<and> w_clock w \<le> w_clock w1 \<and> b \<noteq> Inl err_invalid_code"
    by auto
next
  fix t w r w1
  assume "run_state (gu_fetch (signup_presenting (pg_verifier J cfg k) email)) (resume t w) = (r, w1)"
  from wpD [OF pending_effect this [simplified signup_pending]]
  show "gu_pending (signup_presenting (pg_verifier J cfg k) email) (set_aside w1) = gu_pending (signup_presenting (pg_verifier J cfg k) email) w
      \<and> w_clock w \<le> w_clock w1 \<and> (case r of
          Inl e \<Rightarrow> errors_is e err_no_pending \<longrightarrow> gu_pending (signup_presenting (pg_verifier J cfg k) email) w = None
        | Inr row \<Rightarrow> gu_pending (signup_presenting (pg_verifier J cfg k) email) w = Some row \<and> tx_time w1 \<noteq> None)"
    by (auto split: sum.splits)
next
  fix g e t w x w1
  assume "run_state (gu_finish (signup_presenting (pg_verifier J cfg k) email) g (Inl e)) (resume t w) = (x, w1)"
  from signup_finished [OF this]
  show "\<not> is_ok x \<and> w_tx w1 = None \<and> gu_pending (signup_presenting (pg_verifier J cfg k) email) w1 = gu_pending (signup_presenting (pg_verifier J cfg k) email) w
      \<and> w_clock w \<le> w_clock w1 \<and> (x = Inl err_invalid_code \<longrightarrow> errors_is e err_no_pending)"
    by (simp add: signup_settled_def)
next
  fix t :: "int option" and w row h a u g x w1
  assume "t \<noteq> None" and row: "gu_pending (signup_presenting (pg_verifier J cfg k) email) w = Some row" "row_key row = (h, a, u)"
    and "hash_code (snd g) \<noteq> h"
    and "run_state (gu_finish (signup_presenting (pg_verifier J cfg k) email) g (Inr row)) (resume t w) = (x, w1)"
  with signup_finished [of J cfg k email g "Inr row" t w x w1]
  show "\<not> is_ok x \<and> w_tx w1 = None \<and> w_clock w \<le> w_clock w1 \<and>
      (gu_pending (signup_presenting (pg_verifier J cfg k) email) w1 = Some row \<and> (x = Inl err_invalid_code \<longrightarrow> u \<le> w_clock w1)
       \<or> map_option row_key (gu_pending (signup_presenting (pg_verifier J cfg k) email) w1) = Some (h, a + 1, u) \<and> a < signup_max_attempts)"
    by (auto simp: signup_settled_def row_key_def failed_once_def)
next
  fix t :: "int option" and w row g x w1
  assume "t \<noteq> None" and "gu_pending (signup_presenting (pg_verifier J cfg k) email) w = Some row"
    and "run_state (gu_finish (signup_presenting (pg_verifier J cfg k) email) g (Inr row)) (resume t w) = (x, w1)"
  with signup_finished [of J cfg k email g "Inr row" t w x w1]
  show "w_tx w1 = None \<and> (is_ok x \<longrightarrow> gu_pending (signup_presenting (pg_verifier J cfg k) email) w1 = None)"
    by (auto simp: signup_settled_def)
qed

section \<open>Reset and change of address\<close>

text \<open>Both keep their codes in the same table; \<open>look\<close> is the row that an attempt is compared with.\<close>

definition token_settled :: "(db \<Rightarrow> user_token_row option) \<Rightarrow> gerror \<Rightarrow> int \<Rightarrow> user_token_row \<Rightarrow> world \<Rightarrow> gerror + unit \<Rightarrow> world \<Rightarrow> bool" where
  "token_settled look bad ceiling p w x w' \<longleftrightarrow> \<not> is_ok x \<and> w_tx w' = None \<and> w_clock w \<le> w_clock w' \<and>
     (look (w_db w') = Some p \<and> (x = Inl bad \<longrightarrow> ut_expires p \<le> w_clock w')
      \<or> (\<exists>t. look (w_db w') = Some (attempt_counted t p)) \<and> ut_attempts p < ceiling)"

lemma token_settled_kept:
  assumes "moves (resume t w) d None q w'" and "look d = Some p" and "\<not> is_ok x" and "x = Inl bad \<longrightarrow> ut_expires p \<le> w_clock w'"
  shows "token_settled look bad ceiling p w x w'"
  using assms movesD [OF assms(1)] by (simp add: token_settled_def)

lemma token_settled_counted:
  assumes "moves (resume t w) d None q w'" and "look d = Some (attempt_counted n p)" and "\<not> is_ok x" and "ut_attempts p < ceiling"
  shows "token_settled look bad ceiling p w x w'"
  using assms movesD [OF assms(1)] by (auto simp: token_settled_def)

definition token_unread :: "(db \<Rightarrow> user_token_row option) \<Rightarrow> gerror \<Rightarrow> gerror \<Rightarrow> world \<Rightarrow> gerror + unit \<Rightarrow> world \<Rightarrow> bool" where
  "token_unread look bad e w x w' \<longleftrightarrow> \<not> is_ok x \<and> w_tx w' = None \<and> w_clock w \<le> w_clock w' \<and> look (w_db w') = look (w_db w)
     \<and> (x = Inl bad \<longrightarrow> errors_is e bad)"

lemma token_unreadI:
  assumes "moves (resume t w) (w_db w) None q w'" and "\<not> is_ok x" and "x = Inl bad \<longrightarrow> errors_is e bad"
  shows "token_unread look bad e w x w'"
  using assms movesD [OF assms(1)] by (simp add: token_unread_def)

lemma token_read_effect:
  assumes "\<not> errors_is (wrap p tx_closed) absent" and "\<And>m. \<not> errors_is (wrap p (ExtError m)) absent"
  shows "wp (do {
       r \<leftarrow> tx_exec (query_stmt look);
       case r of
         Inl e \<Rightarrow> fail (wrap p e)
       | Inr None \<Rightarrow> fail absent
       | Inr (Some row) \<Rightarrow> ok (row_of row) })
     (\<lambda>r w1. w_db w1 = w_db w \<and> w_clock w \<le> w_clock w1 \<and> (case r of
       Inl e \<Rightarrow> errors_is e absent \<longrightarrow> look (w_db w) = None
     | Inr row \<Rightarrow> tx_time w1 \<noteq> None \<and> map_option row_of (look (w_db w)) = Some row)) (resume t w)"
proof (cases t)
  case None
  then show ?thesis using assms stmt_now_ge [of "resume None w"]
    by (simp add: wp_code tx_exec_def wp_State)
next
  case (Some n)
  have "moves (resume t w) (w_db w) (Some \<lparr>tx_db = w_db w, tx_now = n\<rparr>) (w_mq w) (resume t w)"
    using moves_refl [of "resume t w"] Some by simp
  then show ?thesis unfolding wp_code
    by (rule tx_exec_step) (use assms in \<open>auto simp: moves_def tx_time_def wp_code dest: same_oracles_clock split: option.splits\<close>)
qed

text \<open>What the two have to show of their last moves to meet the contract.\<close>

lemma token_guardI:
  assumes "gu_open G = check p0 (check p1 pool_begin (\<lambda>_. ok tx)) (\<lambda>_. ok ())"
    and "gu_fetch G = do {
       r \<leftarrow> tx_exec (query_stmt look);
       case r of
         Inl e \<Rightarrow> fail (wrap p2 e)
       | Inr None \<Rightarrow> fail bad
       | Inr (Some row) \<Rightarrow> ok (row_of row) }"
    and "gu_pending G = (\<lambda>w. map_option row_of (look (w_db w)))"
    and "\<And>r. key (row_of r) = (ut_hash r, ut_attempts r, ut_expires r)"
    and "\<And>g e t w. wp (gu_finish G g (Inl e)) (token_unread look bad e w) (resume t w)"
    and "\<And>g t w r. t \<noteq> None \<Longrightarrow> look (w_db w) = Some r \<Longrightarrow> hash_code (code_of g) \<noteq> ut_hash r \<Longrightarrow>
      wp (gu_finish G g (Inr (row_of r))) (token_settled look bad ceiling r w) (resume t w)"
    and "bad = Err txt"
  shows "locked_guard G code_of key bad bad ceiling"
proof
  fix w b w1
  assume "run_state (gu_open G) w = (b, w1)"
  from wpD [OF open_effect this [unfolded assms(1)]]
  show "gu_pending G (set_aside w1) = gu_pending G w \<and> w_clock w \<le> w_clock w1 \<and> b \<noteq> Inl bad"
    by (auto simp: assms(3,7))
next
  fix t w r w1
  assume "run_state (gu_fetch G) (resume t w) = (r, w1)"
  from wpD [OF token_read_effect this [unfolded assms(2)]]
  show "gu_pending G (set_aside w1) = gu_pending G w \<and> w_clock w \<le> w_clock w1 \<and> (case r of
          Inl e \<Rightarrow> errors_is e bad \<longrightarrow> gu_pending G w = None
        | Inr row \<Rightarrow> gu_pending G w = Some row \<and> tx_time w1 \<noteq> None)"
    by (auto simp: assms(3,7) tx_closed_def split: sum.splits)
next
  fix g e t w x w1
  assume "run_state (gu_finish G g (Inl e)) (resume t w) = (x, w1)"
  from wpD [OF assms(5) this]
  show "\<not> is_ok x \<and> w_tx w1 = None \<and> gu_pending G w1 = gu_pending G w \<and> w_clock w \<le> w_clock w1 \<and> (x = Inl bad \<longrightarrow> errors_is e bad)"
    by (simp add: token_unread_def assms(3))
next
  fix t :: "int option" and w row h a u g x w1
  assume t: "t \<noteq> None" and row: "gu_pending G w = Some row" "key row = (h, a, u)" and h: "hash_code (code_of g) \<noteq> h"
    and run: "run_state (gu_finish G g (Inr row)) (resume t w) = (x, w1)"
  from row(1) obtain r where r: "look (w_db w) = Some r" "row = row_of r" by (auto simp: assms(3))
  with row(2) have k: "h = ut_hash r" "a = ut_attempts r" "u = ut_expires r" by (simp_all add: assms(4))
  from wpD [OF assms(6) [OF t r(1) h [unfolded k(1)]] run [unfolded r(2)]]
  show "\<not> is_ok x \<and> w_tx w1 = None \<and> w_clock w \<le> w_clock w1 \<and>
      (gu_pending G w1 = Some row \<and> (x = Inl bad \<longrightarrow> u \<le> w_clock w1)
       \<or> map_option key (gu_pending G w1) = Some (h, a + 1, u) \<and> a < ceiling)"
    by (auto simp: token_settled_def assms(3,4) k r(2))
qed

text \<open>\<open>ResetPassword\<close> after \<open>tx.Token\<close> has returned, up to the deferred rollback.\<close>

definition reset_after :: "password_service \<Rightarrow> string \<Rightarrow> string \<Rightarrow> string \<Rightarrow> reset_tx \<Rightarrow> gerror + reset_row \<Rightarrow> (world, unit) body" where
  "reset_after s email new_password code tx t = (case t of
         Inl e \<Rightarrow>
           if errors_is e err_reset_invalid_code then leave False (Inl err_reset_invalid_code)
           else leave False (Inl (wrap ''password: reading reset token: '' e))
       | Inr row \<Rightarrow> do {
           now \<leftarrow> read_clock;
           if rs_used row \<noteq> None \<or> \<not> now < rs_expires row then leave False (Inl err_reset_invalid_code)
           else if reset_max_attempts \<le> rs_attempts row then leave False (Inl err_reset_too_many)
           else if \<not> codes_equal (hash_code code) (rs_code row) then
             tcheck ''password: recording failed attempt: '' (rsx_record_failed tx (rs_token row)) (\<lambda>_.
             tcheck ''password: committing failed attempt: '' (rsx_commit tx) (\<lambda>_. do {
               best_effort (pw_auditor s) (password_event event_password_reset_failed (rs_user row) email
                 [(''reason'', JStr ''wrong_code'')]);
               leave True (Inl err_reset_invalid_code) }))
           else
             tcheck ''password: hashing: '' (pw_hash s new_password) (\<lambda>hash.
             tcheck ''password: setting password: '' (rsx_set_password tx (rs_user row) hash) (\<lambda>_.
             tcheck ''password: consuming token: '' (rsx_consume tx (rs_token row)) (\<lambda>_.
             tcheck ''password: revoking sessions: '' (rsx_revoke_all tx (rs_user row)) (\<lambda>_.
             tcheck ''password: committing reset: '' (rsx_commit tx) (\<lambda>_. do {
               best_effort (pw_auditor s) (password_event event_password_reset (rs_user row) email []);
               leave True (Inr ()) }))))) })"

abbreviation reset_look :: "string \<Rightarrow> db \<Rightarrow> user_token_row option" where
  "reset_look email d \<equiv> reset_token email (tb_user d) (tb_user_token d)"

definition reset_presenting :: "password_service \<Rightarrow> string \<Rightarrow> (string \<times> string, reset_row, unit) presenting" where
  "reset_presenting s email = \<lparr>
     gu_open = check ''password: opening reset: '' (pg_begin_reset email) (\<lambda>_. ok ()),
     gu_fetch = pg_reset_token email,
     gu_finish = (\<lambda>(new_password, code) t. deferred tx_rollback (reset_after s email new_password code (pg_reset_tx email) t)),
     gu_pending = (\<lambda>w. map_option reset_row_of (reset_look email (w_db w)))\<rparr>"

lemma reset_alone:
  assumes "pw_store s = pg_password_store"
  shows "reset_password s raw new_password code = present_alone (reset_presenting s (normalize_email raw)) (new_password, code)"
  unfolding present_alone_def reset_presenting_def reset_password_def Let_def assms password_store_simps check_def pg_begin_reset_def
    presenting.simps prod.case State_Monad.bind_assoc
  by (rule bind_sum_cong) (simp_all only: State_Monad.bind_left_identity sum.case reset_after_def deferred_bind reset_tx_simps)

context auditing
begin

lemma reset_unread_effect:
  assumes "pw_auditor s = auditor"
  shows "wp (gu_finish (reset_presenting s email) (new_password, code) (Inl e)) (token_unread (reset_look email) err_reset_invalid_code e w) (resume t w)"
  unfolding reset_presenting_def presenting.simps prod.case reset_after_def sum.case
  apply (rule wp_start)
  by (((erule wp_steps)+)?; clarsimp simp: wp_code token_unreadI; (intro conjI impI)?)+

lemma reset_miss_effect:
  assumes "pw_auditor s = auditor" and "t \<noteq> None" and "reset_look email (w_db w) = Some p" and "hash_code code \<noteq> ut_hash p"
  shows "wp (gu_finish (reset_presenting s email) (new_password, code) (Inr (reset_row_of p)))
    (token_settled (reset_look email) err_reset_invalid_code reset_max_attempts p w) (resume t w)"
proof (rule wp_start)
  fix w' assume m: "moves (resume t w) (w_db (resume t w)) (w_tx (resume t w)) (w_mq (resume t w)) w'"
  then obtain n where step: "moves (resume t w) (w_db w) (Some \<lparr>tx_db = w_db w, tx_now = n\<rparr>) (w_mq w) w'"
    using assms(2) by auto
  show "wp (gu_finish (reset_presenting s email) (new_password, code) (Inr (reset_row_of p)))
    (token_settled (reset_look email) err_reset_invalid_code reset_max_attempts p w) w'"
    unfolding reset_presenting_def presenting.simps prod.case reset_after_def sum.case codes_equal_def
    apply (insert step)
    by (((erule wp_steps best_effort_step)+)?; clarsimp simp: wp_code assms(1,3,4) reset_ops token_settled_kept token_settled_counted
       reset_token_D [OF assms(3)] reset_token_attempt [OF assms(3)] not_less not_le; (intro conjI impI)?; (rule state_cases)?)+
qed

end

interpretation reset_race: locked_guard "reset_presenting (pg_password_service K queue k origin) email" snd
    "\<lambda>row. (rs_code row, rs_attempts row, rs_expires row)" err_reset_invalid_code err_reset_invalid_code reset_max_attempts
  for K queue k origin email
proof (rule token_guardI)
  fix g :: "string \<times> string" and e t w
  show "wp (gu_finish (reset_presenting (pg_password_service K queue k origin) email) g (Inl e))
      (token_unread (reset_look email) err_reset_invalid_code e w) (resume t w)"
    by (cases g) (simp add: pg_audit.reset_unread_effect)
next
  fix g :: "string \<times> string" and t :: "int option" and w :: world and r
  assume "t \<noteq> None" and "reset_look email (w_db w) = Some r" and "hash_code (snd g) \<noteq> ut_hash r"
  then show "wp (gu_finish (reset_presenting (pg_password_service K queue k origin) email) g (Inr (reset_row_of r)))
      (token_settled (reset_look email) err_reset_invalid_code reset_max_attempts r w) (resume t w)"
    by (cases g) (simp add: pg_audit.reset_miss_effect)
qed (simp_all add: reset_presenting_def pg_begin_reset_def pg_reset_token_def err_reset_invalid_code_def)

text \<open>\<open>Verify\<close> of an address after \<open>tx.Token\<close> has returned, up to the deferred rollback.\<close>

definition change_after :: "change_service \<Rightarrow> string \<Rightarrow> string \<Rightarrow> change_tx \<Rightarrow> gerror + change_row \<Rightarrow> (world, unit) body" where
  "change_after s uid code tx t = (case t of
         Inl e \<Rightarrow>
           if errors_is e err_change_invalid_code then leave False (Inl err_change_invalid_code)
           else leave False (Inl (wrap ''emailchange: reading token: '' e))
       | Inr row \<Rightarrow> do {
           now \<leftarrow> read_clock;
           if ch_used row \<noteq> None \<or> \<not> now < ch_expires row then leave False (Inl err_change_invalid_code)
           else if change_max_attempts \<le> ch_attempts row then leave False (Inl err_change_too_many)
           else if \<not> codes_equal (hash_code code) (ch_code row) then
             tcheck ''emailchange: recording attempt: '' (chx_record_failed tx (ch_token row)) (\<lambda>_.
             tcheck ''emailchange: committing attempt: '' (chx_commit tx) (\<lambda>_. do {
               best_effort (ec_auditor s) (change_event event_email_change_failed uid [] [(''reason'', JStr ''wrong_code'')]);
               leave True (Inl err_change_invalid_code) }))
           else
             tcheck ''emailchange: rechecking address: '' (cst_address_taken (ec_store s) (ch_target row)) (\<lambda>taken.
             if taken then leave False (Inl err_email_taken)
             else
               tcheck ''emailchange: setting email: '' (chx_set_email tx uid (ch_target row)) (\<lambda>_.
               tcheck ''emailchange: consuming token: '' (chx_consume tx (ch_token row)) (\<lambda>_.
               tcheck ''emailchange: revoking sessions: '' (chx_revoke_all tx uid) (\<lambda>_.
               tcheck ''emailchange: committing: '' (chx_commit tx) (\<lambda>_. do {
                 best_effort (ec_auditor s) (change_event event_email_changed uid (ch_target row) []);
                 leave True (Inr ()) }))))) })"

abbreviation change_look :: "string \<Rightarrow> db \<Rightarrow> user_token_row option" where
  "change_look uid d \<equiv> change_token uid (tb_user_token d)"

definition change_presenting :: "change_service \<Rightarrow> string \<Rightarrow> (string, change_row, unit) presenting" where
  "change_presenting s uid = \<lparr>
     gu_open = check ''emailchange: opening verification: '' (pg_begin_change uid) (\<lambda>_. ok ()),
     gu_fetch = pg_change_token uid,
     gu_finish = (\<lambda>code t. deferred tx_rollback (change_after s uid code (pg_change_tx uid) t)),
     gu_pending = (\<lambda>w. map_option change_row_of (change_look uid (w_db w)))\<rparr>"

lemma change_alone:
  assumes "ec_store s = pg_change_store"
  shows "verify_change s uid code = present_alone (change_presenting s uid) code"
  unfolding present_alone_def change_presenting_def verify_change_def assms change_store_simps check_def pg_begin_change_def
    presenting.simps State_Monad.bind_assoc
  by (rule bind_sum_cong) (simp_all only: State_Monad.bind_left_identity sum.case change_after_def deferred_bind change_tx_simps assms change_store_simps)

context auditing
begin

lemma change_unread_effect:
  "wp (gu_finish (change_presenting s uid) code (Inl e)) (token_unread (change_look uid) err_change_invalid_code e w) (resume t w)"
  unfolding change_presenting_def presenting.simps change_after_def sum.case
  apply (rule wp_start)
  by (((erule wp_steps)+)?; clarsimp simp: wp_code token_unreadI; (intro conjI impI)?)+

lemma change_miss_effect:
  assumes "ec_auditor s = auditor" and "t \<noteq> None" and "change_look uid (w_db w) = Some p" and "hash_code code \<noteq> ut_hash p"
  shows "wp (gu_finish (change_presenting s uid) code (Inr (change_row_of p)))
    (token_settled (change_look uid) err_change_invalid_code change_max_attempts p w) (resume t w)"
proof (rule wp_start)
  fix w' assume m: "moves (resume t w) (w_db (resume t w)) (w_tx (resume t w)) (w_mq (resume t w)) w'"
  then obtain n where step: "moves (resume t w) (w_db w) (Some \<lparr>tx_db = w_db w, tx_now = n\<rparr>) (w_mq w) w'"
    using assms(2) by auto
  show "wp (gu_finish (change_presenting s uid) code (Inr (change_row_of p)))
    (token_settled (change_look uid) err_change_invalid_code change_max_attempts p w) w'"
    unfolding change_presenting_def presenting.simps change_after_def sum.case codes_equal_def
    apply (insert step)
    by (((erule wp_steps best_effort_step)+)?; clarsimp simp: wp_code assms(1,3,4) change_ops token_settled_kept token_settled_counted
       change_token_D [OF assms(3)] change_token_attempt [OF assms(3)] not_less not_le; (intro conjI impI)?; (rule state_cases)?)+
qed

end

interpretation change_race: locked_guard "change_presenting (pg_email_change K queue k) uid" id
    "\<lambda>row. (ch_code row, ch_attempts row, ch_expires row)" err_change_invalid_code err_change_invalid_code change_max_attempts
  for K queue k uid
proof (rule token_guardI)
  fix g :: string and t :: "int option" and w :: world and r
  assume "t \<noteq> None" and "change_look uid (w_db w) = Some r" and "hash_code (id g) \<noteq> ut_hash r"
  then show "wp (gu_finish (change_presenting (pg_email_change K queue k) uid) g (Inr (change_row_of r)))
      (token_settled (change_look uid) err_change_invalid_code change_max_attempts r w) (resume t w)"
    by (simp add: pg_audit.change_miss_effect)
qed (simp_all add: pg_audit.change_unread_effect, simp_all add: change_presenting_def pg_begin_change_def pg_change_token_def err_change_invalid_code_def)

section \<open>Guarantees\<close>

text \<open>C8: Two concurrent attempts cannot both consume a registration, and together they guess no further than one after the other:
  any number of verifications for an address interleave and fail in any way, and at most one is answered with a session; if all
  their codes are wrong none is, the counter never passes five, and until the code expires at most as many are told they
  are wrong as attempts were left.\<close>

theorem signup_codes_race:
  assumes "guess_steps (signup_presenting (pg_verifier J cfg k) (normalize_email email)) (trying gs, w) (cs, w1)"
    and "w_tx w = None" and "pending_row_in email w = Some p" and "sr_attempts p \<le> signup_max_attempts"
  shows "size (filter_mset accepted cs) \<le> 1 \<and>
    ((\<forall>g \<in> set gs. hash_code (snd g) \<noteq> sr_hash p) \<longrightarrow> (\<forall>c\<in>#cs. \<not> accepted c) \<and>
      (\<exists>p'. pending_row_in email w1 = Some p' \<and> sr_hash p' = sr_hash p \<and> sr_attempts p' \<le> signup_max_attempts \<and>
        (w_clock w1 < sr_expires p \<longrightarrow> int (size (filter_mset (turned_down err_invalid_code) cs)) \<le> sr_attempts p' - sr_attempts p)))"
proof -
  have "map_option row_key (gu_pending (signup_presenting (pg_verifier J cfg k) (normalize_email email)) w)
      = Some (sr_hash p, sr_attempts p, sr_expires p)"
    using assms(3) by (simp add: row_key_def)
  from signup_race.guesses_bounded [OF assms(1,2) this assms(4)] signup_race.accepted_once [OF assms(1,2)]
  show ?thesis by (auto simp: row_key_def)
qed

text \<open>C13: Six digits protect a password reset under concurrency too: however many wrong codes are presented at the same time against the
  code an address has, none is accepted, its counter never passes five, and until it expires at most as many are told
  they are wrong as attempts were left.\<close>

theorem reset_codes_race:
  assumes "guess_steps (reset_presenting (pg_password_service K queue k origin) (normalize_email email)) (trying gs, w) (cs, w1)"
    and "w_tx w = None" and "reset_token_in email w = Some p" and "ut_attempts p \<le> reset_max_attempts"
    and "\<forall>g \<in> set gs. hash_code (snd g) \<noteq> ut_hash p"
  shows "(\<forall>c\<in>#cs. \<not> accepted c) \<and> (\<exists>p'. reset_token_in email w1 = Some p' \<and> ut_hash p' = ut_hash p \<and> ut_attempts p' \<le> reset_max_attempts \<and>
    (w_clock w1 < ut_expires p \<longrightarrow> int (size (filter_mset (turned_down err_reset_invalid_code) cs)) \<le> ut_attempts p' - ut_attempts p))"
proof -
  have "map_option (\<lambda>row. (rs_code row, rs_attempts row, rs_expires row))
      (gu_pending (reset_presenting (pg_password_service K queue k origin) (normalize_email email)) w) = Some (ut_hash p, ut_attempts p, ut_expires p)"
    using assms(3) by (simp add: reset_presenting_def)
  from reset_race.guesses_bounded [OF assms(1,2) this assms(4,5)] show ?thesis by (auto simp: reset_presenting_def)
qed

text \<open>C12: The same of the code of an address change.\<close>

theorem change_codes_race:
  assumes "guess_steps (change_presenting (pg_email_change K queue k) uid) (trying gs, w) (cs, w1)"
    and "w_tx w = None" and "change_token_in uid w = Some p" and "ut_attempts p \<le> change_max_attempts"
    and "\<forall>g \<in> set gs. hash_code g \<noteq> ut_hash p"
  shows "(\<forall>c\<in>#cs. \<not> accepted c) \<and> (\<exists>p'. change_token_in uid w1 = Some p' \<and> ut_hash p' = ut_hash p \<and> ut_attempts p' \<le> change_max_attempts \<and>
    (w_clock w1 < ut_expires p \<longrightarrow> int (size (filter_mset (turned_down err_change_invalid_code) cs)) \<le> ut_attempts p' - ut_attempts p))"
proof -
  have "map_option (\<lambda>row. (ch_code row, ch_attempts row, ch_expires row))
      (gu_pending (change_presenting (pg_email_change K queue k) uid) w) = Some (ut_hash p, ut_attempts p, ut_expires p)"
    using assms(3) by (simp add: change_presenting_def)
  from change_race.guesses_bounded [OF assms(1,2) this assms(4)] assms(5) show ?thesis by (auto simp: change_presenting_def)
qed

section \<open>Worked examples\<close>

lemma wrong_guess: "hash_code ''000000'' \<noteq> hash_code ''123456''"
  by (simp add: hash_code_def sha256_123456 sha256_000000)

lemma signup_codes_race_witness:
  "\<exists>r x c w1. guess_steps (signup_presenting (pg_verifier demo_jwt demo_config ''k'') ''ana@example.com'')
       (trying [(demo_meta, ''000000''), (demo_meta, ''000000'')], demo_signup_world 0) ({#Told (demo_meta, ''000000'') r x, c#}, w1) \<and> \<not> is_ok x"
proof -
  obtain r x c w1 where run: "guess_steps (signup_presenting (pg_verifier demo_jwt demo_config ''k'') ''ana@example.com'')
       (trying [(demo_meta, ''000000''), (demo_meta, ''000000'')], demo_signup_world 0) ({#Told (demo_meta, ''000000'') r x, c#}, w1)"
    using first_answered [of "signup_presenting (pg_verifier demo_jwt demo_config ''k'') ''ana@example.com''" "(demo_meta, ''000000'')" "(demo_meta, ''000000'')"
        "demo_signup_world 0"] by blast
  from signup_codes_race [where email = "''ana@example.com''", unfolded normal_ana, OF run] demo_pending_row [of 0, unfolded normal_ana] wrong_guess
  have "\<not> is_ok x"
    by (simp add: signup_max_attempts_def)
  then show ?thesis using run by blast
qed

lemma reset_codes_race_witness:
  "\<exists>r x c w1. guess_steps (reset_presenting (pg_password_service demo_key ''mail'' ''k'' []) ''ana@example.com'')
       (trying [(''new'', ''000000''), (''new'', ''000000'')], demo_reset_world [demo_token ''t2'' ''123456'' 5])
       ({#Told (''new'', ''000000'') r x, c#}, w1) \<and> \<not> is_ok x"
proof -
  obtain r x c w1 where run: "guess_steps (reset_presenting (pg_password_service demo_key ''mail'' ''k'' []) ''ana@example.com'')
       (trying [(''new'', ''000000''), (''new'', ''000000'')], demo_reset_world [demo_token ''t2'' ''123456'' 5])
       ({#Told (''new'', ''000000'') r x, c#}, w1)"
    using first_answered [of "reset_presenting (pg_password_service demo_key ''mail'' ''k'' []) ''ana@example.com''" "(''new'', ''000000'')" "(''new'', ''000000'')"
        "demo_reset_world [demo_token ''t2'' ''123456'' 5]"] by blast
  from reset_codes_race [where email = "''ana@example.com''", unfolded normal_ana, OF run] demo_reset_token(1) [of "''123456''", unfolded normal_ana] wrong_guess
  have "\<not> is_ok x"
    by (simp add: reset_max_attempts_def)
  then show ?thesis using run by blast
qed

lemma change_codes_race_witness:
  "\<exists>r x c w1. guess_steps (change_presenting (pg_email_change demo_key ''mail'' ''k'') ''u1'')
       (trying [''000000'', ''000000''], demo_change_world [demo_change_token]) ({#Told ''000000'' r x, c#}, w1) \<and> \<not> is_ok x"
proof -
  obtain r x c w1 where run: "guess_steps (change_presenting (pg_email_change demo_key ''mail'' ''k'') ''u1'')
       (trying [''000000'', ''000000''], demo_change_world [demo_change_token]) ({#Told ''000000'' r x, c#}, w1)"
    using first_answered [of "change_presenting (pg_email_change demo_key ''mail'' ''k'') ''u1''" "''000000''" "''000000''" "demo_change_world [demo_change_token]"] by blast
  from change_codes_race [OF run demo_change_simps(1) demo_change_pending] wrong_guess
  have "\<not> is_ok x"
    by (simp add: change_max_attempts_def)
  then show ?thesis using run by blast
qed

end
