(* ===== verification/Mail_Delivery.thy ===== *)
theory Mail_Delivery
  imports Signup_Safety Mail
begin

text \<open>
  From the services that queue mail to the SMTP server: what the worker reads is what was queued (\<open>unmarshal_marshal\<close>), it hands
  each message to the server at most once (\<open>queued_mail_sent\<close>), and with the service for registrations at the one end a
  code reaches the address that asked for it (\<open>signup_code_arrives\<close>).
\<close>

lemma unmarshal_marshal:
  assumes "utf8_message m"
  shows "unmarshal_message (marshal_message m) = Some m"
proof -
  have "valid_utf8 ''To''" "valid_utf8 ''Subject''" "valid_utf8 ''Text''" by code_simp+
  then have tree: "json_tree (marshal_message m)
      = Some (TObj [(''To'', TStr (mm_to m)), (''Subject'', TStr (mm_subject m)), (''Text'', TStr (mm_text m))])"
    using assms by (simp add: marshal_message_def object_tree utf8_message_def)
  have "fold_name ''To'' = ''to''" "fold_name ''Subject'' = ''subject''" "fold_name ''Text'' = ''text''" by code_simp+
  then show ?thesis by (simp add: unmarshal_message_def tree members_def)
qed

section \<open>What the worker sends\<close>

text \<open>What the SMTP server has taken since \<open>w0\<close>.\<close>

definition took :: "world \<Rightarrow> (string \<times> string \<times> string) list \<Rightarrow> world \<Rightarrow> bool" where
  "took w0 xs w \<longleftrightarrow> w_sent w = w_sent w0 @ xs \<and> w_fault w = w_fault w0"

lemma took_fault: "took w0 xs w \<Longrightarrow> fault_now w \<noteq> Done \<Longrightarrow> \<not> reliable w0"
  by (auto simp: took_def reliable_def fault_now_def)

lemma outside_took:
  assumes "took w0 xs w"
    and "\<And>m w'. \<not> reliable w0 \<Longrightarrow> took w0 xs w' \<Longrightarrow> Q (Inl (ExtError m)) w'" and "\<And>w'. took w0 xs w' \<Longrightarrow> Q (Inr ()) w'"
  shows "wp outside_call Q w"
  using assms took_fault [OF assms(1)] by (auto simp: outside_call_def wp_State took_def split: outcome.splits)

lemma accept_took:
  assumes "took w0 xs w"
    and "\<And>m w'. \<not> reliable w0 \<Longrightarrow> took w0 xs w' \<Longrightarrow> Q (Inl (ExtError m)) w'"
    and "\<And>m w'. \<not> reliable w0 \<Longrightarrow> took w0 (xs @ [(from, rcpt, data)]) w' \<Longrightarrow> Q (Inl (ExtError m)) w'"
    and "\<And>w'. took w0 (xs @ [(from, rcpt, data)]) w' \<Longrightarrow> Q (Inr ()) w'"
  shows "wp (smtp_accept from rcpt data) Q w"
  using assms took_fault [OF assms(1)] by (auto simp: smtp_accept_def wp_State took_def split: outcome.splits)

definition envelope :: "smtp \<Rightarrow> mail_message \<Rightarrow> string \<times> string \<times> string" where
  "envelope s m = (sm_from s, mm_to m, render (sm_from s) m)"

lemma smtp_send_took:
  "wp (smtp_send host_of s m) (\<lambda>r w'. (took w [envelope s m] w' \<or> took w [] w' \<and> \<not> is_ok r)
     \<and> (reliable w \<and> is_ok (host_of (sm_addr s)) \<longrightarrow> is_ok r)) w"
proof -
  have "took w [] w" by (simp add: took_def)
  then show ?thesis
    unfolding smtp_send_def envelope_def
    apply (cases "host_of (sm_addr s)")
    by (((erule outside_took accept_took)+)?; clarsimp simp: wp_code; (intro conjI impI)?)+
qed

lemma handled:
  assumes "list_all utf8_message ms" and "run_state (handle_delivery (smtp_send host_of s) (map marshal_message ms)) w = (vs, w')"
  shows "length vs = length ms
    \<and> (\<exists>I. {i. i < length ms \<and> vs ! i = Ack} \<subseteq> I \<and> w_sent w' = w_sent w @ map (envelope s) (nths ms I))
    \<and> (reliable w \<and> is_ok (host_of (sm_addr s)) \<longrightarrow> vs = replicate (length ms) Ack)"
  using assms
proof (induction ms arbitrary: w vs)
  case Nil
  then show ?case by simp
next
  case (Cons m ms)
  obtain r w1 vs1 where r: "run_state (smtp_send host_of s m) w = (r, w1)"
    and rest: "run_state (handle_delivery (smtp_send host_of s) (map marshal_message ms)) w1 = (vs1, w')"
    and vs: "vs = (if is_ok r then Ack else Nack) # vs1"
    using Cons.prems by (auto simp: unmarshal_marshal split: prod.splits)
  note step = wpD [OF smtp_send_took r]
  from Cons.IH [OF _ rest] Cons.prems(1) obtain I where I: "length vs1 = length ms" "{i. i < length ms \<and> vs1 ! i = Ack} \<subseteq> I"
    "w_sent w' = w_sent w1 @ map (envelope s) (nths ms I)" "reliable w1 \<and> is_ok (host_of (sm_addr s)) \<longrightarrow> vs1 = replicate (length ms) Ack"
    by auto
  define J where "J = (if w_sent w1 = w_sent w then {} else {0}) \<union> Suc ` I"
  have "{j. Suc j \<in> J} = I" by (auto simp: J_def)
  then have sent: "w_sent w' = w_sent w @ map (envelope s) (nths (m # ms) J)"
    using step I(3) by (auto simp: nths_Cons J_def took_def)
  have acked: "{i. i < length (m # ms) \<and> vs ! i = Ack} \<subseteq> J"
  proof (intro subsetI, clarify)
    fix i
    assume "i < length (m # ms)" "vs ! i = Ack"
    then show "i \<in> J" using I(2) step by (cases i) (auto simp: vs J_def took_def split: if_splits)
  qed
  have all: "vs = replicate (length (m # ms)) Ack" if "reliable w \<and> is_ok (host_of (sm_addr s))"
    using that step I(4) by (auto simp: vs took_def reliable_def)
  have "length vs = length (m # ms)" using I(1) by (simp add: vs)
  then show ?case using sent acked all by blast
qed


section \<open>From the request to the account\<close>

lemma digits_valid: "list_all is_digit s \<Longrightarrow> valid_utf8 s"
  by (rule valid_ascii) (auto simp: list_all_iff is_digit_def)

lemma signup_mail_utf8:
  assumes "valid_utf8 email" and "list_all is_digit code"
  shows "utf8_message (signup_mail email code)"
proof -
  have "valid_utf8 (''Tu c'' @ [CHR 0xC3, CHR 0xB3] @ ''digo de registro'')"
    "valid_utf8 (''Tu c'' @ [CHR 0xC3, CHR 0xB3] @ ''digo para terminar el registro es '')"
    "valid_utf8 (''.'' @ [CHR 0x0A] @ ''Vence en 10 minutos y sirve una sola vez.'')" by code_simp+
  then show ?thesis using assms(1) digits_valid [OF assms(2)]
    unfolding utf8_message_def signup_mail_def mail_message.simps by (metis append.assoc valid_append)
qed

text \<open>C31: Registration works from end to end: when nothing fails, the request for a free address puts one message in the queue, the
  worker that takes it sends the address a mail with a code, and whoever presents that code within ten minutes gets the
  account, whose stored hash accepts the password that was chosen.\<close>

theorem signup_code_arrives:
  assumes "run_state (request_signup (pg_signup_service K queue) email name password) w = (r, w1)"
    and "reliable w" and "w_tx w = None"
    and "range (w_uuid w) \<inter> set (map sr_id (signup_rows w) @ map u_id (tb_user (w_db w))) = {}"
    and "\<not> list_ex (owns_email (normalize_email email)) (tb_user (w_db w))"
    and "\<And>salt. length (K password salt argon_time argon_memory argon_threads argon_key_len) = argon_key_len"
    and "valid_utf8 (normalize_email email)" and "is_ok (host_of (sm_addr s))"
  shows "\<exists>body code. w_mq w1 = w_mq w @ [body] \<and> length code = 6
    \<and> (\<forall>v vs v'. run_state (handle_delivery (smtp_send host_of s) [body]) v = (vs, v') \<and> reliable v \<longrightarrow>
         vs = [Ack] \<and> w_sent v' = w_sent v @ [envelope s (signup_mail (normalize_email email) code)])
    \<and> (\<forall>r2 w2. run_state (verify_signup (pg_verifier J cfg k) email meta code) w1 = (r2, w2)
         \<and> w_clock w2 < w_clock w + code_lifetime \<longrightarrow>
       (\<exists>u. tb_user (w_db w2) = tb_user (w_db w) @ [u] \<and> u_email u = Some (normalize_email email)
          \<and> u_status u = status_active \<and> verify_password K (coalesce_empty (u_password u)) password = Inr True))"
proof -
  from signup_roundtrip [OF assms(1-6), of J cfg k meta] obtain code where code: "length code = 6" "list_all is_digit code"
    "w_mq w1 = w_mq w @ [marshal_message (signup_mail (normalize_email email) code)]"
    and account: "\<forall>r2 w2. run_state (verify_signup (pg_verifier J cfg k) email meta code) w1 = (r2, w2)
         \<and> w_clock w2 < w_clock w + code_lifetime \<longrightarrow>
       (\<exists>u. tb_user (w_db w2) = tb_user (w_db w) @ [u] \<and> u_email u = Some (normalize_email email)
          \<and> u_status u = status_active \<and> verify_password K (coalesce_empty (u_password u)) password = Inr True)"
    by blast
  let ?m = "signup_mail (normalize_email email) code"
  have "vs = [Ack] \<and> w_sent v' = w_sent v @ [envelope s ?m]"
    if "run_state (handle_delivery (smtp_send host_of s) [marshal_message ?m]) v = (vs, v')" "reliable v" for v vs v'
  proof -
    have "run_state (handle_delivery (smtp_send host_of s) (map marshal_message [?m])) v = (vs, v')" using that(1) by simp
    from handled [OF _ this] signup_mail_utf8 [OF assms(7) code(2)] that(2) assms(8) obtain I
      where "{i. i < 1 \<and> vs ! i = Ack} \<subseteq> I" "w_sent v' = w_sent v @ map (envelope s) (nths [?m] I)" "vs = [Ack]" by auto
    then show ?thesis by (auto simp: nths_singleton)
  qed
  then show ?thesis using code account by blast
qed

section \<open>Worked examples\<close>

definition demo_smtp :: smtp where
  "demo_smtp = new_smtp ''mail:25'' ''no-reply@example.com''"

lemma demo_message_utf8: "utf8_message demo_message"
  by code_simp


lemma valid_ana: "valid_utf8 ''ana@example.com''"
  by code_simp

lemma signup_code_arrives_witness:
  "\<exists>body. w_mq (snd (run_state (request_signup (pg_signup_service (\<lambda>p s t m q n. replicate n (CHR ''k'')) ''mail'')
      ''ana@example.com'' ''Ana'' ''pw'') (calm empty_db))) = [body]"
  using signup_code_arrives [OF prod.collapse [symmetric] demo_empty(2,1), where email = "''ana@example.com''" and name = "''Ana''"
      and password = "''pw''" and K = "\<lambda>p s t m q n. replicate n (CHR ''k'')" and queue = "''mail''"
      and J = demo_jwt and cfg = demo_config and k = "''k''" and meta = demo_meta and host_of = "\<lambda>a. Inr ''mail''" and s = demo_smtp]
  by (simp add: normal_ana valid_ana) blast

end
