(* ===== verification/Config.thy ===== *)
theory Config
  imports Router "HOL-Library.Multiset"
begin

text \<open>
  \<open>config/config.go\<close>: the configuration of the service from its environment. The three durations
  are read in a loop over a Go map, whose order the language leaves open: \<open>load\<close> takes the order as
  an argument, and the result is shown not to depend on it. \<open>time.ParseDuration\<close> is written out;
  the one step it does in floating point, the fraction of a unit, is the argument \<open>part\<close>.
  Durations are nanoseconds.
\<close>

section \<open>time.ParseDuration\<close>

text \<open>\<open>leadingInt\<close>: the number of up to \<open>2 ^ 63\<close> at the front and the rest, or overflow.\<close>

fun leading_int :: "nat \<Rightarrow> string \<Rightarrow> (nat \<times> string) option" where
  "leading_int x [] = Some (x, [])"
| "leading_int x (c # s) =
     (if \<not> is_digit c then Some (x, c # s)
      else if 2 ^ 63 div 10 < x then None
      else if 2 ^ 63 < x * 10 + (byte c - 48) then None
      else leading_int (x * 10 + (byte c - 48)) s)"

text \<open>\<open>leadingFraction\<close>: the digits that fit, the power of ten they are scaled by, and the rest.\<close>

fun leading_fraction :: "nat \<Rightarrow> nat \<Rightarrow> bool \<Rightarrow> string \<Rightarrow> nat \<times> nat \<times> string" where
  "leading_fraction x k over [] = (x, k, [])"
| "leading_fraction x k over (c # s) =
     (if \<not> is_digit c then (x, k, c # s)
      else if over then leading_fraction x k over s
      else if (2 ^ 63 - 1) div 10 < x \<or> 2 ^ 63 < x * 10 + (byte c - 48) then leading_fraction x k True s
      else leading_fraction (x * 10 + (byte c - 48)) (k + 1) False s)"

lemma leading_int_shorter: "leading_int x s = Some (v, t) \<Longrightarrow> length t \<le> length s"
  by (induction x s rule: leading_int.induct) (auto split: if_splits)

lemma leading_fraction_shorter: "leading_fraction x k over s = (f, j, t) \<Longrightarrow> length t \<le> length s"
  by (induction x k over s rule: leading_fraction.induct) (auto split: if_splits)

text \<open>\<open>unitMap\<close>: nanoseconds of each unit; the micro sign has two encodings.\<close>

definition unit_map :: "string \<Rightarrow> nat option" where
  "unit_map = map_of [(''ns'', 1), (''us'', 10 ^ 3), ([CHR 0xC2, CHR 0xB5, CHR ''s''], 10 ^ 3), ([CHR 0xCE, CHR 0xBC, CHR ''s''], 10 ^ 3),
     (''ms'', 10 ^ 6), (''s'', 10 ^ 9), (''m'', 60 * 10 ^ 9), (''h'', 3600 * 10 ^ 9)]"

definition unit_char :: "char \<Rightarrow> bool" where
  "unit_char c \<longleftrightarrow> c \<noteq> CHR ''.'' \<and> \<not> is_digit c"

text \<open>One component: its value in nanoseconds and the rest of the text.\<close>

definition duration_part :: "(nat \<Rightarrow> nat \<Rightarrow> nat \<Rightarrow> nat) \<Rightarrow> string \<Rightarrow> (nat \<times> string) option" where
  "duration_part part s =
     (if s = [] \<or> \<not> (hd s = CHR ''.'' \<or> is_digit (hd s)) then None
      else case leading_int 0 s of
          None \<Rightarrow> None
        | Some (v, s1) \<Rightarrow>
            let pre = length s1 \<noteq> length s;
                (f, k, s2) = (if s1 \<noteq> [] \<and> hd s1 = CHR ''.'' then leading_fraction 0 0 False (tl s1) else (0, 0, s1));
                post = (s1 \<noteq> [] \<and> hd s1 = CHR ''.'' \<and> length s2 \<noteq> length (tl s1));
                u = takeWhile unit_char s2;
                rest = dropWhile unit_char s2
            in if \<not> pre \<and> \<not> post \<or> u = [] then None
               else case unit_map u of
                   None \<Rightarrow> None
                 | Some unit \<Rightarrow>
                     if 2 ^ 63 div unit < v then None
                     else let n = v * unit + (if 0 < f then part f unit (10 ^ k) else 0)
                          in if 0 < f \<and> 2 ^ 63 < n then None else Some (n, rest))"

lemma duration_part_shorter:
  assumes "duration_part part s = Some (n, rest)"
  shows "length rest < length s"
proof -
  obtain v s1 f k s2 where s1: "leading_int 0 s = Some (v, s1)"
    and s2: "(if s1 \<noteq> [] \<and> hd s1 = CHR ''.'' then leading_fraction 0 0 False (tl s1) else (0, 0, s1)) = (f, k, s2)"
    and u: "takeWhile unit_char s2 \<noteq> []" and rest: "rest = dropWhile unit_char s2"
    using assms by (auto simp: duration_part_def Let_def split: if_splits option.splits prod.splits)
  have "length s2 \<le> length s1" using s2 leading_fraction_shorter [of 0 0 False "tl s1" f k s2] by (auto split: if_splits)
  moreover have "length s1 \<le> length s" using leading_int_shorter [OF s1] .
  moreover have "length rest < length s2"
    using u rest by (metis length_append takeWhile_dropWhile_id length_greater_0_conv less_add_same_cancel2)
  ultimately show ?thesis by linarith
qed

text \<open>The loop; the sum is a 64-bit unsigned integer.\<close>

function duration_sum :: "(nat \<Rightarrow> nat \<Rightarrow> nat \<Rightarrow> nat) \<Rightarrow> nat \<Rightarrow> string \<Rightarrow> nat option" where
  "duration_sum part d s =
     (if s = [] then Some d
      else case duration_part part s of
          None \<Rightarrow> None
        | Some (n, rest) \<Rightarrow>
            let d = (d + n) mod 2 ^ 64
            in if 2 ^ 63 < d then None else duration_sum part d rest)"
  by pat_completeness auto
termination
  by (relation "measure (\<lambda>(part, d, s). length s)") (auto dest: duration_part_shorter)

declare duration_sum.simps [simp del]

text \<open>\<open>None\<close> is an error.\<close>

definition parse_duration :: "(nat \<Rightarrow> nat \<Rightarrow> nat \<Rightarrow> nat) \<Rightarrow> string \<Rightarrow> int option" where
  "parse_duration part orig =
     (let neg = has_prefix orig ''-'';
          s = (if has_prefix orig ''-'' \<or> has_prefix orig ''+'' then tl orig else orig)
      in if s = ''0'' then Some 0
         else if s = [] then None
         else case duration_sum part 0 s of
             None \<Rightarrow> None
           | Some d \<Rightarrow>
               if neg then Some (- int d)
               else if 2 ^ 63 - 1 < d then None
               else Some (int d))"

section \<open>config.go\<close>

definition default_http_addr :: string where "default_http_addr = '':8080''"
definition default_db_init_dir :: string where "default_db_init_dir = ''/app/database/init''"
definition default_shutdown_timeout :: int where "default_shutdown_timeout = 10 * second"
definition default_mail_queue :: string where "default_mail_queue = ''melia.mail''"
definition default_smtp_addr :: string where "default_smtp_addr = ''mailpit:1025''"
definition default_mail_from :: string where "default_mail_from = ''no-reply@melia.test''"
definition default_access_token_ttl :: int where "default_access_token_ttl = 15 * minute"
definition default_refresh_token_ttl :: int where "default_refresh_token_ttl = 720 * hour"
definition default_login_attempts :: int where "default_login_attempts = 5"
definition default_login_lock :: int where "default_login_lock = 15 * minute"
definition min_jwt_secret_length :: nat where "min_jwt_secret_length = 32"

datatype log_level = Debug | Info | Warn | Error

record config =
  cf_http_addr :: string
  cf_database_url :: string
  cf_redis_addr :: string
  cf_rabbitmq_url :: string
  cf_db_init_dir :: string
  cf_cors_origins :: "string list"
  cf_mail_queue :: string
  cf_smtp_addr :: string
  cf_mail_from :: string
  cf_jwt_secret :: string
  cf_access_token_ttl :: int
  cf_refresh_token_ttl :: int
  cf_login_max_attempts :: int
  cf_login_lock_duration :: int
  cf_cookie_secure :: bool
  cf_google_client_id :: string
  cf_apple_client_id :: string
  cf_auto_migrate :: bool
  cf_log_level :: log_level
  cf_shutdown_timeout :: int

type_synonym getenv = "string \<Rightarrow> string"

definition lookup :: "getenv \<Rightarrow> string \<Rightarrow> string" where
  "lookup getenv key = trim_space (getenv key)"

definition value_or :: "getenv \<Rightarrow> string \<Rightarrow> string \<Rightarrow> string" where
  "value_or getenv key fallback = (if lookup getenv key \<noteq> [] then lookup getenv key else fallback)"

definition split_list :: "string \<Rightarrow> string list" where
  "split_list raw = (if raw = [] then [] else filter (\<lambda>x. x \<noteq> []) (map trim_space (split_on (CHR '','') raw)))"

text \<open>\<open>None\<close> is the error, whose text the caller drops.\<close>

definition parse_bool :: "string \<Rightarrow> bool option" where
  "parse_bool raw = (let s = to_lower raw
     in if s = ''true'' \<or> s = ''1'' then Some True else if s = ''false'' \<or> s = ''0'' then Some False else None)"

definition parse_log_level :: "string \<Rightarrow> gerror + log_level" where
  "parse_log_level raw = (let s = to_lower raw
     in if s = ''debug'' then Inr Debug else if s = ''info'' then Inr Info else if s = ''warn'' then Inr Warn
        else if s = ''error'' then Inr Error
        else Inl (Err (''invalid LOG_LEVEL '' @ go_quote raw @ '': must be one of debug, info, warn, error'')))"

text \<open>The loop over the map of durations, in the order given.\<close>

definition duration_keys :: "string list" where
  "duration_keys = [''ACCESS_TOKEN_TTL'', ''REFRESH_TOKEN_TTL'', ''LOGIN_LOCK_DURATION'']"

definition set_duration :: "string \<Rightarrow> int \<Rightarrow> config \<Rightarrow> config" where
  "set_duration key d cfg =
     (if key = ''ACCESS_TOKEN_TTL'' then cfg\<lparr>cf_access_token_ttl := d\<rparr>
      else if key = ''REFRESH_TOKEN_TTL'' then cfg\<lparr>cf_refresh_token_ttl := d\<rparr>
      else cfg\<lparr>cf_login_lock_duration := d\<rparr>)"

fun load_durations :: "(nat \<Rightarrow> nat \<Rightarrow> nat \<Rightarrow> nat) \<Rightarrow> getenv \<Rightarrow> string list \<Rightarrow> config \<Rightarrow> gerror + config" where
  "load_durations part getenv [] cfg = Inr cfg"
| "load_durations part getenv (key # keys) cfg =
     (let raw = lookup getenv key
      in if raw = [] then load_durations part getenv keys cfg
         else case parse_duration part raw of
             None \<Rightarrow> Inl (Err (''invalid '' @ key @ '' '' @ go_quote raw @ '': must be a positive duration such as 15m''))
           | Some d \<Rightarrow>
               if d \<le> 0 then Inl (Err (''invalid '' @ key @ '' '' @ go_quote raw @ '': must be a positive duration such as 15m''))
               else load_durations part getenv keys (set_duration key d cfg))"

definition base_config :: "getenv \<Rightarrow> config" where
  "base_config getenv = \<lparr>
     cf_http_addr = value_or getenv ''HTTP_ADDR'' default_http_addr,
     cf_database_url = lookup getenv ''DATABASE_URL'',
     cf_redis_addr = lookup getenv ''REDIS_ADDR'',
     cf_rabbitmq_url = lookup getenv ''RABBITMQ_URL'',
     cf_db_init_dir = value_or getenv ''DB_INIT_DIR'' default_db_init_dir,
     cf_cors_origins = split_list (lookup getenv ''CORS_ALLOWED_ORIGINS''),
     cf_mail_queue = value_or getenv ''MAIL_QUEUE'' default_mail_queue,
     cf_smtp_addr = value_or getenv ''SMTP_ADDR'' default_smtp_addr,
     cf_mail_from = value_or getenv ''MAIL_FROM'' default_mail_from,
     cf_jwt_secret = lookup getenv ''JWT_SECRET'',
     cf_access_token_ttl = default_access_token_ttl,
     cf_refresh_token_ttl = default_refresh_token_ttl,
     cf_login_max_attempts = default_login_attempts,
     cf_login_lock_duration = default_login_lock,
     cf_cookie_secure = True,
     cf_google_client_id = value_or getenv ''GOOGLE_CLIENT_ID'' [],
     cf_apple_client_id = value_or getenv ''APPLE_CLIENT_ID'' [],
     cf_auto_migrate = True,
     cf_log_level = Info,
     cf_shutdown_timeout = default_shutdown_timeout\<rparr>"

text \<open>The settings read after the durations, each only if it is set.\<close>

definition load_cookie_secure :: "getenv \<Rightarrow> config \<Rightarrow> gerror + config" where
  "load_cookie_secure getenv cfg =
     (let raw = lookup getenv ''COOKIE_SECURE''
      in if raw = [] then Inr cfg
         else case parse_bool raw of
             None \<Rightarrow> Inl (Err (''invalid COOKIE_SECURE '' @ go_quote raw @ '': must be true or false''))
           | Some b \<Rightarrow> Inr (cfg\<lparr>cf_cookie_secure := b\<rparr>))"

definition load_max_attempts :: "getenv \<Rightarrow> config \<Rightarrow> gerror + config" where
  "load_max_attempts getenv cfg =
     (let raw = lookup getenv ''LOGIN_MAX_ATTEMPTS''
      in if raw = [] then Inr cfg
         else case atoi raw of (n, good) \<Rightarrow>
           if \<not> good \<or> n < 1 then Inl (Err (''invalid LOGIN_MAX_ATTEMPTS '' @ go_quote raw @ '': must be a positive integer''))
           else Inr (cfg\<lparr>cf_login_max_attempts := n\<rparr>))"

definition load_auto_migrate :: "getenv \<Rightarrow> config \<Rightarrow> gerror + config" where
  "load_auto_migrate getenv cfg =
     (let raw = lookup getenv ''DB_AUTO_MIGRATE''
      in if raw = [] then Inr cfg
         else case parse_bool raw of
             None \<Rightarrow> Inl (Err (''invalid DB_AUTO_MIGRATE '' @ go_quote raw @ '': must be true or false''))
           | Some b \<Rightarrow> Inr (cfg\<lparr>cf_auto_migrate := b\<rparr>))"

definition load_log_level :: "getenv \<Rightarrow> config \<Rightarrow> gerror + config" where
  "load_log_level getenv cfg =
     (let raw = lookup getenv ''LOG_LEVEL''
      in if raw = [] then Inr cfg
         else case parse_log_level raw of Inl e \<Rightarrow> Inl e | Inr l \<Rightarrow> Inr (cfg\<lparr>cf_log_level := l\<rparr>))"

definition and_then :: "gerror + 'a \<Rightarrow> ('a \<Rightarrow> gerror + 'b) \<Rightarrow> gerror + 'b" where
  "and_then x f = (case x of Inl e \<Rightarrow> Inl e | Inr a \<Rightarrow> f a)"

definition load :: "(nat \<Rightarrow> nat \<Rightarrow> nat \<Rightarrow> nat) \<Rightarrow> string list \<Rightarrow> getenv \<Rightarrow> gerror + config" where
  "load part order getenv =
     (let cfg = base_config getenv
      in if cf_database_url cfg = [] then Inl (Err ''missing required environment variable: DATABASE_URL'')
         else if cf_redis_addr cfg = [] then Inl (Err ''missing required environment variable: REDIS_ADDR'')
         else if cf_jwt_secret cfg = [] then Inl (Err ''missing required environment variable: JWT_SECRET'')
         else if length (cf_jwt_secret cfg) < min_jwt_secret_length
           then Inl (Err (''invalid JWT_SECRET: must be at least '' @ show_nat min_jwt_secret_length @ '' characters''))
         else and_then (load_durations part getenv order cfg) (\<lambda>cfg.
              and_then (load_cookie_secure getenv cfg) (\<lambda>cfg.
              and_then (load_max_attempts getenv cfg) (\<lambda>cfg.
              and_then (load_auto_migrate getenv cfg) (load_log_level getenv)))))"

end
