(* ===== verification/Config_Safety.thy ===== *)
theory Config_Safety
  imports Config
begin

text \<open>
  What a configuration that loads guarantees to the rest of the service, that the order of the
  loop over durations does not matter to it, and that a refusal names a variable at fault.
\<close>

section \<open>Trimming twice\<close>

lemma space_len_0:
  assumes "[] \<notin> set wide"
  shows "space_len wide (c # s) = 0 \<longleftrightarrow> c \<notin> set ascii_spaces \<and> (\<forall>p \<in> set wide. \<not> has_prefix (c # s) p)"
proof (cases "find (has_prefix (c # s)) wide")
  case None
  then have "\<forall>p \<in> set wide. \<not> has_prefix (c # s) p" by (auto simp: find_None_iff)
  then show ?thesis by (auto simp: space_len_def None)
next
  case (Some p)
  then have p: "p \<in> set wide" "has_prefix (c # s) p" by (auto simp: find_Some_iff)
  then have "p \<noteq> []" using assms by auto
  then show ?thesis using p by (auto simp: space_len_def Some)
qed

lemma has_prefix_longer: "has_prefix s p \<Longrightarrow> has_prefix (s @ t) p"
  by (metis has_prefix_def append_eq_conv_conj append_take_drop_id append.assoc)

lemma space_len_prefix:
  assumes "[] \<notin> set wide" and "space_len wide (s @ t) = 0"
  shows "space_len wide s = 0"
proof (cases s)
  case Nil
  then show ?thesis by (simp add: space_len_def)
next
  case (Cons c u)
  then show ?thesis using assms(2) has_prefix_longer [of "c # u" _ t] by (auto simp: space_len_0 [OF assms(1)])
qed

lemma wide_spaces_ne: "[] \<notin> set wide_spaces" "[] \<notin> set (map rev wide_spaces)"
  by (auto simp: wide_spaces_def)

lemma trim_front_fixed: "space_len wide s = 0 \<Longrightarrow> trim_front wide s = s"
  by (simp add: trim_front.simps)

lemma trim_front_done: "space_len wide (trim_front wide s) = 0"
proof (induction wide s rule: trim_front.induct)
  case (1 wide s)
  then show ?case by (cases "space_len wide s = 0") (simp_all add: trim_front.simps [of wide s])
qed

lemma trim_front_drops: "\<exists>p. s = p @ trim_front wide s"
proof (induction wide s rule: trim_front.induct)
  case (1 wide s)
  show ?case
  proof (cases "space_len wide s = 0")
    case True
    then show ?thesis by (simp add: trim_front_fixed)
  next
    case False
    then obtain p where "drop (space_len wide s) s = p @ trim_front wide (drop (space_len wide s) s)" using 1 by blast
    then have "s = (take (space_len wide s) s @ p) @ trim_front wide s"
      by (metis append.assoc append_take_drop_id False trim_front.simps)
    then show ?thesis ..
  qed
qed

lemma trim_space_idem [simp]: "trim_space (trim_space s) = trim_space s"
proof -
  let ?f = "trim_front wide_spaces s" and ?b = "trim_front (map rev wide_spaces)"
  obtain p where "rev ?f = p @ ?b (rev ?f)" using trim_front_drops by blast
  then have "?f = rev (?b (rev ?f)) @ rev p" by (metis rev_append rev_rev_ident)
  then have "space_len wide_spaces (trim_space s) = 0"
    unfolding trim_space_def using trim_front_done [of wide_spaces s] space_len_prefix [OF wide_spaces_ne(1)] by metis
  moreover have "?b (?b (rev ?f)) = ?b (rev ?f)" by (rule trim_front_fixed [OF trim_front_done])
  ultimately show ?thesis by (simp add: trim_space_def trim_front_fixed)
qed

lemma split_list_normal [simp]: "cors_origins (split_list raw) = split_list raw"
proof -
  have "filter (\<lambda>x. x \<noteq> []) (map trim_space ys) = filter (\<lambda>x. x \<noteq> []) (map trim_space xs)"
    if "ys = filter (\<lambda>x. x \<noteq> []) (map trim_space xs)" for xs ys
    unfolding that by (induction xs) auto
  then show ?thesis by (simp add: cors_origins_def split_list_def)
qed

section \<open>Durations\<close>

lemma parse_duration_fits: "parse_duration part s = Some d \<Longrightarrow> d < 2 ^ 63"
  by (auto simp: parse_duration_def Let_def split: if_splits option.splits)

text \<open>What one variable of the loop asks for: nothing, a duration, or an error.\<close>

definition asked :: "(nat \<Rightarrow> nat \<Rightarrow> nat \<Rightarrow> nat) \<Rightarrow> getenv \<Rightarrow> string \<Rightarrow> int option option" where
  "asked part getenv key =
     (if lookup getenv key = [] then Some None
      else case parse_duration part (lookup getenv key) of
          None \<Rightarrow> None
        | Some d \<Rightarrow> if d \<le> 0 then None else Some (Some d))"

definition put_asked :: "(nat \<Rightarrow> nat \<Rightarrow> nat \<Rightarrow> nat) \<Rightarrow> getenv \<Rightarrow> string \<Rightarrow> config \<Rightarrow> config" where
  "put_asked part getenv key cfg = (case asked part getenv key of Some (Some d) \<Rightarrow> set_duration key d cfg | _ \<Rightarrow> cfg)"

lemma load_durations_ok:
  "load_durations part getenv keys cfg = Inr cfg' \<longleftrightarrow>
     (\<forall>key \<in> set keys. asked part getenv key \<noteq> None) \<and> cfg' = fold (put_asked part getenv) keys cfg"
  by (induction keys arbitrary: cfg) (auto simp: asked_def put_asked_def Let_def split: option.splits)

lemma load_durations_error:
  "load_durations part getenv keys cfg = Inl e \<Longrightarrow>
     \<exists>key \<in> set keys. asked part getenv key = None \<and> (\<exists>post. e = Err (''invalid '' @ key @ post))"
proof (induction keys arbitrary: cfg)
  case (Cons key keys)
  show ?case
  proof (cases "asked part getenv key")
    case None
    then show ?thesis using Cons.prems by (auto simp: asked_def Let_def split: option.splits if_splits)
  next
    case (Some a)
    then obtain c where "load_durations part getenv keys c = Inl e"
      using Cons.prems by (auto simp: asked_def Let_def split: option.splits if_splits)
    then show ?thesis using Cons.IH by auto
  qed
qed simp

lemma set_duration_commute:
  "k \<in> set duration_keys \<Longrightarrow> l \<in> set duration_keys \<Longrightarrow> k = l \<longrightarrow> d = e \<Longrightarrow>
   set_duration k d (set_duration l e cfg) = set_duration l e (set_duration k d cfg)"
  unfolding duration_keys_def set_simps insert_iff empty_iff by (elim disjE) (simp_all add: set_duration_def)

lemma put_asked_commute:
  assumes "k \<in> set duration_keys" and "l \<in> set duration_keys"
  shows "put_asked part getenv k (put_asked part getenv l cfg) = put_asked part getenv l (put_asked part getenv k cfg)"
proof -
  have "set_duration k d (set_duration l e cfg) = set_duration l e (set_duration k d cfg)"
    if "asked part getenv k = Some (Some d)" and "asked part getenv l = Some (Some e)" for d e
    by (rule set_duration_commute [OF assms]) (use that in auto)
  then show ?thesis by (auto simp: put_asked_def split: option.splits)
qed

lemma load_durations_order:
  assumes "mset o1 = mset duration_keys" and "mset o2 = mset duration_keys"
  shows "load_durations part getenv o1 cfg = Inr cfg' \<longleftrightarrow> load_durations part getenv o2 cfg = Inr cfg'"
proof -
  have sets: "set o1 = set duration_keys" "set o2 = set duration_keys" using assms by (metis set_mset_mset)+
  have "fold (put_asked part getenv) o1 = fold (put_asked part getenv) o2"
    by (rule fold_multiset_equiv) (auto simp: assms sets fun_eq_iff put_asked_commute)
  then show ?thesis by (simp add: load_durations_ok sets)
qed

text \<open>The durations stay positive and inside 64 bits, and nothing else changes.\<close>

definition timed :: "config \<Rightarrow> bool" where
  "timed cfg \<longleftrightarrow> cf_access_token_ttl cfg \<in> {1..<2 ^ 63} \<and> cf_refresh_token_ttl cfg \<in> {1..<2 ^ 63}
     \<and> cf_login_lock_duration cfg \<in> {1..<2 ^ 63} \<and> cf_login_max_attempts cfg \<in> {1..<2 ^ 63}"

definition same_origin :: "config \<Rightarrow> config \<Rightarrow> bool" where
  "same_origin a b \<longleftrightarrow> cf_database_url a = cf_database_url b \<and> cf_redis_addr a = cf_redis_addr b
     \<and> cf_jwt_secret a = cf_jwt_secret b \<and> cf_cors_origins a = cf_cors_origins b"

lemma base_config_timed: "timed (base_config getenv)"
  by (simp add: timed_def base_config_def default_access_token_ttl_def default_refresh_token_ttl_def
      default_login_lock_def default_login_attempts_def second_def minute_def hour_def)

lemma put_asked_timed: "timed cfg \<Longrightarrow> timed (put_asked part getenv key cfg) \<and> same_origin (put_asked part getenv key cfg) cfg"
  by (auto simp: put_asked_def asked_def timed_def same_origin_def set_duration_def split: option.splits if_splits
      dest: parse_duration_fits)

lemma load_durations_timed:
  assumes "load_durations part getenv keys cfg = Inr cfg'" and "timed cfg"
  shows "timed cfg' \<and> same_origin cfg' cfg"
proof -
  have "timed c \<Longrightarrow> timed (fold (put_asked part getenv) ks c) \<and> same_origin (fold (put_asked part getenv) ks c) c" for ks c
  proof (induction ks arbitrary: c)
    case (Cons k ks)
    show ?case using put_asked_timed [OF Cons.prems, of part getenv k] Cons.IH [of "put_asked part getenv k c"]
      by (auto simp: same_origin_def)
  qed (simp add: same_origin_def)
  then show ?thesis using assms by (simp add: load_durations_ok)
qed

lemma atoi_fits: "fst (atoi s) < 2 ^ 63"
  by (auto simp: atoi_def Let_def split: digits.splits)

section \<open>What a loaded configuration guarantees\<close>

lemma and_then_simps [simp]: "and_then (Inl e) f = Inl e" "and_then (Inr a) f = f a"
  by (simp_all add: and_then_def)

lemma and_then_ok: "and_then x f = Inr b \<longleftrightarrow> (\<exists>a. x = Inr a \<and> f a = Inr b)"
  by (cases x) auto

lemma and_then_error: "and_then x f = Inl e \<longleftrightarrow> x = Inl e \<or> (\<exists>a. x = Inr a \<and> f a = Inl e)"
  by (cases x) auto

lemmas load_steps = load_cookie_secure_def load_max_attempts_def load_auto_migrate_def load_log_level_def Let_def

lemma load_ok:
  "load part order getenv = Inr cfg \<longleftrightarrow>
     lookup getenv ''DATABASE_URL'' \<noteq> [] \<and> lookup getenv ''REDIS_ADDR'' \<noteq> [] \<and> min_jwt_secret_length \<le> length (lookup getenv ''JWT_SECRET'')
     \<and> (\<exists>a b c d. load_durations part getenv order (base_config getenv) = Inr a \<and> load_cookie_secure getenv a = Inr b
         \<and> load_max_attempts getenv b = Inr c \<and> load_auto_migrate getenv c = Inr d \<and> load_log_level getenv d = Inr cfg)"
  by (auto simp: load_def Let_def and_then_ok base_config_def min_jwt_secret_length_def)

lemma later_settings:
  assumes "load_cookie_secure getenv a = Inr b" and "load_max_attempts getenv b = Inr c"
    and "load_auto_migrate getenv c = Inr d" and "load_log_level getenv d = Inr cfg" and "timed a"
  shows "timed cfg \<and> same_origin cfg a"
proof -
  have b: "timed b \<and> same_origin b a"
    using assms(1,5) by (auto simp: load_steps timed_def same_origin_def split: if_splits option.splits)
  have "timed c \<and> same_origin c b"
    using assms(2) b atoi_fits [of "lookup getenv ''LOGIN_MAX_ATTEMPTS''"]
    by (auto simp: load_steps timed_def same_origin_def split: if_splits prod.splits)
  moreover have "timed c \<Longrightarrow> timed d \<and> same_origin d c"
    using assms(3) by (auto simp: load_steps timed_def same_origin_def split: if_splits option.splits)
  moreover have "timed d \<Longrightarrow> timed cfg \<and> same_origin cfg d"
    using assms(4) by (auto simp: load_steps timed_def same_origin_def split: if_splits sum.splits)
  ultimately show ?thesis using b by (simp add: same_origin_def)
qed

text \<open>C15: A configuration that loads is usable: it has a database and a cache address and a secret of at least 32 bytes, positive
  durations and attempts that fit in 64 bits, and a list of origins that is already normal, so that the
  browser test of the cookies and CORS agree on who is trusted.\<close>

theorem load_sound:
  assumes "load part order getenv = Inr cfg"
  shows "cf_database_url cfg \<noteq> [] \<and> cf_redis_addr cfg \<noteq> [] \<and> 32 \<le> length (cf_jwt_secret cfg)
    \<and> {cf_access_token_ttl cfg, cf_refresh_token_ttl cfg, cf_login_lock_duration cfg, cf_login_max_attempts cfg} \<subseteq> {1..<2 ^ 63}
    \<and> cors_origins (cf_cors_origins cfg) = cf_cors_origins cfg"
proof -
  obtain a b c d where l: "load_durations part getenv order (base_config getenv) = Inr a" "load_cookie_secure getenv a = Inr b"
    "load_max_attempts getenv b = Inr c" "load_auto_migrate getenv c = Inr d" "load_log_level getenv d = Inr cfg"
    using assms by (auto simp: load_ok)
  have a: "timed a" "same_origin a (base_config getenv)" using load_durations_timed [OF l(1) base_config_timed] by auto
  then have "timed cfg" "same_origin cfg (base_config getenv)" using later_settings [OF l(2-5)] by (auto simp: same_origin_def)
  then show ?thesis
    using assms by (auto simp: load_ok timed_def same_origin_def base_config_def min_jwt_secret_length_def)
qed

text \<open>The order in which the loop visits the durations does not matter: any two orders of the three variables load the same
  configurations.\<close>

theorem load_order_free:
  assumes "mset o1 = mset duration_keys" and "mset o2 = mset duration_keys"
  shows "load part o1 getenv = Inr cfg \<longleftrightarrow> load part o2 getenv = Inr cfg"
  by (simp add: load_ok load_durations_order [OF assms])

section \<open>What a refusal names\<close>

definition offends :: "(nat \<Rightarrow> nat \<Rightarrow> nat \<Rightarrow> nat) \<Rightarrow> getenv \<Rightarrow> string \<Rightarrow> bool" where
  "offends part getenv key \<longleftrightarrow>
     (let raw = lookup getenv key
      in key \<in> {''DATABASE_URL'', ''REDIS_ADDR''} \<and> raw = []
       \<or> key = ''JWT_SECRET'' \<and> length raw < 32
       \<or> key \<in> set duration_keys \<and> asked part getenv key = None
       \<or> key \<in> {''COOKIE_SECURE'', ''DB_AUTO_MIGRATE''} \<and> raw \<noteq> [] \<and> parse_bool raw = None
       \<or> key = ''LOGIN_MAX_ATTEMPTS'' \<and> raw \<noteq> [] \<and> (\<not> snd (atoi raw) \<or> fst (atoi raw) < 1)
       \<or> key = ''LOG_LEVEL'' \<and> raw \<noteq> [] \<and> \<not> is_ok (parse_log_level raw))"

definition blames :: "gerror \<Rightarrow> string \<Rightarrow> bool" where
  "blames e key \<longleftrightarrow> (\<exists>pre post. e = Err (pre @ key @ post))"

lemma blames_form: "blames (Err (''missing required environment variable: '' @ key)) key" "blames (Err (''invalid '' @ key @ post)) key"
  by (auto simp: blames_def intro: exI [of _ "''missing required environment variable: ''"] exI [of _ "''invalid ''"])

lemma offends_duration: "key \<in> set duration_keys \<Longrightarrow> offends part getenv key \<longleftrightarrow> asked part getenv key = None"
  unfolding duration_keys_def set_simps insert_iff empty_iff by (elim disjE) (simp_all add: offends_def duration_keys_def asked_def Let_def)

text \<open>A refusal is justified: \<open>Load\<close> fails exactly when some variable is missing or invalid, and its error names one that is.\<close>

theorem load_error_named:
  assumes "mset order = mset duration_keys"
  shows "case load part order getenv of
      Inr cfg \<Rightarrow> \<nexists>key. offends part getenv key
    | Inl e \<Rightarrow> \<exists>key. offends part getenv key \<and> blames e key"
proof (cases "load part order getenv")
  case (Inr cfg)
  then have "\<forall>key \<in> set duration_keys. asked part getenv key \<noteq> None" "min_jwt_secret_length \<le> length (lookup getenv ''JWT_SECRET'')"
    using set_mset_mset [of order] set_mset_mset [of duration_keys] assms by (auto simp: load_ok load_durations_ok)
  note start = this
  obtain a b c d where l: "load_cookie_secure getenv a = Inr b" "load_max_attempts getenv b = Inr c" "load_auto_migrate getenv c = Inr d"
    "load_log_level getenv d = Inr cfg" "lookup getenv ''DATABASE_URL'' \<noteq> []" "lookup getenv ''REDIS_ADDR'' \<noteq> []"
    using Inr by (auto simp: load_ok)
  have "lookup getenv ''COOKIE_SECURE'' = [] \<or> parse_bool (lookup getenv ''COOKIE_SECURE'') \<noteq> None"
    using l(1) by (auto simp: load_steps split: if_splits option.splits)
  moreover have "lookup getenv ''LOGIN_MAX_ATTEMPTS'' = [] \<or> snd (atoi (lookup getenv ''LOGIN_MAX_ATTEMPTS'')) \<and> 1 \<le> fst (atoi (lookup getenv ''LOGIN_MAX_ATTEMPTS''))"
    using l(2) by (auto simp: load_steps split: if_splits prod.splits)
  moreover have "lookup getenv ''DB_AUTO_MIGRATE'' = [] \<or> parse_bool (lookup getenv ''DB_AUTO_MIGRATE'') \<noteq> None"
    using l(3) by (auto simp: load_steps split: if_splits option.splits)
  moreover have "lookup getenv ''LOG_LEVEL'' = [] \<or> is_ok (parse_log_level (lookup getenv ''LOG_LEVEL''))"
    using l(4) by (auto simp: load_steps split: if_splits sum.splits)
  ultimately have "\<not> offends part getenv key" for key
    using start l(5,6) by (auto simp: offends_def Let_def min_jwt_secret_length_def)
  then show ?thesis by (simp add: Inr)
next
  case (Inl e)
  have named: "offends part getenv key \<Longrightarrow> blames e key \<Longrightarrow> ?thesis" for key by (auto simp: Inl)
  consider (required) key where "key \<in> {''DATABASE_URL'', ''REDIS_ADDR'', ''JWT_SECRET''}" "lookup getenv key = []"
      "e = Err (''missing required environment variable: '' @ key)"
    | (short) post where "length (lookup getenv ''JWT_SECRET'') < 32" "e = Err (''invalid '' @ ''JWT_SECRET'' @ post)"
    | (durations) cfg where "load_durations part getenv order cfg = Inl e"
    | (cookie) cfg where "load_cookie_secure getenv cfg = Inl e"
    | (attempts) cfg where "load_max_attempts getenv cfg = Inl e"
    | (migrate) cfg where "load_auto_migrate getenv cfg = Inl e"
    | (level) cfg where "load_log_level getenv cfg = Inl e"
    using Inl by (auto simp: load_def Let_def and_then_error base_config_def min_jwt_secret_length_def split: if_splits)
  then show ?thesis
  proof cases
    case required
    then show ?thesis using named [of key] blames_form(1) [of key] by (auto simp: offends_def Let_def)
  next
    case short
    have "blames e ''JWT_SECRET''" unfolding short(2) by (rule blames_form(2))
    then show ?thesis using short(1) by (intro named) (auto simp: offends_def Let_def)
  next
    case durations
    then obtain key post where key: "key \<in> set order" "asked part getenv key = None" and e: "e = Err (''invalid '' @ key @ post)"
      using load_durations_error by blast
    have "set order = set duration_keys" using assms by (metis set_mset_mset)
    then have "offends part getenv key" using key by (simp add: offends_duration)
    moreover have "blames e key" unfolding e by (rule blames_form(2))
    ultimately show ?thesis by (rule named)
  next
    case cookie
    then have "\<exists>post. e = Err (''invalid '' @ ''COOKIE_SECURE'' @ post)" by (auto simp: load_steps split: if_splits option.splits)
    then have "blames e ''COOKIE_SECURE''" using blames_form(2) by blast
    then show ?thesis using cookie by (intro named) (auto simp: offends_def load_steps split: if_splits option.splits)
  next
    case attempts
    then have "\<exists>post. e = Err (''invalid '' @ ''LOGIN_MAX_ATTEMPTS'' @ post)" by (auto simp: load_steps split: if_splits prod.splits)
    then have "blames e ''LOGIN_MAX_ATTEMPTS''" using blames_form(2) by blast
    then show ?thesis using attempts by (intro named) (auto simp: offends_def load_steps split: if_splits prod.splits)
  next
    case migrate
    then have "\<exists>post. e = Err (''invalid '' @ ''DB_AUTO_MIGRATE'' @ post)" by (auto simp: load_steps split: if_splits option.splits)
    then have "blames e ''DB_AUTO_MIGRATE''" using blames_form(2) by blast
    then show ?thesis using migrate by (intro named) (auto simp: offends_def load_steps split: if_splits option.splits)
  next
    case level
    then have "\<exists>post. e = Err (''invalid '' @ ''LOG_LEVEL'' @ post)" by (auto simp: load_steps parse_log_level_def split: if_splits sum.splits)
    then have "blames e ''LOG_LEVEL''" using blames_form(2) by blast
    then show ?thesis using level by (intro named) (auto simp: offends_def load_steps split: if_splits sum.splits)
  qed
qed

section \<open>Worked examples\<close>

definition demo_env :: getenv where
  "demo_env key = (if key = ''DATABASE_URL'' then ''postgres://db'' else if key = ''REDIS_ADDR'' then ''cache:6379''
     else if key = ''JWT_SECRET'' then '' 0123456789abcdef0123456789abcdef'' else if key = ''CORS_ALLOWED_ORIGINS'' then ''https://a, https://b,''
     else [])"

lemma trim_empty: "trim_space [] = []"
  by code_simp

lemma demo_lookup:
  "lookup demo_env ''DATABASE_URL'' = ''postgres://db''" "lookup demo_env ''REDIS_ADDR'' = ''cache:6379''"
  "lookup demo_env ''JWT_SECRET'' = ''0123456789abcdef0123456789abcdef''"
  "lookup demo_env ''CORS_ALLOWED_ORIGINS'' = ''https://a, https://b,''"
  "key \<notin> {''DATABASE_URL'', ''REDIS_ADDR'', ''JWT_SECRET'', ''CORS_ALLOWED_ORIGINS''} \<Longrightarrow> lookup demo_env key = []"
  by (code_simp, code_simp, code_simp, code_simp, simp add: lookup_def demo_env_def trim_empty)

lemma demo_env_load: "mset order = mset duration_keys \<Longrightarrow> load part order demo_env = Inr (base_config demo_env)"
proof -
  assume "mset order = mset duration_keys"
  then have keys: "set order = set duration_keys" by (metis set_mset_mset)
  have ask: "asked part demo_env key = Some None" if "key \<in> set duration_keys" for key
    using that demo_lookup(5) [of key] by (auto simp: asked_def duration_keys_def)
  have "fold (put_asked part demo_env) ks cfg = cfg" if "set ks \<subseteq> set duration_keys" for ks cfg
    using that by (induction ks) (auto simp: put_asked_def ask)
  then have "load_durations part demo_env order (base_config demo_env) = Inr (base_config demo_env)"
    by (simp add: load_durations_ok keys ask)
  then show ?thesis by (simp add: load_ok demo_lookup load_steps min_jwt_secret_length_def)
qed

lemma demo_origins: "cf_cors_origins (base_config demo_env) = [''https://a'', ''https://b'']"
  unfolding base_config_def by (simp add: demo_lookup) code_simp

lemma load_sound_witness:
  "32 \<le> length (cf_jwt_secret (base_config demo_env)) \<and> cf_access_token_ttl (base_config demo_env) \<in> {1..<2 ^ 63}
   \<and> cors_origins [''https://a'', ''https://b''] = [''https://a'', ''https://b'']"
  using load_sound [OF demo_env_load [where part = "\<lambda>f u s. 0", OF refl]] demo_origins by simp

lemma load_order_free_witness: "load (\<lambda>f u s. f * u div s) (rev duration_keys) demo_env = Inr (base_config demo_env)"
  using load_order_free [of "rev duration_keys" duration_keys "\<lambda>f u s. f * u div s" demo_env "base_config demo_env"] demo_env_load [OF refl] by simp

text \<open>A negative duration is refused by name.\<close>

lemma load_error_named_witness:
  "\<exists>e. load (\<lambda>f u s. 0) duration_keys (demo_env(''ACCESS_TOKEN_TTL'' := ''-1s'')) = Inl e
     \<and> (\<exists>key. offends (\<lambda>f u s. 0) (demo_env(''ACCESS_TOKEN_TTL'' := ''-1s'')) key \<and> blames e key)"
proof -
  let ?env = "demo_env(''ACCESS_TOKEN_TTL'' := ''-1s'')"
  have env: "lookup ?env ''ACCESS_TOKEN_TTL'' = ''-1s''" by code_simp
  have "parse_duration (\<lambda>f u s. 0) ''-1s'' = Some (- (10 ^ 9))"
    by (simp add: parse_duration_def has_prefix_def duration_sum.simps duration_part_def unit_map_def unit_char_def is_digit_def byte_def)
  then have "offends (\<lambda>f u s. 0) ?env ''ACCESS_TOKEN_TTL''"
    by (simp add: offends_duration duration_keys_def asked_def env)
  then show ?thesis
    using load_error_named [OF refl, of "\<lambda>f u s. 0" ?env] by (cases "load (\<lambda>f u s. 0) duration_keys ?env") auto
qed

end
