(* ===== verification/Probes.thy ===== *)
theory Probes
  imports Router
begin

text \<open>
  \<open>probe/probe.go\<close>: the readiness probes. The pings of the database pool and of the cache and the
  broker dial are calls of client libraries, so they are arguments: a ping gets the time the
  context leaves it, the dial its address and timeout.
\<close>

definition default_dial_timeout :: int where
  "default_dial_timeout = 3 * second"

definition postgres_probe :: "(int \<Rightarrow> unit io) \<Rightarrow> probe" where
  "postgres_probe ping = \<lparr>pb_name = ''postgres'', pb_required = True, pb_check = (\<lambda>timeout. check ''ping postgres: '' (ping timeout) ok)\<rparr>"

definition redis_probe :: "(int \<Rightarrow> unit io) \<Rightarrow> probe" where
  "redis_probe ping = \<lparr>pb_name = ''redis'', pb_required = True, pb_check = (\<lambda>timeout. check ''ping redis: '' (ping timeout) ok)\<rparr>"

record rabbitmq =
  mq_url :: string
  mq_dial_timeout :: int

definition deadline_exceeded :: gerror where
  "deadline_exceeded = Err ''context deadline exceeded''"

text \<open>The time the dial gets: the configured one, at most what is left of the context's.\<close>

definition dial_budget :: "int \<Rightarrow> int \<Rightarrow> int" where
  "dial_budget configured remaining =
     (let timeout = (if configured \<le> 0 then default_dial_timeout else configured)
      in if remaining < timeout then remaining else timeout)"

text \<open>
  \<open>Check\<close> under a context whose deadline is \<open>timeout\<close> after its start: \<open>ctx.Err()\<close> is the deadline's
  error once it has passed. The connection the dial returns is closed.
\<close>

definition rabbitmq_check :: "(string \<Rightarrow> int \<Rightarrow> unit io) \<Rightarrow> unit io \<Rightarrow> rabbitmq \<Rightarrow> int \<Rightarrow> unit io" where
  "rabbitmq_check dial close r timeout = do {
     start \<leftarrow> read_clock;
     let deadline = start + timeout;
     now \<leftarrow> read_clock;
     if deadline \<le> now then fail deadline_exceeded
     else do {
       now \<leftarrow> read_clock;
       let budget = dial_budget (mq_dial_timeout r) (deadline - now);
       if budget \<le> 0 then fail deadline_exceeded
       else check ''dial rabbitmq: '' (dial (mq_url r) budget) (\<lambda>_. close) } }"

definition rabbitmq_probe :: "(string \<Rightarrow> int \<Rightarrow> unit io) \<Rightarrow> unit io \<Rightarrow> rabbitmq \<Rightarrow> probe" where
  "rabbitmq_probe dial close r = \<lparr>pb_name = ''rabbitmq'', pb_required = False, pb_check = rabbitmq_check dial close r\<rparr>"

text \<open>The dial never outlives the readiness budget, nor its own limit.\<close>

lemma dial_budget_bounds:
  "dial_budget configured remaining \<le> remaining"
  "dial_budget configured remaining \<le> (if configured \<le> 0 then default_dial_timeout else configured)"
  by (simp_all add: dial_budget_def Let_def)

text \<open>The check of an optional broker cannot outlive the readiness budget: what the broker would do with a longer dial
  does not matter to it.\<close>

theorem rabbitmq_within_budget:
  assumes "\<And>budget. 0 < budget \<Longrightarrow> budget \<le> timeout \<Longrightarrow> dial (mq_url r) budget = dial' (mq_url r) budget"
  shows "run_state (rabbitmq_check dial close r timeout) w = run_state (rabbitmq_check dial' close r timeout) w"
proof -
  have "dial_budget c (start + timeout - (start + int a + int b)) \<le> timeout" for c start a b
    using dial_budget_bounds(1) [of c "start + timeout - (start + int a + int b)"] by linarith
  then show ?thesis
    using assms by (auto simp: rabbitmq_check_def read_clock_def stmt_now_def tickd_def Let_def algebra_simps)
qed

end
