(* ===== verification/Commands.thy ===== *)
theory Commands
  imports Config_Safety Probes Login_Safety Signup_Safety Relocation Identity_Safety Migrate_Safety Social_Safety
begin

text \<open>
  The commands: \<open>cmd/api/main.go\<close> (configuration, database, schema, the services and the router that
  serves them, shutdown), the start of \<open>cmd/worker/main.go\<close>, and \<open>cmd/bootstrap/main.go\<close>, which
  grants the first administrator a role. What the program links against is one record,
  \<open>environment\<close>: the JWT, Argon2id and OIDC libraries, the parsers of \<open>net/http\<close>, and the client
  libraries of the dependencies.
\<close>

section \<open>cmd/api: the services\<close>

record ('p, 'v, 'r) environment =
  ae_jwt :: jwt_lib
  ae_idkey :: idkey
  ae_dummy :: string
  ae_http :: http_lib
  ae_oidc :: "('p, 'v, 'r) oidc_library"
  ae_ping_db :: "int \<Rightarrow> unit io"
  ae_ping_cache :: "int \<Rightarrow> unit io"
  ae_dial :: "string \<Rightarrow> int \<Rightarrow> unit io"
  ae_hang_up :: "unit io"

definition session_config_of :: "config \<Rightarrow> session_config" where
  "session_config_of cfg = \<lparr>sc_secret = cf_jwt_secret cfg, sc_access_ttl = cf_access_token_ttl cfg,
     sc_refresh_ttl = cf_refresh_token_ttl cfg, sc_issuer = ''melia-api''\<rparr>"

definition audit_key :: "config \<Rightarrow> string" where
  "audit_key cfg = audit_subkey (cf_jwt_secret cfg)"

definition api_issuer :: "('p, 'v, 'r) environment \<Rightarrow> config \<Rightarrow> issuer" where
  "api_issuer E cfg = issue (ae_jwt E) (session_config_of cfg) pg_store_refresh_token"

text \<open>\<open>Issuer.Parse\<close>, at the time of the call.\<close>

definition api_parser :: "('p, 'v, 'r) environment \<Rightarrow> config \<Rightarrow> token_parser" where
  "api_parser E cfg = \<lparr>tp_parse = (\<lambda>raw. do {
     now \<leftarrow> read_clock;
     ret (parse_token (ae_jwt E) (session_config_of cfg) now raw) })\<rparr>"

definition api_rotator :: "('p, 'v, 'r) environment \<Rightarrow> config \<Rightarrow> session_rotator" where
  "api_rotator E cfg = \<lparr>sro_refresh = refresh (ae_jwt E) (session_config_of cfg) pg_begin_rotate, sro_logout = logout pg_begin_rotate\<rparr>"

definition api_login :: "('p, 'v, 'r) environment \<Rightarrow> config \<Rightarrow> login_service" where
  "api_login E cfg =
     (new_login (ae_idkey E) (ae_dummy E) pg_login_store (api_issuer E cfg) (Some (pg_record (audit_key cfg))))
       \<lparr>lg_max_attempts := cf_login_max_attempts cfg, lg_lock_duration := cf_login_lock_duration cfg\<rparr>"

definition panel_origin :: "config \<Rightarrow> string" where
  "panel_origin cfg = (case cf_cors_origins cfg of [] \<Rightarrow> [] | origin # _ \<Rightarrow> origin)"

text \<open>The services as the interfaces of package \<open>httpapi\<close>.\<close>

definition identity_surface :: "identity_service \<Rightarrow> identity_reader" where
  "identity_surface s = \<lparr>ir_me = service_me s, ir_roles = service_roles s, ir_permissions = service_permissions s\<rparr>"

definition admin_surface :: "identity_service \<Rightarrow> admin_reader" where
  "admin_surface s = \<lparr>ar_users = service_users s, ar_user = service_user s, ar_update_user = service_update_user s,
     ar_set_roles = service_set_roles s, ar_audit_events = service_audit_events s\<rparr>"

definition password_surface :: "password_service \<Rightarrow> password_api" where
  "password_surface s = \<lparr>pa_request = request_reset s, pa_reset = reset_password s, pa_change = change_password s\<rparr>"

definition change_surface :: "change_service \<Rightarrow> change_api" where
  "change_surface s = \<lparr>ca_request = request_change s, ca_verify = verify_change s\<rparr>"

text \<open>
  The social login keeps the verifiers it has built in a cache of the process; \<open>cache\<close> is its content
  when the request is served, and the new content is dropped here.
\<close>

definition social_surface :: "'c social_service \<Rightarrow> 'c \<Rightarrow> social_authenticator" where
  "social_surface s cache provider id_token meta = do {
     (r, _) \<leftarrow> authenticate s cache provider id_token meta;
     ret r }"

definition api_probes :: "('p, 'v, 'r) environment \<Rightarrow> config \<Rightarrow> probe list" where
  "api_probes E cfg = [postgres_probe (ae_ping_db E), redis_probe (ae_ping_cache E)]
     @ (if cf_rabbitmq_url cfg \<noteq> [] then [rabbitmq_probe (ae_dial E) (ae_hang_up E) \<lparr>mq_url = cf_rabbitmq_url cfg, mq_dial_timeout = 0\<rparr>] else [])"

text \<open>\<open>if cfg.RabbitMQURL != "" { ... }\<close>: what needs the broker is left out without it.\<close>

definition if_broker :: "config \<Rightarrow> 'a \<Rightarrow> 'a option" where
  "if_broker cfg x = (if cf_rabbitmq_url cfg = [] then None else Some x)"

definition api_options :: "('p, 'v, 'r) environment \<Rightarrow> config \<Rightarrow> (string \<rightharpoonup> 'v) \<Rightarrow> options" where
  "api_options E cfg cache =
     (let k = audit_key cfg; queue = cf_mail_queue cfg; identity = pg_identity_service k;
          clients = new_oidc_verifier (cf_google_client_id cfg) (cf_apple_client_id cfg)
      in \<lparr>op_probes = api_probes E cfg,
          op_probe_timeout = 0,
          op_cors_origins = cf_cors_origins cfg,
          op_signup = if_broker cfg (request_signup (pg_signup_service (ae_idkey E) queue)),
          op_verifier = Some (\<lambda>email code meta. verify_signup (pg_verifier (ae_jwt E) (session_config_of cfg) k) email meta code),
          op_login = Some (login (api_login E cfg)),
          op_rotator = Some (api_rotator E cfg),
          op_cookie_secure = cf_cookie_secure cfg,
          op_token_parser = Some (api_parser E cfg),
          op_authorizer = Some \<lparr>az_can = can identity\<rparr>,
          op_identity = Some (identity_surface identity),
          op_admin = Some (admin_surface identity),
          op_invitations = if_broker cfg (invite (new_invitation (Some (amqp_publish queue)) (panel_origin cfg))),
          op_password = if_broker cfg (password_surface (pg_password_service (ae_idkey E) queue k (panel_origin cfg))),
          op_email_change = if_broker cfg (change_surface (pg_email_change (ae_idkey E) queue k)),
          op_social = (if oidc_configured clients provider_google \<or> oidc_configured clients provider_apple
            then Some (social_surface (pg_social_service (ae_oidc E) (cf_google_client_id cfg) (cf_apple_client_id cfg)
              (ae_jwt E) (session_config_of cfg) k) cache)
            else None)\<rparr>)"

definition api_handler :: "('p, 'v, 'r) environment \<Rightarrow> config \<Rightarrow> (string \<rightharpoonup> 'v) \<Rightarrow> handler" where
  "api_handler E cfg cache = new_router (ae_http E) (api_options E cfg cache)"

section \<open>cmd/api: the process\<close>

definition bootstrap_schema :: "server \<Rightarrow> (string \<Rightarrow> directory) \<Rightarrow> config \<Rightarrow> unit io" where
  "bootstrap_schema sv disk cfg =
     (if \<not> cf_auto_migrate cfg then ok ()
      else do {
        (applied, e) \<leftarrow> run_migrations (pg_runner sv (cf_db_init_dir cfg) (disk (cf_db_init_dir cfg)));
        case e of Some e \<Rightarrow> fail e | None \<Rightarrow> ok () })"

text \<open>
  How serving ends: the listener fails, or a termination signal arrives. \<open>pc_serve\<close> is the server of
  \<open>net/http\<close> on the configured address with the handler, given by the content of the cache of social
  login; \<open>pc_shutdown\<close> is \<open>server.Shutdown\<close> with its time. The deferred closes of the cache client
  and of the publishers have no effect the model sees.
\<close>

datatype stop = Server_Failed gerror | Signalled

record ('p, 'v) process =
  pc_context :: "world context_ops"
  pc_new_pool :: "string \<Rightarrow> 'p io"
  pc_ping :: "'p \<Rightarrow> unit io"
  pc_close :: "'p \<Rightarrow> unit eff"
  pc_disk :: "string \<Rightarrow> directory"
  pc_server :: server
  pc_serve :: "string \<Rightarrow> ((string \<rightharpoonup> 'v) \<Rightarrow> handler) \<Rightarrow> stop eff"
  pc_shutdown :: "int \<Rightarrow> unit io"

definition run_api :: "('p, 'v, 'r) environment \<Rightarrow> ('c, 'v) process \<Rightarrow> (nat \<Rightarrow> nat \<Rightarrow> nat \<Rightarrow> nat) \<Rightarrow> string list \<Rightarrow> getenv \<Rightarrow> unit io" where
  "run_api E pc part order getenv = (case load part order getenv of
     Inl e \<Rightarrow> fail e
   | Inr cfg \<Rightarrow>
       attempt (connect_pool (pc_context pc) (pc_new_pool pc (cf_database_url cfg)) (pc_ping pc) (pc_close pc) default_connect_attempts)
         (\<lambda>pool. do {
            r \<leftarrow> attempt (bootstrap_schema (pc_server pc) (pc_disk pc) cfg) (\<lambda>_. do {
              s \<leftarrow> pc_serve pc (cf_http_addr cfg) (api_handler E cfg);
              case s of
                Server_Failed e \<Rightarrow> fail (wrap ''http server: '' e)
              | Signalled \<Rightarrow> check ''graceful shutdown: '' (pc_shutdown pc (cf_shutdown_timeout cfg)) ok });
            pc_close pc pool;
            ret r }))"

section \<open>cmd/worker: the start\<close>

definition worker_level :: "string \<Rightarrow> log_level" where
  "worker_level raw = (let s = to_lower (trim_space raw)
     in if s = ''debug'' then Debug else if s = ''warn'' then Warn else if s = ''error'' then Error else Info)"

text \<open>
  The worker connects, opens a channel, declares the queue, sets the prefetch and consumes; any failure
  ends it. Then comes its loop over \<open>events\<close>, with the answers to the deliveries.
\<close>

definition run_worker ::
  "(string \<Rightarrow> gerror + string) \<Rightarrow> getenv \<Rightarrow> worker_event list \<Rightarrow>
   (verdict list \<times> (gerror + unit) option) eff" where
  "run_worker host_of getenv events =
     (let url = trim_space (getenv ''RABBITMQ_URL'');
          queue = value_or getenv ''MAIL_QUEUE'' default_mail_queue;
          sender = new_smtp (value_or getenv ''SMTP_ADDR'' default_smtp_addr) (value_or getenv ''MAIL_FROM'' default_mail_from)
      in if url = [] then ret ([], Some (Inl (Err ''missing required environment variable: RABBITMQ_URL'')))
         else do {
           started \<leftarrow>
             check ''dialing broker: '' outside_call (\<lambda>_.
             check ''opening channel: '' outside_call (\<lambda>_.
             check (''declaring queue '' @ queue @ '': '') outside_call (\<lambda>_.
             check ''setting prefetch: '' outside_call (\<lambda>_.
             check (''consuming '' @ queue @ '': '') outside_call ok))));
           case started of
             Inl e \<Rightarrow> ret ([], Some (Inl e))
           | Inr _ \<Rightarrow> worker_loop (smtp_send host_of sender) events })"

section \<open>cmd/bootstrap\<close>

text \<open>\<open>new_pool\<close> only parses the address. The result is what the command prints: roles, address and user.\<close>

definition run_bootstrap :: "(string \<Rightarrow> gerror + unit) \<Rightarrow> getenv \<Rightarrow> (string list \<times> string \<times> string) io" where
  "run_bootstrap new_pool getenv =
     (let dsn = trim_space (getenv ''DATABASE_URL'');
          email = to_lower (trim_space (getenv ''EMAIL''));
          role = value_or getenv ''ROLE'' ''SUPERADMIN''
      in if dsn = [] then fail (Err ''missing required environment variable: DATABASE_URL'')
         else if email = [] then fail (Err ''missing required environment variable: EMAIL'')
         else check ''connecting: '' (ret (new_pool dsn)) (\<lambda>_. do {
           u \<leftarrow> pool_exec (query_stmt (\<lambda>d. select_one (owns_email email) (tb_user d)));
           case u of
             Inl e \<Rightarrow> fail (wrap ''looking up user: '' e)
           | Inr None \<Rightarrow> fail (Err (''no active user with email '' @ email @ '': register first, then bootstrap''))
           | Inr (Some row) \<Rightarrow>
               attempt (pg_set_roles (u_id row) [role]) (\<lambda>roles. ok (roles, email, u_id row)) }))"

end
