(* ===== verification/Api_Safety.thy ===== *)
theory Api_Safety
  imports Http_Safety Commands
begin

text \<open>
  The API as it is wired: what the services and the HTTP surface guarantee together. The statements
  are about \<open>api_handler\<close>, the handler \<open>cmd/api\<close> serves, and about the commands themselves.
\<close>

section \<open>Requests that reach a service\<close>

lemma api_options_simps [simp]:
  "op_token_parser (api_options E cfg cache) = Some (api_parser E cfg)"
  "op_authorizer (api_options E cfg cache) = Some \<lparr>az_can = can (pg_identity_service (audit_key cfg))\<rparr>"
  "op_identity (api_options E cfg cache) = Some (identity_surface (pg_identity_service (audit_key cfg)))"
  "op_admin (api_options E cfg cache) = Some (admin_surface (pg_identity_service (audit_key cfg)))"
  "op_login (api_options E cfg cache) = Some (login (api_login E cfg))"
  "op_rotator (api_options E cfg cache) = Some (api_rotator E cfg)"
  "op_signup (api_options E cfg cache) = if_broker cfg (request_signup (pg_signup_service (ae_idkey E) (cf_mail_queue cfg)))"
  by (simp_all add: api_options_def Let_def)

text \<open>A request that is no preflight is answered by its route; CORS only adds headers.\<close>

lemma api_routed:
  assumes "run_state (api_handler E cfg cache r) w = (resp, w')" and "rq_method r \<noteq> ''OPTIONS''"
  obtains x hs where "run_state (mux (routes (ae_http E) (api_options E cfg cache)) r) w = (x, w')"
    "resp = x\<lparr>rs_headers := hs @ rs_headers x\<rparr>"
  using assms(1) unfolding api_handler_def
  by (cases rule: router_cases) (use assms(2) in \<open>auto simp: is_preflight_def\<close>)

text \<open>The answer of a route that every matching entry agrees on.\<close>

lemma api_route:
  assumes "rq_method r = ''POST''"
  shows "rq_path r = [''v1'', ''auth'', ''login''] \<Longrightarrow>
      \<exists>x. mux (routes L (api_options E cfg cache)) r = login_handler L (settings (api_options E cfg cache)) (login (api_login E cfg)) (bind_path x r)"
    and "rq_path r = [''v1'', ''auth'', ''signup''] \<Longrightarrow> cf_rabbitmq_url cfg \<noteq> [] \<Longrightarrow>
      \<exists>x. mux (routes L (api_options E cfg cache)) r
        = start_signup L (request_signup (pg_signup_service (ae_idkey E) (cf_mail_queue cfg))) (bind_path x r)"
proof -
  note defs = routes_def auth_routes_def identity_routes_def admin_routes_def Let_def settings_def [symmetric]
  show "\<exists>x. mux (routes L (api_options E cfg cache)) r = login_handler L (settings (api_options E cfg cache)) (login (api_login E cfg)) (bind_path x r)"
    if "rq_path r = [''v1'', ''auth'', ''login'']"
    by (rule mux_at; simp only: defs set_append ball_Un bex_Un ball_if_some bex_if_some set_simps ball_simps bex_simps)
      (simp_all add: assms that del: list.map append.simps)
  show "\<exists>x. mux (routes L (api_options E cfg cache)) r
        = start_signup L (request_signup (pg_signup_service (ae_idkey E) (cf_mail_queue cfg))) (bind_path x r)"
    if "rq_path r = [''v1'', ''auth'', ''signup'']" and "cf_rabbitmq_url cfg \<noteq> []"
    by (rule mux_at; simp only: defs set_append ball_Un bex_Un ball_if_some bex_if_some set_simps ball_simps bex_simps)
      (simp_all add: assms that if_broker_def del: list.map append.simps)
qed

section \<open>Who has an account\<close>

text \<open>What a caller can tell of a response.\<close>

definition answers_with :: "response \<Rightarrow> response \<Rightarrow> bool" where
  "answers_with x y \<longleftrightarrow> rs_status x = rs_status y \<and> rs_json x = rs_json y \<and> rs_cookies x = rs_cookies y
     \<and> (\<exists>hs. rs_headers x = hs @ rs_headers y)"

lemma answers_with_cors: "answers_with (x\<lparr>rs_headers := hs @ rs_headers x\<rparr>) x"
  by (simp add: answers_with_def)

lemma with_body_run: "read_body n (rq_body r) = Some (TObj ms) \<Longrightarrow> dec ms = (b, True) \<Longrightarrow> with_body n dec r k = k b"
  by (simp add: with_body_def members_def)

lemma pg_api_login: "pg_login_service (ae_jwt E) (session_config_of cfg) (audit_key cfg) (api_login E cfg)"
  by (simp add: pg_login_service_def api_login_def new_login_def api_issuer_def)

text \<open>C27: The login endpoint does not tell who has an account: when nothing fails, a well-formed login for an unknown address, for
  an account that is not ACTIVE, or with a wrong password below the limit is answered with the very same 401.\<close>

theorem login_hides_accounts:
  assumes "run_state (api_handler E cfg cache r) w = (resp, w')" and "reliable w"
    and "rq_method r = ''POST''" and "rq_path r = [''v1'', ''auth'', ''login'']"
    and "read_body kib8 (rq_body r) = Some (TObj ms)" and "decode_login ms = (b, True)"
    and "hl_parse_address (ae_http E) (trim_space (lb_email b))" and "lb_password b \<noteq> []"
    and "case account (lb_email b) w of None \<Rightarrow> True
         | Some u \<Rightarrow> (\<forall>l. u_locked_until u = Some l \<longrightarrow> l \<le> w_clock w) \<and>
             (u_status u \<noteq> status_active \<or>
              lg_verify (api_login E cfg) (coalesce_empty (u_password u)) (lb_password b) \<noteq> Inr True
                \<and> u_failed u + 1 < max_attempts (api_login E cfg))"
  shows "answers_with resp (write_error 401 ''invalid_credentials'' ''Email or password is incorrect.'')"
proof -
  obtain x hs where x: "run_state (mux (routes (ae_http E) (api_options E cfg cache)) r) w = (x, w')"
    "resp = x\<lparr>rs_headers := hs @ rs_headers x\<rparr>"
    using api_routed [OF assms(1)] assms(3) by auto
  obtain y where y: "mux (routes (ae_http E) (api_options E cfg cache)) r
      = login_handler (ae_http E) (settings (api_options E cfg cache)) (login (api_login E cfg)) (bind_path y r)"
    using api_route(1) [OF assms(3,4)] by blast
  obtain t w1 where t: "run_state (login (api_login E cfg) (lb_email b) (lb_password b)
      (request_meta (ae_http E) (bind_path y r) (trim_space (lb_device b)))) w = (t, w1)" by fastforce
  have "t = Inl err_invalid_credentials" by (rule login_uniform [OF pg_api_login t assms(2,9)])
  then have "x = write_error 401 ''invalid_credentials'' ''Email or password is incorrect.''"
    using x(1) t assms(7,8)
    by (simp add: y login_handler_def with_body_run [where b = b and ms = ms] assms(5,6) err_invalid_credentials_def)
  then show ?thesis using x(2) answers_with_cors by simp
qed


section \<open>Demotion\<close>

text \<open>Reading changes nothing that the services see.\<close>

definition at_rest :: "world \<Rightarrow> world \<Rightarrow> bool" where
  "at_rest w w' \<longleftrightarrow> w_db w' = w_db w \<and> w_tx w' = w_tx w \<and> w_mq w' = w_mq w \<and> same_oracles w w'"

lemma at_rest_trans: "at_rest w w' \<Longrightarrow> at_rest w' w'' \<Longrightarrow> at_rest w w''"
  by (auto simp: at_rest_def intro: same_oracles_trans)

lemma at_rest_reliable: "at_rest w w' \<Longrightarrow> reliable w' = reliable w"
  by (simp add: at_rest_def reliable_def same_oracles_def)

lemma moves_at_rest: "moves w (w_db w) (w_tx w) (w_mq w) w' \<Longrightarrow> at_rest w w'"
  by (simp add: moves_def at_rest_def)

lemma reads_at_rest:
  "wp (tp_parse (api_parser E cfg) raw) (\<lambda>_. at_rest w) w"
  "wp (can (pg_identity_service k) uid code) (\<lambda>_. at_rest w) w"
  "wp (service_user (pg_identity_service k) uid) (\<lambda>_. at_rest w) w"
proof -
  note code = api_parser_def can_def service_user_def pg_access_def pg_profile_def
  show "wp (tp_parse (api_parser E cfg) raw) (\<lambda>_. at_rest w) w"
    unfolding code token_parser.simps
    by (rule wp_start, (((erule wp_steps)+)?; clarsimp simp: wp_code moves_at_rest; (intro conjI impI allI)?)+)
  show "wp (can (pg_identity_service k) uid code) (\<lambda>_. at_rest w) w"
    unfolding code identity_store_simps pg_identity_service_simps
    by (rule wp_start, (((erule wp_steps)+)?; clarsimp simp: wp_code moves_at_rest code; (intro conjI impI allI)?)+)
  show "wp (service_user (pg_identity_service k) uid) (\<lambda>_. at_rest w) w"
    unfolding code identity_store_simps pg_identity_service_simps
    by (rule wp_start, (((erule wp_steps)+)?; clarsimp simp: wp_code moves_at_rest code split: option.splits; (intro conjI impI allI)?)+)
qed

lemma read_run:
  "run_state (can (pg_identity_service k) uid code) w = (a, w') \<Longrightarrow> at_rest w w'"
  "run_state (service_user (pg_identity_service k) uid) w = (u, w') \<Longrightarrow> at_rest w w'"
  using wpD [OF reads_at_rest(2)] wpD [OF reads_at_rest(3)] by metis+

lemma after_parse_rest: "at_rest w (after_parse (api_options E cfg cache) r w)"
proof -
  have "at_rest w (snd (run_state (tp_parse (api_parser E cfg) raw) w))" for raw
    by (rule wpD [OF reads_at_rest(1) prod.collapse [symmetric]])
  then show ?thesis by (simp add: after_parse_def at_rest_def split: option.splits)
qed

text \<open>What the two guards let through runs in a world where only time has passed.\<close>

lemma guarded_run:
  assumes "run_state (require_auth (api_parser E cfg) (require_permission \<lparr>az_can = can (pg_identity_service k)\<rparr> admin_permission h) q) w = (x, w')"
  obtains (refused) "rs_status x \<in> {401, 403, 500}" "at_rest w w'"
      "\<And>cl. proves (api_options E cfg cache) q w cl \<Longrightarrow> reliable w \<Longrightarrow>
         rs_status x = 403 \<and> admin_permission \<notin> set (permission_codes (cl_sub cl) (w_db w))"
  | (passed) cl v where "proves (api_options E cfg cache) q w cl" "at_rest w v"
      "reliable w \<Longrightarrow> admin_permission \<in> set (permission_codes (cl_sub cl) (w_db w))"
      "run_state (h (q\<lparr>rq_user := Some (cl_sub cl)\<rparr>)) v = (x, w')"
proof -
  let ?opts = "api_options E cfg cache"
  have parser: "op_token_parser ?opts = Some (api_parser E cfg)" by simp
  have rest: "at_rest w w" by (simp add: at_rest_def)
  show ?thesis
  proof (cases rule: require_auth_run [OF parser needs_user_handlers(5) assms])
    case 1
    then show ?thesis using refused after_parse_rest [of w E cfg cache q] rest by (auto simp: write_error_def write_json_def)
  next
    case (2 cl)
    let ?v = "after_parse ?opts q w"
    have ne: "cl_sub cl \<noteq> []" using 2(1) by (auto simp: proves_def)
    obtain a v where a: "run_state (can (pg_identity_service k) (cl_sub cl) admin_permission) ?v = (a, v)" by fastforce
    have v: "at_rest w v" using at_rest_trans [OF after_parse_rest read_run(1) [OF a]] .
    have db: "w_db ?v = w_db w" using after_parse_rest [of w E cfg cache q] by (simp add: at_rest_def)
    have "reliable ?v = reliable w" by (rule at_rest_reliable [OF after_parse_rest])
    then have live: "a = Inr (admin_permission \<in> set (permission_codes (cl_sub cl) (w_db w)))" if "reliable w"
      using can_reliable [of ?v k "cl_sub cl" admin_permission] a that by (simp add: db)
    have same: "cl' = cl" if "proves ?opts q w cl'" for cl' using that 2(1) by (auto simp: proves_def)
    show ?thesis
    proof (cases "a = Inr True")
      case True
      then have "run_state (h (q\<lparr>rq_user := Some (cl_sub cl)\<rparr>)) v = (x, w')"
        using 2(2) a ne by (simp add: require_permission_def user_id_from_def)
      moreover have "reliable w \<Longrightarrow> admin_permission \<in> set (permission_codes (cl_sub cl) (w_db w))" using live True by simp
      ultimately show ?thesis using passed 2(1) v by blast
    next
      case False
      then have "w' = v" "rs_status x = (if is_ok a then 403 else 500)"
        using 2(2) a ne by (cases a; auto simp: require_permission_def user_id_from_def write_error_def write_json_def)+
      then show ?thesis using refused v live False same by (auto split: if_splits)
    qed
  qed
qed

text \<open>A successful answer of the role endpoint.\<close>

lemma set_roles_answer:
  assumes "run_state (set_roles_handler L (admin_surface (pg_identity_service k)) q) v = (x, w')" and "rs_status x = 200"
    and "read_body kib8 (rq_body q) = Some (TObj ms)" and "strs_field ''roles'' ms (None, True) = (Some names, True)"
  obtains actor meta r v1 where "run_state (service_set_roles (pg_identity_service k) actor (rq_path_value q ''userId'') names meta) v = (Inr r, v1)"
    "at_rest v1 w'"
proof -
  have body: "with_body kib8 (\<lambda>ms. strs_field ''roles'' ms (None, True)) q f = f (Some names)" for f
    by (rule with_body_run [OF assms(3)]) (simp add: assms(4))
  obtain actor where actor: "user_id_from q = Some actor" "rq_path_value q ''userId'' \<noteq> []"
    using assms(1,2) by (auto simp: set_roles_handler_def Let_def write_error_def write_json_def split: option.splits if_splits)
  let ?uid = "rq_path_value q ''userId''" and ?meta = "admin_meta L q"
  obtain r v1 where r: "run_state (service_set_roles (pg_identity_service k) actor ?uid names ?meta) v = (r, v1)" by fastforce
  obtain u v2 where u: "run_state (service_user (pg_identity_service k) ?uid) v1 = (u, v2)" by fastforce
  show ?thesis
  proof (cases r)
    case (Inl e)
    then show ?thesis
      using assms(1,2) r by (auto simp: set_roles_handler_def Let_def actor body admin_surface_def write_error_def write_json_def
        write_validation_error_def split: if_splits)
  next
    case (Inr a)
    then have "w' = v2"
      using assms(1) r u by (cases u) (simp_all add: set_roles_handler_def Let_def actor body admin_surface_def)
    then show ?thesis using that r read_run(2) [OF u] Inr by simp
  qed
qed

lemma bind_roles: "match_path ([Lit ''v1'', Lit ''admin'', Lit ''users'', Wild ''userId''] @ map Lit [''roles''])
    [''v1'', ''admin'', ''users'', uid, ''roles''] = Some [(''userId'', uid)]"
  by simp

lemma roles_route:
  assumes "rq_method r = ''PATCH''" and "rq_path r = [''v1'', ''admin'', ''users'', uid, ''roles'']"
  shows "\<exists>y. mux (routes L (api_options E cfg cache)) r
      = require_auth (api_parser E cfg) (require_permission \<lparr>az_can = can (pg_identity_service (audit_key cfg))\<rparr> admin_permission
          (set_roles_handler L (admin_surface (pg_identity_service (audit_key cfg))))) (bind_path y r)
      \<and> rq_path_value (bind_path y r) ''userId'' = uid"
proof -
  note defs = routes_def auth_routes_def identity_routes_def admin_routes_def Let_def settings_def [symmetric]
  let ?h = "require_auth (api_parser E cfg) (require_permission \<lparr>az_can = can (pg_identity_service (audit_key cfg))\<rparr> admin_permission
          (set_roles_handler L (admin_surface (pg_identity_service (audit_key cfg)))))"
  let ?good = "\<lambda>x. en_handler x = ?h \<and> rq_path_value (bind_path x r) ''userId'' = uid"
  have "\<forall>x \<in> set (routes L (api_options E cfg cache)). takes r x \<longrightarrow> ?good x"
    by (simp only: defs set_append ball_Un ball_if_some set_simps ball_simps)
      (simp_all add: assms bind_path_def bind_roles del: list.map append.simps)
  moreover have "\<exists>x \<in> set (routes L (api_options E cfg cache)). takes r x"
    by (simp only: defs set_append bex_Un bex_if_some set_simps bex_simps)
      (simp_all add: assms method_matches_def del: list.map append.simps)
  ultimately show ?thesis
    using mux_cases [of r "routes L (api_options E cfg cache)"] by (metis find_None_iff)
qed

lemma administered:
  assumes "run_state (mux (routes L (api_options E cfg cache)) r) w = (x, w')" and "take 2 (rq_path r) = [''v1'', ''admin'']"
  obtains (missing) "x = route_not_found" "w' = w"
  | (entry) y h where "y \<in> set (routes L (api_options E cfg cache))" "takes r y"
      "en_handler y = require_auth (api_parser E cfg) (require_permission \<lparr>az_can = can (pg_identity_service (audit_key cfg))\<rparr> admin_permission h)"
      "run_state (require_auth (api_parser E cfg) (require_permission \<lparr>az_can = can (pg_identity_service (audit_key cfg))\<rparr> admin_permission h) (bind_path y r)) w = (x, w')"
proof (cases rule: mux_cases [of r "routes L (api_options E cfg cache)"])
  case absent
  then show ?thesis using missing assms(1) by simp
next
  case (route y)
  then obtain h where "en_handler y = require_auth (api_parser E cfg)
      (require_permission \<lparr>az_can = can (pg_identity_service (audit_key cfg))\<rparr> admin_permission h)"
    using admin_route [OF route(1,2) assms(2)] by (auto simp: admin_guarded_def)
  then show ?thesis using entry route assms(1) by simp
qed

text \<open>What a 200 of the role endpoint leaves behind.\<close>

lemma roles_endpoint:
  assumes "run_state (api_handler E cfg cache r) w = (resp, w1)" and "rs_status resp = 200"
    and "rq_method r = ''PATCH''" and "rq_path r = [''v1'', ''admin'', ''users'', uid, ''roles'']"
    and "read_body kib8 (rq_body r) = Some (TObj ms)" and "strs_field ''roles'' ms (None, True) = (Some names, True)"
    and "w_tx w = None" and "reliable w" and "rbac_ok (w_db w)"
  shows "reliable w1 \<and> (code \<in> set (permission_codes uid (w_db w1)) \<longleftrightarrow> granted code (roles_named names (w_db w)) (w_db w))"
proof -
  let ?k = "audit_key cfg"
  obtain x hs where x: "run_state (mux (routes (ae_http E) (api_options E cfg cache)) r) w = (x, w1)" "resp = x\<lparr>rs_headers := hs @ rs_headers x\<rparr>"
    using api_routed [OF assms(1)] assms(3) by auto
  obtain y where y: "mux (routes (ae_http E) (api_options E cfg cache)) r = require_auth (api_parser E cfg)
      (require_permission \<lparr>az_can = can (pg_identity_service ?k)\<rparr> admin_permission (set_roles_handler (ae_http E) (admin_surface (pg_identity_service ?k)))) (bind_path y r)"
    "rq_path_value (bind_path y r) ''userId'' = uid"
    using roles_route [OF assms(3,4)] by blast
  have ok200: "rs_status x = 200" using assms(2) x(2) by simp
  from x(1) y(1) have run: "run_state (require_auth (api_parser E cfg)
      (require_permission \<lparr>az_can = can (pg_identity_service ?k)\<rparr> admin_permission (set_roles_handler (ae_http E) (admin_surface (pg_identity_service ?k)))) (bind_path y r)) w = (x, w1)"
    by simp
  obtain cl0 :: claims and v where v: "at_rest w v" and h: "run_state (set_roles_handler (ae_http E) (admin_surface (pg_identity_service ?k))
      ((bind_path y r)\<lparr>rq_user := Some (cl_sub cl0)\<rparr>)) v = (x, w1)"
  proof (cases rule: guarded_run [where cache = cache, OF run])
    case 1
    then show ?thesis using ok200 by simp
  next
    case (2 cl v)
    show ?thesis by (rule that [OF 2(2) 2(4)])
  qed
  have body: "read_body kib8 (rq_body ((bind_path y r)\<lparr>rq_user := Some (cl_sub cl0)\<rparr>)) = Some (TObj ms)" by (simp add: assms(5))
  have "rq_path_value ((bind_path y r)\<lparr>rq_user := Some (cl_sub cl0)\<rparr>) ''userId'' = uid" using y(2) by simp
  then obtain actor meta n v1 where
    sr: "run_state (service_set_roles (pg_identity_service ?k) actor uid names meta) v = (Inr n, v1)" and rest: "at_rest v1 w1"
    using set_roles_answer [OF h ok200 body assms(6)] by metis
  have "w_tx v = None" "rbac_ok (w_db v)" "reliable v" "w_db v = w_db w"
    using v assms(7-9) at_rest_reliable [OF v] by (simp_all add: at_rest_def)
  then show ?thesis using set_roles_grant [OF _ sr] rest at_rest_reliable [OF rest] by (simp add: at_rest_def)
qed

text \<open>The same endpoint answers 200 when nothing fails and the request is in order.\<close>

lemma user_served:
  assumes "reliable w" and "list_ex (live_user uid) (tb_user (w_db w))" and "run_state (service_user (pg_identity_service k) uid) w = (u, w')"
  shows "is_ok u"
proof -
  obtain row where "select_one (live_user uid) (tb_user (w_db w)) = Some row"
    using assms(2) by (cases "select_one (live_user uid) (tb_user (w_db w))") (auto simp: select_one_None list_ex_iff)
  then have "wp (service_user (pg_identity_service k) uid) (\<lambda>u _. is_ok u) w"
    unfolding service_user_def pg_access_def pg_profile_def identity_store_simps pg_identity_service_simps
    using assms(1) by (simp add: wp pg_profile_def pg_access_def)
  then show ?thesis using assms(3) by (rule wpD)
qed

lemma roles_endpoint_serves:
  assumes "run_state (api_handler E cfg cache r) w = (resp, w1)" and "rq_method r = ''PATCH''"
    and "rq_path r = [''v1'', ''admin'', ''users'', uid, ''roles'']" and "uid \<noteq> []"
    and "read_body kib8 (rq_body r) = Some (TObj ms)" and "strs_field ''roles'' ms (None, True) = (Some names, True)"
    and "w_tx w = None" and "reliable w" and "rbac_ok (w_db w)"
    and "proves (api_options E cfg cache) r w cl" and "admin_permission \<in> set (permission_codes (cl_sub cl) (w_db w))"
    and "list_ex (live_user uid) (tb_user (w_db w))" and "validate_roles names = None"
    and "length (roles_named names (w_db w)) = length names"
  shows "rs_status resp = 200"
proof -
  let ?k = "audit_key cfg"
  obtain x hs where x: "run_state (mux (routes (ae_http E) (api_options E cfg cache)) r) w = (x, w1)" "resp = x\<lparr>rs_headers := hs @ rs_headers x\<rparr>"
    using api_routed [OF assms(1)] assms(2) by auto
  obtain y where y: "mux (routes (ae_http E) (api_options E cfg cache)) r = require_auth (api_parser E cfg)
      (require_permission \<lparr>az_can = can (pg_identity_service ?k)\<rparr> admin_permission (set_roles_handler (ae_http E) (admin_surface (pg_identity_service ?k)))) (bind_path y r)"
    "rq_path_value (bind_path y r) ''userId'' = uid"
    using roles_route [OF assms(2,3)] by blast
  from x(1) y(1) have run: "run_state (require_auth (api_parser E cfg)
      (require_permission \<lparr>az_can = can (pg_identity_service ?k)\<rparr> admin_permission (set_roles_handler (ae_http E) (admin_surface (pg_identity_service ?k)))) (bind_path y r)) w = (x, w1)"
    by simp
  show ?thesis
  proof (cases rule: guarded_run [where cache = cache, OF run])
    case 1
    then show ?thesis using assms(8,10,11) by auto
  next
    case (2 cl' v)
    let ?q = "(bind_path y r)\<lparr>rq_user := Some (cl_sub cl')\<rparr>" and ?meta = "\<lambda>q. admin_meta (ae_http E) q"
    have v: "w_db v = w_db w" "w_tx v = None" "reliable v"
      using 2(2) at_rest_reliable [OF 2(2)] assms(7,8) by (simp_all add: at_rest_def)
    have actor: "user_id_from ?q = Some (cl_sub cl')" using 2(1) by (auto simp: user_id_from_def proves_def)
    obtain n v1 where sr: "run_state (service_set_roles (pg_identity_service ?k) (cl_sub cl') uid names (?meta ?q)) v = (n, v1)" by fastforce
    from set_roles_run [OF v(2) sr] obtain d es where sp: "set_roles_spec (reliable v) uid names (w_db v) n d"
      and d: "w_db v1 = d\<lparr>tb_security_event := es\<rparr>" and "same_oracles v v1" unfolding set_roles_post_def by blast
    then have v1: "reliable v1" "list_ex (live_user uid) (tb_user (w_db v1))" "is_ok n"
      using v assms(9,12-14) by (auto simp: reliable_def same_oracles_def set_roles_spec.simps)
    obtain u v2 where u: "run_state (service_user (pg_identity_service ?k) uid) v1 = (u, v2)" by fastforce
    have "is_ok u" using user_served [OF v1(1,2) u] .
    then have "x = write_json 200 (user_json (projr u))"
      using 2(4) sr u v1(3) y(2) assms(4) actor with_body_run [where b = "Some names" and ms = ms]
      by (cases n; cases u) (simp_all add: set_roles_handler_def Let_def admin_surface_def assms(5,6) with_body_def members_def)
    then show ?thesis using x(2) by (simp add: write_json_def)
  qed
qed

text \<open>A request under \<open>/v1/admin\<close> by a user whose permissions are known, when nothing fails.\<close>

lemma admin_request:
  assumes "run_state (api_handler E cfg cache r) w = (resp, w')" and "rq_method r \<noteq> ''OPTIONS''" and "take 2 (rq_path r) = [''v1'', ''admin'']"
    and "proves (api_options E cfg cache) r w cl" and "reliable w"
  obtains (missing) "rs_status resp = 404" "at_rest w w'"
  | (denied) "admin_permission \<notin> set (permission_codes (cl_sub cl) (w_db w))" "rs_status resp = 403" "at_rest w w'"
  | (allowed) y h v hs x where "admin_permission \<in> set (permission_codes (cl_sub cl) (w_db w))"
      "y \<in> set (routes (ae_http E) (api_options E cfg cache))" "takes r y" "at_rest w v" "resp = x\<lparr>rs_headers := hs @ rs_headers x\<rparr>"
      "en_handler y = require_auth (api_parser E cfg) (require_permission \<lparr>az_can = can (pg_identity_service (audit_key cfg))\<rparr> admin_permission h)"
      "run_state (h ((bind_path y r)\<lparr>rq_user := Some (cl_sub cl)\<rparr>)) v = (x, w')"
proof -
  obtain x hs where x: "run_state (mux (routes (ae_http E) (api_options E cfg cache)) r) w = (x, w')" "resp = x\<lparr>rs_headers := hs @ rs_headers x\<rparr>"
    using api_routed [OF assms(1,2)] by auto
  show ?thesis
  proof (cases rule: administered [OF x(1) assms(3)])
    case 1
    then show ?thesis using missing x(2) by (simp add: write_error_def write_json_def at_rest_def)
  next
    case (2 z h)
    have p: "proves (api_options E cfg cache) (bind_path z r) w cl" using assms(4) by simp
    show ?thesis
    proof (cases rule: guarded_run [where cache = cache, OF 2(4)])
      case 1
      then show ?thesis using denied x(2) p assms(5) by simp
    next
      case (2 cl' u)
      have "cl' = cl" using p 2(1) by (auto simp: proves_def)
      then show ?thesis using allowed [OF _ \<open>z \<in> _\<close> \<open>takes r z\<close> 2(2) x(2) \<open>en_handler z = _\<close>] 2(3,4) assms(5) by simp
    qed
  qed
qed


section \<open>Suspension\<close>

lemma catalogue_route:
  assumes "rq_method r = ''GET''" and "rq_path r = [''v1'', ''admin'', ''roles'']"
  shows "\<exists>y. mux (routes L (api_options E cfg cache)) r
      = require_auth (api_parser E cfg) (require_permission \<lparr>az_can = can (pg_identity_service (audit_key cfg))\<rparr> admin_permission
          (roles_handler (identity_surface (pg_identity_service (audit_key cfg))))) (bind_path y r)"
proof -
  note defs = routes_def auth_routes_def identity_routes_def admin_routes_def Let_def settings_def [symmetric]
  show ?thesis
    by (rule mux_at; simp only: defs set_append ball_Un bex_Un ball_if_some bex_if_some set_simps ball_simps bex_simps)
      (simp_all add: assms method_matches_def del: list.map append.simps)
qed

lemma catalogue_served:
  assumes "run_state (roles_handler (identity_surface (pg_identity_service k)) q) v = (x, w')" and "reliable v"
  shows "rs_status x = 200"
proof -
  have "wp (roles_handler (identity_surface (pg_identity_service k)) q) (\<lambda>x w'. rs_status x = 200) v"
    unfolding roles_handler_def identity_surface_def service_roles_def
    using assms(2) by (simp add: wp pg_catalogue_def pg_list_roles_def write_json_def)
  then show ?thesis using assms(1) by (rule wpD)
qed

definition suspend :: "string \<Rightarrow> world \<Rightarrow> world" where
  "suspend uid w = w\<lparr>w_db := (w_db w)\<lparr>tb_user := map (\<lambda>u. if live_user uid u then edited None (Some ''SUSPENDED'') (w_clock w) u else u) (tb_user (w_db w))\<rparr>\<rparr>"

text \<open>A suspended administrator stays one: as long as the access token is valid, the catalogue of roles is served with 200 as
  before; neither the token nor the permission check looks at the account.\<close>

theorem suspended_stays_admin:
  assumes "run_state (api_handler E cfg cache r) (suspend uid w) = (resp, w')" and "rq_method r = ''GET''" and "rq_path r = [''v1'', ''admin'', ''roles'']"
    and "proves (api_options E cfg cache) r (suspend uid w) cl" and "cl_sub cl = uid" and "reliable w"
    and "admin_permission \<in> set (permission_codes uid (w_db w))"
  shows "rs_status resp = 200"
proof -
  let ?w = "suspend uid w"
  have tables: "tb_permission (w_db ?w) = tb_permission (w_db w)" "tb_role_permission (w_db ?w) = tb_role_permission (w_db w)"
    "tb_role (w_db ?w) = tb_role (w_db w)" "tb_user_role (w_db ?w) = tb_user_role (w_db w)" by (simp_all add: suspend_def)
  have joins: "permissions_of x (w_db ?w) = permissions_of x (w_db w)" "active_roles_of uid (w_db ?w) = active_roles_of uid (w_db w)" for x
    by (simp_all only: permissions_of_def active_roles_of_def tables)
  have "permission_codes uid (w_db ?w) = permission_codes uid (w_db w)" by (simp add: permission_codes_def joins)
  then have perm: "admin_permission \<in> set (permission_codes (cl_sub cl) (w_db ?w))" using assms(5,7) by simp
  have rel: "reliable ?w" using assms(6) by (simp add: suspend_def reliable_def)
  obtain x hs where x: "run_state (mux (routes (ae_http E) (api_options E cfg cache)) r) ?w = (x, w')" "resp = x\<lparr>rs_headers := hs @ rs_headers x\<rparr>"
    using api_routed [OF assms(1)] assms(2) by auto
  obtain y where y: "mux (routes (ae_http E) (api_options E cfg cache)) r = require_auth (api_parser E cfg)
      (require_permission \<lparr>az_can = can (pg_identity_service (audit_key cfg))\<rparr> admin_permission
        (roles_handler (identity_surface (pg_identity_service (audit_key cfg))))) (bind_path y r)"
    using catalogue_route [OF assms(2,3)] by blast
  from x(1) y have run: "run_state (require_auth (api_parser E cfg)
      (require_permission \<lparr>az_can = can (pg_identity_service (audit_key cfg))\<rparr> admin_permission
        (roles_handler (identity_surface (pg_identity_service (audit_key cfg))))) (bind_path y r)) ?w = (x, w')" by simp
  have "rs_status x = 200"
  proof (cases rule: guarded_run [where cache = cache, OF run])
    case 1
    then show ?thesis using assms(4) perm rel by auto
  next
    case (2 cl' v)
    have "reliable v" using at_rest_reliable [OF 2(2)] rel by simp
    then show ?thesis using 2(4) catalogue_served by blast
  qed
  then show ?thesis using x(2) by simp
qed

section \<open>The schema before the first request\<close>

definition schema_ready :: "('p, 'v) process \<Rightarrow> config \<Rightarrow> world \<Rightarrow> bool" where
  "schema_ready pc cfg v \<longleftrightarrow> (cf_auto_migrate cfg \<longrightarrow>
     (\<exists>ms. load_dir (cf_db_init_dir cfg) (pc_disk pc (cf_db_init_dir cfg)) = Inr ms \<and> set (map mg_name ms) \<subseteq> set (recorded (w_db v))))"

lemma bootstrapped_ready:
  assumes "run_state (bootstrap_schema (pc_server pc) (pc_disk pc) cfg) w = (Inr (), v)"
    and "\<And>path es. pc_disk pc path = Inr es \<Longrightarrow> distinct (map de_name es)"
  shows "schema_ready pc cfg v"
proof (cases "cf_auto_migrate cfg")
  case True
  then obtain applied where "run_state (run_migrations (pg_runner (pc_server pc) (cf_db_init_dir cfg) (pc_disk pc (cf_db_init_dir cfg)))) w
      = ((applied, None), v)"
    using assms(1) by (auto simp: bootstrap_schema_def split: option.splits prod.splits)
  then obtain ms where "load_dir (cf_db_init_dir cfg) (pc_disk pc (cf_db_init_dir cfg)) = Inr ms" "set (map mg_name ms) \<subseteq> set (recorded (w_db v))"
    by (rule migrated_recorded) (rule assms(2))
  then show ?thesis unfolding schema_ready_def by blast
qed (simp add: schema_ready_def)

text \<open>C10: The API serves nothing before its schema is there: whatever fails, the server is only ever started with a configuration that
  loads and in a world where, unless migration is switched off, every schema file of the directory is in the ledger; a
  server that behaves differently anywhere else would not change the run.\<close>

theorem schema_before_serving:
  assumes "\<And>path es. pc_disk pc path = Inr es \<Longrightarrow> distinct (map de_name es)"
    and "\<And>cfg addr v. load part order getenv = Inr cfg \<Longrightarrow> schema_ready pc cfg v \<Longrightarrow>
      run_state (pc_serve pc addr (api_handler E cfg)) v = run_state (serve addr (api_handler E cfg)) v"
  shows "run_state (run_api E pc part order getenv) w = run_state (run_api E (pc\<lparr>pc_serve := serve\<rparr>) part order getenv) w"
proof (cases "load part order getenv")
  case (Inr cfg)
  have served: "run_state (pc_serve pc addr (api_handler E cfg)) v = run_state (serve addr (api_handler E cfg)) v"
    if "run_state (bootstrap_schema (pc_server pc) (pc_disk pc) cfg) u = (Inr (), v)" for u v addr
    by (rule assms(2) [OF Inr]) (rule bootstrapped_ready [OF that assms(1)])
  obtain p v where conn: "run_state (connect_pool (pc_context pc) (pc_new_pool pc (cf_database_url cfg)) (pc_ping pc) (pc_close pc) default_connect_attempts) w = (p, v)"
    by fastforce
  obtain b u where boot: "run_state (bootstrap_schema (pc_server pc) (pc_disk pc) cfg) v = (b, u)" by fastforce
  have "b = Inr () \<Longrightarrow> run_state (pc_serve pc addr (api_handler E cfg)) u = run_state (serve addr (api_handler E cfg)) u" for addr
    using served [of v u addr] boot by simp
  then show ?thesis
    by (cases p; cases b) (auto simp: run_api_def Inr conn boot attempt_def)
qed (simp add: run_api_def)

section \<open>The first administrator\<close>

text \<open>The store's \<open>SetRoles\<close> is that of a service without a recorder.\<close>

lemma run_attempt_ok [simp]: "run_state (attempt m ok) w = run_state m w"
  by (cases "run_state m w"; cases "fst (run_state m w)") (auto simp: attempt_def)

lemma pg_set_roles_run:
  assumes "w_tx w = None" and "run_state (pg_set_roles uid roles) w = (r, w')"
  shows "set_roles_post uid roles w r w'"
proof -
  let ?s = "(new_identity pg_identity_store pg_catalogue)\<lparr>id_admin := Some pg_admin_store\<rparr>"
  have "run_state (service_set_roles ?s actor uid roles meta) w = run_state (attempt (pg_set_roles uid roles) ok) w" for actor meta
    by (simp add: service_set_roles_def with_admin_def new_identity_def best_effort_def attempt_def split: prod.splits)
  then have "run_state (service_set_roles ?s [] uid roles (event [])) w = (r, w')" using assms(2) by simp
  from wpD [OF no_audit.set_roles_effect [OF _ _ assms(1)] this] show ?thesis by (simp add: new_identity_def)
qed

lemma pg_set_roles_one:
  assumes "w_tx w = None" and "run_state (pg_set_roles uid [role]) w = (r, w')" and "rbac_ok (w_db w)"
  shows "tb_user_role (w_db w') = tb_user_role (w_db w) \<and> \<not> is_ok r
    \<or> role_names uid (w_db w') = [role] \<and> (\<forall>other. other \<noteq> uid \<longrightarrow> role_names other (w_db w') = role_names other (w_db w))
       \<and> (r = Inr [role] \<or> \<not> reliable w \<and> \<not> is_ok r)"
proof -
  from pg_set_roles_run [OF assms(1,2)] obtain d es where
    sp: "set_roles_spec (reliable w) uid [role] (w_db w) r d" and d: "w_db w' = d\<lparr>tb_security_event := es\<rparr>"
    unfolding set_roles_post_def by blast
  from sp show ?thesis
  proof cases
    case replaced
    note names = roles_named_all(2) [OF assms(3) _ replaced(4)]
    have "role_names uid d = [role]"
      using names active_roles_replaced [OF assms(3)] by (simp add: role_names_def replaced(1))
    moreover have "role_names other d = role_names other (w_db w)" if "other \<noteq> uid" for other
      using active_roles_others [OF that] by (simp add: role_names_def replaced(1))
    ultimately show ?thesis using replaced(5) names d by auto
  qed (simp_all add: d)
qed

text \<open>The bootstrap command grants exactly the role it is told to exactly the live user who owns the address, all or nothing: either
  it fails and no assignment has changed, or that user's active roles are now that role alone and everyone else's are as
  before (and the command says so unless an acknowledgement was lost).\<close>

theorem bootstrap_grants:
  assumes "run_state (run_bootstrap new_pool getenv) w = (r, w')" and "w_tx w = None" and "rbac_ok (w_db w)"
    and "email = to_lower (trim_space (getenv ''EMAIL''))" and "role = value_or getenv ''ROLE'' ''SUPERADMIN''"
  shows "tb_user_role (w_db w') = tb_user_role (w_db w) \<and> \<not> is_ok r
    \<or> (\<exists>u. select_one (owns_email email) (tb_user (w_db w)) = Some u \<and> role_names (u_id u) (w_db w') = [role]
       \<and> (\<forall>other. other \<noteq> u_id u \<longrightarrow> role_names other (w_db w') = role_names other (w_db w))
       \<and> (r = Inr ([role], email, u_id u) \<or> \<not> reliable w \<and> \<not> is_ok r))"
proof (cases "trim_space (getenv ''DATABASE_URL'') = [] \<or> email = [] \<or> \<not> is_ok (new_pool (trim_space (getenv ''DATABASE_URL'')))")
  case True
  then show ?thesis
    using assms(1) unfolding assms(4) by (cases "new_pool (trim_space (getenv ''DATABASE_URL''))") (auto simp: run_bootstrap_def Let_def check_def split: if_splits)
next
  case False
  obtain a v where look: "run_state (pool_exec (query_stmt (\<lambda>d. select_one (owns_email email) (tb_user d)))) w = (a, v)" by fastforce
  have v: "w_db v = w_db w" "w_tx v = None" "reliable v = reliable w"
    and found: "a = Inr y \<Longrightarrow> y = select_one (owns_email email) (tb_user (w_db w))" for y
    using look assms(2) by (auto simp: pool_exec_def tickd_def reliable_def split: outcome.splits)
  have run: "(case a of Inl e \<Rightarrow> (Inl (wrap ''looking up user: '' e), v)
      | Inr None \<Rightarrow> (Inl (Err (''no active user with email '' @ email @ '': register first, then bootstrap'')), v)
      | Inr (Some u) \<Rightarrow> run_state (attempt (pg_set_roles (u_id u) [role]) (\<lambda>roles. ok (roles, email, u_id u))) v) = (r, w')"
    using assms(1) False look unfolding run_bootstrap_def Let_def assms(4) [symmetric] assms(5) [symmetric]
    by (cases "new_pool (trim_space (getenv ''DATABASE_URL''))"; cases a) (auto simp: check_def split: option.splits)
  show ?thesis
  proof (cases "\<exists>u. a = Inr (Some u)")
    case False
    then show ?thesis using run v by (cases a) (auto split: option.splits)
  next
    case True
    then obtain u where u: "a = Inr (Some u)" by blast
    obtain n v1 where sr: "run_state (pg_set_roles (u_id u) [role]) v = (n, v1)" by fastforce
    have r: "r = (case n of Inl e \<Rightarrow> Inl e | Inr roles \<Rightarrow> Inr (roles, email, u_id u))" "w' = v1"
      using run u sr by (cases n; simp add: attempt_def)+
    have sel: "select_one (owns_email email) (tb_user (w_db w)) = Some u" using found [OF u] by simp
    have "rbac_ok (w_db v)" using assms(3) v by simp
    from pg_set_roles_one [OF v(2) sr this] consider (kept) "tb_user_role (w_db w') = tb_user_role (w_db w)" "\<not> is_ok r"
      | (granted) "role_names (u_id u) (w_db w') = [role]" "\<forall>other. other \<noteq> u_id u \<longrightarrow> role_names other (w_db w') = role_names other (w_db w)"
        "r = Inr ([role], email, u_id u) \<or> \<not> reliable w \<and> \<not> is_ok r"
      unfolding r(2) v by (cases n) (auto simp: r(1))
    then show ?thesis
    proof cases
      case granted
      with sel show ?thesis by blast
    qed simp
  qed
qed

section \<open>Worked examples\<close>

text \<open>An environment whose tokens are the ids of their users, which reaches all its dependencies, and a configuration with a broker.\<close>

definition demo_environment :: "(unit, unit, string) environment" where
  "demo_environment = \<lparr>ae_jwt = \<lparr>jwt_date = id, jwt_sign = (\<lambda>secret c. Inr (cl_sub c)),
       jwt_parse = (\<lambda>kf algs now tok. Inr (True, \<lparr>cl_sub = tok, cl_iss = [], cl_iat = 0, cl_exp = 0, cl_jti = []\<rparr>))\<rparr>,
     ae_idkey = (\<lambda>p s t m q n. replicate n (CHR ''k'')), ae_dummy = [],
     ae_http = \<lparr>hl_parse_address = (\<lambda>a. a \<noteq> []), hl_split_host_port = Inr, hl_parse_time = (\<lambda>t. None)\<rparr>,
     ae_oidc = demo_oidc, ae_ping_db = (\<lambda>t. ok ()), ae_ping_cache = (\<lambda>t. ok ()), ae_dial = (\<lambda>u t. ok ()), ae_hang_up = ok ()\<rparr>"

definition demo_service :: config where
  "demo_service = (base_config demo_env)\<lparr>cf_rabbitmq_url := ''amqp://mq''\<rparr>"

abbreviation demo_api :: handler where
  "demo_api \<equiv> api_handler demo_environment demo_service Map.empty"

lemma trim_ana: "trim_space ''ana@example.com'' = ''ana@example.com''" "trim_space ''Ana'' = ''Ana''"
  by code_simp+

text \<open>The bodies as a client sends them.\<close>

definition demo_roles_text :: string where
  "demo_roles_text = CHR ''{'' # json_string ''roles'' @ CHR '':'' # CHR ''['' # json_string ''EDITOR'' @ '']}''"

lemma demo_bodies:
  "read_body kib8 (object_text [(''email'', ''ana@example.com''), (''password'', ''wrong'')])
     = Some (TObj [(''email'', TStr ''ana@example.com''), (''password'', TStr ''wrong'')])"
  "read_body kib8 (object_text [(''email'', ''ana@example.com''), (''name'', ''Ana''), (''password'', ''0123456789ab'')])
     = Some (TObj [(''email'', TStr ''ana@example.com''), (''name'', TStr ''Ana''), (''password'', TStr ''0123456789ab'')])"
  "read_body kib8 demo_roles_text = Some (TObj [(''roles'', TArr [TStr ''EDITOR''])])"
proof -
  have valid: "valid_utf8 ''email''" "valid_utf8 ''ana@example.com''" "valid_utf8 ''password''" "valid_utf8 ''wrong''" "valid_utf8 ''name''"
    "valid_utf8 ''Ana''" "valid_utf8 ''0123456789ab''" "valid_utf8 ''roles''" "valid_utf8 ''EDITOR''" by code_simp+
  have len: "length (object_text [(''email'', ''ana@example.com''), (''password'', ''wrong'')]) = 46"
    "length (object_text [(''email'', ''ana@example.com''), (''name'', ''Ana''), (''password'', ''0123456789ab'')]) = 66"
    "length demo_roles_text = 20" by code_simp+
  show "read_body kib8 (object_text [(''email'', ''ana@example.com''), (''password'', ''wrong'')])
     = Some (TObj [(''email'', TStr ''ana@example.com''), (''password'', TStr ''wrong'')])"
    using object_tree(2) [of "[(''email'', ''ana@example.com''), (''password'', ''wrong'')]" kib8] by (simp add: valid len kib8_def)
  show "read_body kib8 (object_text [(''email'', ''ana@example.com''), (''name'', ''Ana''), (''password'', ''0123456789ab'')])
     = Some (TObj [(''email'', TStr ''ana@example.com''), (''name'', TStr ''Ana''), (''password'', TStr ''0123456789ab'')])"
    using object_tree(2) [of "[(''email'', ''ana@example.com''), (''name'', ''Ana''), (''password'', ''0123456789ab'')]" kib8]
    by (simp add: valid len kib8_def)
  have "read_json Value max_nesting demo_roles_text = Some (TObj [(''roles'', TArr [TStr ''EDITOR''])], [])"
  proof -
    have "read_json Value d (CHR ''['' # json_string ''EDITOR'' @ '']}'') = Some (TArr [TStr ''EDITOR''], ''}'')" if "0 < d" for d
      using that read_item(1) [OF valid(9), of "d - 1" "''}''"] by (subst read_json.simps(1), simp add: json_string_front [of "''EDITOR''"])
    then have "read_json Members 9999 (json_string ''roles'' @ CHR '':'' # CHR ''['' # json_string ''EDITOR'' @ '']}'') = Some (TObj [(''roles'', TArr [TStr ''EDITOR''])], [])"
      by (intro read_last_member [OF valid(8)]) simp
    then show ?thesis
      by (subst read_json.simps(1), simp add: demo_roles_text_def max_nesting_def json_string_front [of "''roles''"])
  qed
  then show "read_body kib8 demo_roles_text = Some (TObj [(''roles'', TArr [TStr ''EDITOR''])])"
    using len(3) by (simp add: read_body_def kib8_def)
qed

text \<open>A login for an address nobody has.\<close>

definition demo_login_request :: request where
  "demo_login_request = (demo_request ''POST'' [''v1'', ''auth'', ''login''])
     \<lparr>rq_body := object_text [(''email'', ''ana@example.com''), (''password'', ''wrong'')]\<rparr>"

lemma login_hides_accounts_witness:
  "rs_status (fst (run_state (demo_api demo_login_request) (calm empty_db))) = 401"
proof -
  have "answers_with (fst (run_state (demo_api demo_login_request) (calm empty_db)))
      (write_error 401 ''invalid_credentials'' ''Email or password is incorrect.'')"
    by (rule login_hides_accounts [OF prod.collapse [symmetric], where ms = "[(''email'', TStr ''ana@example.com''), (''password'', TStr ''wrong'')]"
        and b = "\<lparr>lb_email = ''ana@example.com'', lb_password = ''wrong'', lb_device = []\<rparr>"])
      (simp_all add: demo_login_request_def demo_request_def decode_login_def demo_bodies fold_name.simps lower_char_def byte_def demo_environment_def trim_ana empty_db_def)
  then show ?thesis by (simp add: answers_with_def write_error_def write_json_def)
qed

definition demo_signup_request :: request where
  "demo_signup_request = (demo_request ''POST'' [''v1'', ''auth'', ''signup''])
     \<lparr>rq_body := object_text [(''email'', ''ana@example.com''), (''name'', ''Ana''), (''password'', ''0123456789ab'')]\<rparr>"


text \<open>The administrator demotes herself: she asks for the role \<open>EDITOR\<close>, which grants nothing of the panel, then for the catalogue.\<close>

definition demo_admins :: world where
  "demo_admins = calm (empty_db\<lparr>tb_user := [demo_user], tb_role := [demo_role, demo_role\<lparr>ro_id := ''r2'', ro_name := ''ADMIN''\<rparr>],
     tb_permission := [\<lparr>pe_id = ''p1'', pe_code = ''admin.access'', pe_module = ''ADMIN'', pe_name = ''Panel'', pe_status = ''ACTIVE'', pe_deleted = None\<rparr>],
     tb_role_permission := [\<lparr>rp_role = ''r2'', rp_permission = ''p1''\<rparr>], tb_user_role := [\<lparr>ur_user = ''u1'', ur_role = ''r2''\<rparr>]\<rparr>)"

definition with_token :: "request \<Rightarrow> request" where
  "with_token r = r\<lparr>rq_header := (\<lambda>n. if n = ''Authorization'' then ''Bearer u1'' else [])\<rparr>"

definition demo_patch :: request where
  "demo_patch = (with_token (demo_request ''PATCH'' [''v1'', ''admin'', ''users'', ''u1'', ''roles'']))
     \<lparr>rq_body := demo_roles_text\<rparr>"

lemma demo_token: "bearer_token (with_token r) = Some ''u1''"
proof -
  have "trim_space ''u1'' = ''u1''" "to_lower ''Bearer '' = ''bearer ''" by code_simp+
  then show ?thesis by (simp add: bearer_token_def with_token_def)
qed

definition demo_claims :: claims where
  "demo_claims = \<lparr>cl_sub = ''u1'', cl_iss = [], cl_iat = 0, cl_exp = 0, cl_jti = []\<rparr>"

lemma demo_proves: "bearer_token r = Some ''u1'' \<Longrightarrow> proves (api_options demo_environment demo_service cache) r w demo_claims"
  by (simp add: proves_def api_parser_def demo_environment_def parse_token_def read_clock_def demo_claims_def)

lemma demo_admins_facts:
  "reliable demo_admins" "w_tx demo_admins = None" "rbac_ok (w_db demo_admins)" "list_ex (live_user ''u1'') (tb_user (w_db demo_admins))"
  "''admin.access'' \<in> set (permission_codes ''u1'' (w_db demo_admins))" "roles_named [''EDITOR''] (w_db demo_admins) = [demo_role]"
  "\<not> granted ''admin.access'' [demo_role] (w_db demo_admins)"
  by (simp_all add: demo_admins_def rbac_ok_def demo_role_def demo_user_def live_user_def permission_codes_granted granted_def
      active_roles_of_def permissions_of_def active_role_def active_permission_def roles_named_def)

lemma demo_patch_facts:
  "rq_method demo_patch = ''PATCH''" "rq_path demo_patch = [''v1'', ''admin'', ''users'', ''u1'', ''roles'']" "bearer_token demo_patch = Some ''u1''"
  "read_body kib8 (rq_body demo_patch) = Some (TObj [(''roles'', TArr [TStr ''EDITOR''])])"
  "strs_field ''roles'' [(''roles'', TArr [TStr ''EDITOR''])] (None, True) = (Some [''EDITOR''], True)"
proof -
  show "bearer_token demo_patch = Some ''u1''"
    using demo_token [of "demo_request ''PATCH'' [''v1'', ''admin'', ''users'', ''u1'', ''roles'']"]
    by (simp add: demo_patch_def bearer_token_def)
  show "strs_field ''roles'' [(''roles'', TArr [TStr ''EDITOR''])] (None, True) = (Some [''EDITOR''], True)" by code_simp
qed (simp_all add: demo_patch_def with_token_def demo_request_def demo_bodies)

lemma demo_patch_run: "rs_status (fst (run_state (demo_api demo_patch) demo_admins)) = 200"
  by (rule roles_endpoint_serves [OF prod.collapse [symmetric] demo_patch_facts(1,2) _ demo_patch_facts(4,5) demo_admins_facts(2,1,3) demo_proves])
    (use demo_admins_facts in \<open>simp_all add: demo_patch_facts demo_claims_def admin_permission_def validate_None\<close>)

definition demo_catalogue :: request where
  "demo_catalogue = with_token (demo_request ''GET'' [''v1'', ''admin'', ''roles''])"

lemma demo_catalogue_facts: "rq_method demo_catalogue = ''GET''" "rq_path demo_catalogue = [''v1'', ''admin'', ''roles'']"
  "bearer_token demo_catalogue = Some ''u1''"
  by (simp_all only: demo_catalogue_def demo_token) (simp_all add: with_token_def demo_request_def)


text \<open>Had she been suspended instead, nothing would have changed.\<close>

lemma suspended_stays_admin_witness:
  "rs_status (fst (run_state (demo_api demo_catalogue) (suspend ''u1'' demo_admins))) = 200"
  by (rule suspended_stays_admin [OF prod.collapse [symmetric] _ _ demo_proves])
    (use demo_admins_facts in \<open>simp_all add: demo_catalogue_facts demo_claims_def admin_permission_def\<close>)

text \<open>The bootstrap command for the address of the one user.\<close>

definition demo_bootstrap_env :: getenv where
  "demo_bootstrap_env key = (if key = ''DATABASE_URL'' then ''postgres://db'' else if key = ''EMAIL'' then ''Ana@example.com'' else
     if key = ''ROLE'' then ''EDITOR'' else [])"

abbreviation demo_bootstrap :: "(string list \<times> string \<times> string) res \<times> world" where
  "demo_bootstrap \<equiv> run_state (run_bootstrap (\<lambda>dsn. Inr ()) demo_bootstrap_env) demo_admins"

lemma demo_bootstrap_settings:
  "trim_space (demo_bootstrap_env ''DATABASE_URL'') = ''postgres://db''" "to_lower (trim_space (demo_bootstrap_env ''EMAIL'')) = ''ana@example.com''"
  "value_or demo_bootstrap_env ''ROLE'' ''SUPERADMIN'' = ''EDITOR''"
  by code_simp+

lemma demo_bootstrap_ok: "is_ok (fst demo_bootstrap)"
proof -
  obtain r w' where run: "run_state (pg_set_roles ''u1'' [''EDITOR'']) (tickd demo_admins) = (r, w')" by fastforce
  have same: "w_db (tickd demo_admins) = w_db demo_admins" "w_tx (tickd demo_admins) = None" "reliable (tickd demo_admins)"
    "(tickd demo_admins)\<lparr>w_db := w_db demo_admins\<rparr> = tickd demo_admins"
    using demo_admins_facts by (simp_all add: tickd_def reliable_def)
  have "validate_roles [''EDITOR''] = None" by (simp add: validate_None)
  then have "is_ok r"
    using pg_set_roles_run [OF same(2) run] demo_admins_facts same
    by (auto simp: set_roles_post_def set_roles_spec.simps)
  moreover have "select_one (owns_email ''ana@example.com'') (tb_user (w_db demo_admins)) = Some demo_user" "u_id demo_user = ''u1''"
    by (simp_all add: demo_admins_def demo_user_def owns_email_def select_one_def)
  ultimately show ?thesis
    using run demo_admins_facts(1)
    by (cases r) (simp_all add: same(4) run_bootstrap_def Let_def demo_bootstrap_settings check_def attempt_def pool_exec_def query_stmt_def reliable_def fault_now_def)
qed

lemma bootstrap_grants_witness: "role_names ''u1'' (w_db (snd demo_bootstrap)) = [''EDITOR'']"
proof -
  have "select_one (owns_email ''ana@example.com'') (tb_user (w_db demo_admins)) = Some demo_user" "u_id demo_user = ''u1''"
    by (simp_all add: demo_admins_def demo_user_def owns_email_def select_one_def)
  then show ?thesis
    using bootstrap_grants [OF prod.collapse [symmetric] demo_admins_facts(2,3) refl refl, where new_pool = "\<lambda>dsn. Inr ()" and getenv = demo_bootstrap_env]
      demo_bootstrap_ok by (simp add: demo_bootstrap_settings)
qed

text \<open>A process over the example directory; a server that fails while the ledger is empty makes no difference to it.\<close>

definition demo_process :: "(unit, unit) process" where
  "demo_process = \<lparr>pc_context = \<lparr>ctx_err = ret None, ctx_after = (\<lambda>d. ret None)\<rparr>, pc_new_pool = (\<lambda>url. ok ()), pc_ping = (\<lambda>p. ok ()),
     pc_close = (\<lambda>p. ret ()), pc_disk = (\<lambda>path. Inr demo_files), pc_server = demo_server,
     pc_serve = (\<lambda>addr h. ret Signalled), pc_shutdown = (\<lambda>t. ok ())\<rparr>"

definition demo_strict :: "string \<Rightarrow> ((string \<rightharpoonup> unit) \<Rightarrow> handler) \<Rightarrow> stop eff" where
  "demo_strict addr h = State (\<lambda>v. (if recorded (w_db v) = [] then Server_Failed (Err ''no schema'') else Signalled, v))"

lemma schema_before_serving_witness:
  "run_state (run_api demo_environment demo_process (\<lambda>f u s. 0) duration_keys demo_env) (calm empty_db)
   = run_state (run_api demo_environment (demo_process\<lparr>pc_serve := demo_strict\<rparr>) (\<lambda>f u s. 0) duration_keys demo_env) (calm empty_db)"
proof (rule schema_before_serving)
  fix cfg addr v assume "load (\<lambda>f u s. 0) duration_keys demo_env = Inr cfg" and ready: "schema_ready demo_process cfg v"
  then have "cfg = base_config demo_env" using demo_env_load [OF refl, of "\<lambda>f u s. 0"] by simp
  then have "cf_auto_migrate cfg" by (simp add: base_config_def)
  moreover have "load_dir path (Inr demo_files) = Inr demo_migrations" for path
    using demo_load by (simp add: load_dir_def)
  ultimately have "recorded (w_db v) \<noteq> []"
    using ready by (auto simp: schema_ready_def demo_process_def demo_migrations_def)
  then show "run_state (pc_serve demo_process addr (api_handler demo_environment cfg)) v = run_state (demo_strict addr (api_handler demo_environment cfg)) v"
    by (simp add: demo_process_def demo_strict_def)
qed (use demo_names in \<open>auto simp: demo_process_def\<close>)

end
