(* ===== verification/Spec2Isabelle.thy ===== *)
theory Spec2Isabelle
  imports Session_Safety Mail Signup_Safety Relocation Identity_Safety Migrate_Safety Social_Safety Http_Safety Login_Burst Token_Race Code_Race_Safety Mail_Delivery Config_Safety Api_Safety
begin

text \<open>
  Verification library of the authentication service: the Go module under \<open>src/api\<close> and the tables of
  schema \<open>seg\<close> it works on (\<open>src/database/init\<close>).

  The program. Three commands share the packages under \<open>internal\<close>. \<open>cmd/api\<close> reads its configuration
  (\<open>config\<close>), connects to PostgreSQL and applies the schema (\<open>db\<close>), builds the services (\<open>session\<close>,
  \<open>login\<close>, \<open>signup\<close>, \<open>password\<close>, \<open>emailchange\<close>, \<open>identity\<close>, \<open>social\<close>, \<open>invitation\<close>) over their
  PostgreSQL stores and serves them over HTTP (\<open>httpapi\<close>). The services that mail a code publish a message
  to RabbitMQ (\<open>queue\<close>); \<open>cmd/worker\<close> consumes it and sends it over SMTP (\<open>mailer\<close>). \<open>cmd/bootstrap\<close>
  grants a role to one account. \<open>security\<close> holds password hashing and the quotas, \<open>audit\<close> the append-only
  log of security events, \<open>probe\<close> the readiness checks.

  A request crosses the model as it crosses the code: \<open>Commands.api_handler\<close> (the wiring of \<open>main.go\<close>) is
  \<open>Router.new_router\<close> with the services of the component theories plugged in; a route runs its middleware
  and its handler (\<open>Http\<close>, \<open>Handlers\<close>, \<open>Router\<close>), the handler one operation of a service, the operation
  the operations of its store, and each of these is one or more statements on the world.
\<close>

section \<open>Theories and the code they model\<close>

text \<open>
  The ground.
  \<^item> \<open>Prelude\<close>: Go error values with \<open>errors.Is\<close> and \<open>errors.As\<close>, effects as a state monad with errors in a
    sum, the predicate \<open>wp\<close> and the collection of its equations, machine-integer and list lemmas.
  \<^item> \<open>Go_Strings\<close>, \<open>Encodings\<close>, \<open>Vectors\<close>: the standard library the code calls, written out: \<open>strings\<close>,
    \<open>strconv\<close>, base64, hex, big-endian integers, HMAC and SHA-256 on 32-bit words, with published test vectors.
    \<open>Json_Text\<close>: \<open>encoding/json\<close> and \<open>unicode/utf8\<close> on bytes, the parser of values with the limit on nesting, the filling of a
    struct and the strings and structs that are written; what was written is read back.
  \<^item> \<open>Database\<close>: the tables of \<open>03-seg-tables.sql\<close> as records of rows in a list, with the unique and foreign
    keys the statements rely on, and the statements' common parts.
  \<^item> \<open>World\<close>: the state outside the process: the committed database, the open transaction, the mail queue, the
    broker channel of the process, the accepted mail, the clock, and oracles for faults, elapsed time and entropy.

  The components, each in the order of its source files.
  \<^item> \<open>Security\<close>: \<open>security/limit.go\<close>, \<open>security/password.go\<close>. \<open>Audit_Log\<close>: \<open>audit/audit.go\<close>.
  \<^item> \<open>Session\<close>: package \<open>session\<close> (issue, verify, refresh with rotation and reuse detection, logout).
  \<^item> \<open>Login\<close>, \<open>Signup\<close>, \<open>Password\<close>, \<open>Email_Change\<close>, \<open>Identity\<close>, \<open>Social\<close>: the packages of these names, service
    and PostgreSQL store each. \<open>Codes\<close>: what the three one-time codes share.
  \<^item> \<open>Mail\<close>: \<open>queue/publisher.go\<close>, \<open>invitation/service.go\<close>, \<open>mailer/mailer.go\<close> and the loop of
    \<open>cmd/worker/main.go\<close>.
  \<^item> \<open>Migrate\<close>: \<open>db/migrate.go\<close>, \<open>db/pool.go\<close>. \<open>Probes\<close>: \<open>probe/probe.go\<close>. \<open>Config\<close>: \<open>config/config.go\<close>.
  \<^item> \<open>Http\<close>: \<open>authmw.go\<close>, \<open>cookies.go\<close>, the JSON of requests and responses, cursors of pages; \<open>Handlers\<close>: the
    handlers of \<open>auth.go\<close>, \<open>password.go\<close>, \<open>emailchange.go\<close>, \<open>social.go\<close>, \<open>identity.go\<close>; \<open>Router\<close>:
    \<open>admin.go\<close>, \<open>health.go\<close>, \<open>cors.go\<close>, \<open>router.go\<close>.
  \<^item> \<open>Commands\<close>: \<open>cmd/api/main.go\<close>, the start of \<open>cmd/worker/main.go\<close>, \<open>cmd/bootstrap/main.go\<close>.

  The state of a Go struct is a record with the struct's fields (\<open>session_config\<close>, \<open>refresh_row\<close>,
  \<open>login_service\<close>, \<open>config\<close> and so on), an interface is the record or function the constructor receives, a
  method is a definition on that record, and \<open>return err\<close> is \<open>Inl\<close>.
\<close>

section \<open>What is proved\<close>

text \<open>
  Each service has a specification over plain tables (\<open>refresh_spec\<close>, \<open>logout_spec\<close>, \<open>login_spec\<close>,
  \<open>request_spec\<close>, \<open>verify_spec\<close>, \<open>reset_spec\<close>, \<open>change_spec\<close>, \<open>request_change_spec\<close>, \<open>verify_change_spec\<close>,
  \<open>set_roles_spec\<close>, \<open>social_spec\<close>: \<open>inductive\<close>, one rule per outcome), and a lemma that the operation, run in any
  world with any faults, implements it. The theorems of the \<open>_Safety\<close> theories follow from the specifications.

  \<^item> Sessions (\<open>Session_Safety\<close>): at most one live refresh token per family in every reachable state, a refresh
    token works once, using it again ends the family, an access token that was issued verifies. \<open>Token_Race\<close>: refreshes and
    logouts whose transactions interleave at READ COMMITTED, split at their statements (\<open>refresh_in_moves\<close>,
    \<open>logout_in_moves\<close>); every move refines the steps of \<open>Session_Safety\<close>, so one live token and single use survive, and a
    logout still ends the family, but a reuse detected while the family rotates does not.
  \<^item> Guessing and rationing (\<open>Login_Safety\<close>, \<open>Signup_Safety\<close>, \<open>Recovery\<close>, \<open>Relocation\<close>): the number of guesses
    against a password or a mailed code over a whole history of attempts; an account is created, a password reset
    or an address moved only with the mailed code; both end the sessions.
    \<open>Code_Race\<close>, \<open>Code_Race_Safety\<close>: the same bounds when codes are presented at the same time, each operation split where it
    holds the lock of the pending row; a registration is consumed once.
  \<^item> \<open>Lockout\<close>: the lockout as an abstract machine, which the login service refines. \<open>Login_Burst\<close>: logins against one
    account that interleave, split where the service reads the account (\<open>login_in_two\<close>); how many passwords
    they can test, and the burst that reaches past the lock.
  \<^item> \<open>Identity_Safety\<close>: replacing roles is all or nothing; the pages of a listing are the listing.
    \<open>Social_Safety\<close>: a federated login resolves by subject, and by address only when it is proved.
    \<open>Mail\<close>: no field of a message adds a header or a recipient. \<open>Mail_Delivery\<close>: what is queued is what the worker sends, at
    most once each; with the registration, the code reaches the address and makes the account.
  \<^item> \<open>Migrate_Safety\<close>: the files are applied in order and once each, also across failures and restarts; the
    connection loop makes a bounded number of attempts and then returns.
  \<^item> \<open>Config_Safety\<close>: what a loaded configuration guarantees, and that a refusal names a variable at fault.
  \<^item> \<open>Http_Safety\<close>: routes that need a token, a permission or the CSRF token; the shape of every response; how a
    token pair travels; CORS; readiness; paging. Stated for the router over arbitrary services.
  \<^item> \<open>Api_Safety\<close>: the composition. Login and registration do not tell who has an account, byte for byte of the
    HTTP response; a demotion is effective with the next request; nothing is served before the schema is applied.

  Interfaces are locales: \<open>audit_recorder\<close> and \<open>auditing\<close>, \<open>session_issuer\<close>, \<open>mail_publisher\<close> and
  \<open>mail_service\<close>, \<open>code_guard\<close> (the bound on guesses, proved once and interpreted for sign-up, reset and change of
  address), \<open>locked_guard\<close> and \<open>locked_once\<close> (the same of concurrent presentations), \<open>login_env\<close>, \<open>signup_env\<close>, \<open>social_env\<close> with \<open>token_verifier\<close>, and \<open>migration_target\<close>. Every one is
  interpreted on the PostgreSQL, AMQP or OIDC definitions of its provider.
\<close>

section \<open>How the model reads the code\<close>

text \<open>
  \<^item> Faults. An interaction with a server succeeds, fails without effect, or takes effect while the caller sees an
    error. Which one happens at which step is an arbitrary function in the world, so a theorem about all worlds is
    one about every schedule of failures. Theorems that promise success assume \<open>reliable\<close>, the world where no
    interaction fails. The clock advances by an arbitrary amount at every step.
  \<^item> Transactions. \<open>Begin\<close> takes a copy of the committed database, statements act on the copy with the
    transaction's \<open>now()\<close>, a failed statement aborts, \<open>Commit\<close> publishes. \<open>defer tx.Rollback\<close> is written out.
  \<^item> Numbers. Durations and instants are \<open>int\<close>, in nanoseconds, and counters \<open>int\<close>; where the width is visible (SHA-256,
    the offset of a page, \<open>Atoi\<close>, \<open>ParseDuration\<close>) words are used or the overflow is written out.
  \<^item> Recursion. No definition uses fuel. Loops over the characters or items of an input recurse on it, directly or
    with a measure (\<open>ParseDuration\<close>, decoding of base64, \<open>TrimSpace\<close>, JSON values); the connection loop recurses on the number
    of attempts left.
  \<^item> Names of Go that collide with HOL have a suffix or a prefix; SQL statements are named after what they do.

  Parameters, since their code is not in the repository: signing and parsing of JWT (\<open>jwt_lib\<close>), Argon2id, the OIDC
  discovery and token check (\<open>oidc_lib\<close>), the parser of \<open>net/http\<close> (a request arrives as its
  headers, cookies, query and the bytes of its body; the body of a response is the tree that is encoded), the address and time parsers and \<open>net.SplitHostPort\<close> (\<open>http_lib\<close>), the SQL that a migration file executes, the pings and dials of the probes, the listener and the
  signals of a process, the floating-point step of \<open>ParseDuration\<close> and the order in which Go ranges over a map. What a
  theorem relies on is one of its hypotheses, and a witness instantiates it.
\<close>

section \<open>Not modelled\<close>

text \<open>
  \<^item> Concurrency of requests, apart from logins (\<open>Login_Burst\<close>), from refreshes and logouts (\<open>Token_Race\<close>) and
    from the operations that take a mailed code (\<open>Code_Race\<close>); in the last two row locks and what statements see are modelled. Elsewhere one request runs at a time, and the
    row locks (\<open>FOR UPDATE\<close>) that serialise concurrent transactions have no effect in the model.
  \<^item> Log lines, metrics of the runtime, and the redirects of \<open>ServeMux\<close> for paths that are not clean.
  \<^item> Unicode beyond ASCII in \<open>strings.ToLower\<close> and in the collation of the database; \<open>ORDER BY\<close> and \<open>ILIKE\<close> are
    those of collation \<open>C\<close>.
  \<^item> The triggers and history tables of the schema and the schema of places, which no statement of the service reads.
  \<^item> The other parts of the repository: clients, infrastructure files, scripts and the Go tests.
\<close>

end
